(* ===== verification/Prelude.thy ===== *)
theory Prelude
  imports Main "HOL-Library.Word"
begin

text \<open>
  Shared vocabulary of the development: the types that stand for Go's basic types, the values an
  operation of the program can end with (a result, an error, a panic), the state-passing
  combinators the components are written with, and the clock and the random source, with the
  generic lemmas about them.
\<close>

section \<open>Basic types\<close>

text \<open>
  A Go string is a sequence of bytes; \<^typ>\<open>char\<close> is a byte. \<open>int\<close> is 64 bits wide in the
  builds of the program; where the width matters the wrap-around is written out by \<open>int64\<close>
  below. A \<open>time.Time\<close> is an instant in nanoseconds, a \<open>time.Duration\<close> a number of
  nanoseconds.
\<close>

type_synonym uint16 = "16 word"
type_synonym uint32 = "32 word"
type_synonym time = int
type_synonym duration = int

definition int64 :: "int \<Rightarrow> int" where
  "int64 x = (x + 2 ^ 63) mod 2 ^ 64 - 2 ^ 63"

definition second :: duration where
  "second = 1000000000"

text \<open>The zero \<open>time.Time\<close> is the first instant of the year 1.\<close>

definition zero_time :: time where
  "zero_time = - 62135596800 * second"

lemma int64_id: "- (2 ^ 63) \<le> x \<Longrightarrow> x < 2 ^ 63 \<Longrightarrow> int64 x = x"
  by (simp add: int64_def)

lemma int64_bounds: "- (2 ^ 63) \<le> int64 x \<and> int64 x < 2 ^ 63"
  by (simp add: int64_def)

lemma unat_uint16 [simp]: "unat (w :: uint16) < 65536"
  using unsigned_less [of w, where ?'a = nat] by simp

lemma unat_uint16_le [simp]: "unat (w :: uint16) \<le> 65535"
  using unat_uint16 [of w] by linarith

section \<open>Errors and outcomes\<close>

text \<open>
  The error values the program distinguishes: \<open>errors.New\<close>/\<open>fmt.Errorf\<close> values, \<open>db.DBError\<close>,
  \<open>routing_api.Error\<close>, gorm's \<open>ErrRecordNotFound\<close>, the sentinel errors of the event hub,
  \<open>jwt.ValidationError\<close> with its bit set of failed checks, and \<open>sse.BadResponseError\<close> with the status of
  the response.
\<close>

datatype hub_error =
    ErrReadFromClosedSource
  | ErrSendToClosedSource
  | ErrSourceAlreadyClosed
  | ErrSlowConsumer
  | ErrSubscribedToClosedHub
  | ErrHubAlreadyClosed

datatype go_error =
    ErrorString string
  | DBError string string
  | ApiError string string
  | ErrRecordNotFound
  | HubError hub_error
  | JwtValidationError uint32 string
  | BadResponseError nat string

text \<open>The texts of the errors: the results of \<open>Error()\<close>.\<close>

primrec hub_error_text :: "hub_error \<Rightarrow> string" where
  "hub_error_text ErrReadFromClosedSource = ''read from closed source''"
| "hub_error_text ErrSendToClosedSource = ''send to closed source''"
| "hub_error_text ErrSourceAlreadyClosed = ''source already closed''"
| "hub_error_text ErrSlowConsumer = ''slow consumer''"
| "hub_error_text ErrSubscribedToClosedHub = ''subscribed to closed hub''"
| "hub_error_text ErrHubAlreadyClosed = ''hub already closed''"

primrec error_text :: "go_error \<Rightarrow> string" where
  "error_text (ErrorString s) = s"
| "error_text (DBError ty msg) = msg"
| "error_text (ApiError ty msg) = msg"
| "error_text ErrRecordNotFound = ''record not found''"
| "error_text (HubError e) = hub_error_text e"
| "error_text (JwtValidationError flags msg) = msg"
| "error_text (BadResponseError code status) = ''bad response from event source: '' @ status"

text \<open>
  What a call ends with: a value, an error that the caller tests for, or a panic (a nil
  dereference, an index out of range, a failed type assertion) that unwinds every caller.
\<close>

datatype (dead 'a) go = Ok 'a | Fail go_error | Panic string

type_synonym ('d, 'a) action = "'d \<Rightarrow> 'a go \<times> 'd"

text \<open>
  \<open>bindE m f\<close> is \<open>x, err := m(); if err != nil { return err }; f(x)\<close>.
\<close>

definition returnE :: "'a \<Rightarrow> ('d, 'a) action" where
  "returnE x d = (Ok x, d)"

definition failE :: "go_error \<Rightarrow> ('d, 'a) action" where
  "failE e d = (Fail e, d)"

definition panicE :: "string \<Rightarrow> ('d, 'a) action" where
  "panicE p d = (Panic p, d)"

definition bindE :: "('d, 'a) action \<Rightarrow> ('a \<Rightarrow> ('d, 'b) action) \<Rightarrow> ('d, 'b) action" where
  "bindE m f d =
     (case m d of
        (Ok x, d') \<Rightarrow> f x d'
      | (Fail e, d') \<Rightarrow> (Fail e, d')
      | (Panic p, d') \<Rightarrow> (Panic p, d'))"

text \<open>\<open>tryE m f\<close> is \<open>x, err := m(); f(x, err)\<close>: the caller looks at the error itself.\<close>

definition tryE :: "('d, 'a) action \<Rightarrow> (go_error + 'a \<Rightarrow> ('d, 'b) action) \<Rightarrow> ('d, 'b) action" where
  "tryE m f d =
     (case m d of
        (Ok x, d') \<Rightarrow> f (Inr x) d'
      | (Fail e, d') \<Rightarrow> f (Inl e) d'
      | (Panic p, d') \<Rightarrow> (Panic p, d'))"

text \<open>A value already computed, a nil dereference, a pure computation that may fail.\<close>

definition liftE :: "'a go \<Rightarrow> ('d, 'a) action" where
  "liftE r d = (r, d)"

definition deref :: "'a option \<Rightarrow> 'a go" where
  "deref p = (case p of Some x \<Rightarrow> Ok x | None \<Rightarrow> Panic ''nil pointer dereference'')"

primrec map_go :: "('a \<Rightarrow> 'b) \<Rightarrow> 'a go \<Rightarrow> 'b go" where
  "map_go f (Ok x) = Ok (f x)"
| "map_go f (Fail e) = Fail e"
| "map_go f (Panic p) = Panic p"

primrec is_panic :: "'a go \<Rightarrow> bool" where
  "is_panic (Ok x) = False"
| "is_panic (Fail e) = False"
| "is_panic (Panic p) = True"

named_theorems action_simps \<open>evaluation of the state-passing combinators\<close>

lemma returnE_apply [action_simps, simp]: "returnE x d = (Ok x, d)"
  by (simp add: returnE_def)

lemma failE_apply [action_simps, simp]: "failE e d = (Fail e, d)"
  by (simp add: failE_def)

lemma panicE_apply [action_simps, simp]: "panicE p d = (Panic p, d)"
  by (simp add: panicE_def)

lemma liftE_apply [action_simps, simp]: "liftE r d = (r, d)"
  by (simp add: liftE_def)

lemma deref_simps [action_simps, simp]:
  "deref (Some x) = Ok x"
  "deref None = Panic ''nil pointer dereference''"
  by (simp_all add: deref_def)

lemma deref_iff [simp]:
  "deref p = Ok x \<longleftrightarrow> p = Some x"
  "deref p = Panic q \<longleftrightarrow> p = None \<and> q = ''nil pointer dereference''"
  "deref p \<noteq> Fail e"
  by (auto simp: deref_def split: option.splits)

lemma bindE_simps [action_simps]:
  "m d = (Ok x, d') \<Longrightarrow> bindE m f d = f x d'"
  "m d = (Fail e, d') \<Longrightarrow> bindE m f d = (Fail e, d')"
  "m d = (Panic p, d') \<Longrightarrow> bindE m f d = (Panic p, d')"
  by (simp_all add: bindE_def)

lemma tryE_simps [action_simps]:
  "m d = (Ok x, d') \<Longrightarrow> tryE m f d = f (Inr x) d'"
  "m d = (Fail e, d') \<Longrightarrow> tryE m f d = f (Inl e) d'"
  "m d = (Panic p, d') \<Longrightarrow> tryE m f d = (Panic p, d')"
  by (simp_all add: tryE_def)

lemma bindE_unit:
  "bindE m (\<lambda>_. returnE ()) d = (map_go (\<lambda>_. ()) (fst (m d)), snd (m d))"
  by (cases "m d"; cases "fst (m d)") (auto simp: bindE_def)

lemma bindE_OkD:
  assumes "bindE m f d = (Ok y, d'')"
  obtains x d' where "m d = (Ok x, d')" and "f x d' = (Ok y, d'')"
  using assms by (auto simp: bindE_def split: prod.splits go.splits)

text \<open>
  An invariant of the state that every step of a composed action keeps is kept by the whole
  action, whatever it ends with.
\<close>

definition keeps :: "('d \<Rightarrow> bool) \<Rightarrow> ('d, 'a) action \<Rightarrow> bool" where
  "keeps I m \<longleftrightarrow> (\<forall>d r d'. I d \<longrightarrow> m d = (r, d') \<longrightarrow> I d')"

named_theorems keeps_intros \<open>composition rules for state invariants\<close>

lemma keepsI: "(\<And>d r d'. I d \<Longrightarrow> m d = (r, d') \<Longrightarrow> I d') \<Longrightarrow> keeps I m"
  by (simp add: keeps_def)

lemma keepsD: "keeps I m \<Longrightarrow> I d \<Longrightarrow> m d = (r, d') \<Longrightarrow> I d'"
  by (simp add: keeps_def)

lemma keeps_snd: "keeps I m \<Longrightarrow> I d \<Longrightarrow> I (snd (m d))"
  using keepsD [of I m d "fst (m d)" "snd (m d)"] by simp

lemma keeps_return [keeps_intros]:
  "keeps I (returnE x)" "keeps I (failE e)" "keeps I (panicE p)" "keeps I (liftE r)"
  by (simp_all add: keeps_def)

lemma keeps_bindE [keeps_intros]:
  assumes "keeps I m" and "\<And>x. keeps I (f x)"
  shows "keeps I (bindE m f)"
proof (rule keepsI)
  fix d r d'
  assume "I d" and eq: "bindE m f d = (r, d')"
  obtain q e where m: "m d = (q, e)" by (cases "m d")
  with assms(1) \<open>I d\<close> have "I e" by (rule keepsD)
  with eq m show "I d'"
    by (cases q) (auto simp: bindE_def dest: keepsD [OF assms(2)])
qed

lemma keeps_tryE [keeps_intros]:
  assumes "keeps I m" and "\<And>x. keeps I (f x)"
  shows "keeps I (tryE m f)"
proof (rule keepsI)
  fix d r d'
  assume "I d" and eq: "tryE m f d = (r, d')"
  obtain q e where m: "m d = (q, e)" by (cases "m d")
  with assms(1) \<open>I d\<close> have "I e" by (rule keepsD)
  with eq m show "I d'"
    by (cases q) (auto simp: tryE_def dest: keepsD [OF assms(2)])
qed

lemma keeps_if [keeps_intros]:
  assumes "b \<Longrightarrow> keeps I m" and "\<not> b \<Longrightarrow> keeps I m'"
  shows "keeps I (if b then m else m')"
  using assms by simp

text \<open>Loops over a slice: \<open>for _, x := range xs { ... }\<close> with an early return on error.\<close>

primrec forE :: "('a \<Rightarrow> ('d, unit) action) \<Rightarrow> 'a list \<Rightarrow> ('d, unit) action" where
  "forE f [] = returnE ()"
| "forE f (x # xs) = bindE (f x) (\<lambda>_. forE f xs)"

lemma keeps_forE [keeps_intros]:
  assumes "\<And>x. x \<in> set xs \<Longrightarrow> keeps I (f x)"
  shows "keeps I (forE f xs)"
  using assms by (induction xs) (simp_all add: keeps_return keeps_bindE)

section \<open>Parts of a state, and the outside world\<close>

text \<open>
  \<open>zoom get upd m\<close> runs \<open>m\<close> on the part of the state that \<open>get\<close> reads and \<open>upd\<close> writes (the
  selector and the update function of a record field).
\<close>

definition zoom ::
    "('d \<Rightarrow> 'e) \<Rightarrow> (('e \<Rightarrow> 'e) \<Rightarrow> 'd \<Rightarrow> 'd) \<Rightarrow> ('e, 'a) action \<Rightarrow> ('d, 'a) action" where
  "zoom get upd m d = (case m (get d) of (r, e) \<Rightarrow> (r, upd (\<lambda>_. e) d))"

lemma zoom_apply [action_simps]:
  "m (get d) = (r, e) \<Longrightarrow> zoom get upd m d = (r, upd (\<lambda>_. e) d)"
  by (simp add: zoom_def)

lemma keeps_zoom:
  assumes "\<And>d r e. I d \<Longrightarrow> m (get d) = (r, e) \<Longrightarrow> I (upd (\<lambda>_. e) d)"
  shows "keeps I (zoom get upd m)"
  using assms by (intro keepsI) (auto simp: zoom_def split: prod.splits)

text \<open>Reading and changing the state without a chance of failure.\<close>

definition getE :: "('d \<Rightarrow> 'a) \<Rightarrow> ('d, 'a) action" where
  "getE f d = (Ok (f d), d)"

definition modifyE :: "('d \<Rightarrow> 'd) \<Rightarrow> ('d, unit) action" where
  "modifyE f d = (Ok (), f d)"

lemma getE_apply [action_simps, simp]: "getE f d = (Ok (f d), d)"
  by (simp add: getE_def)

lemma modifyE_apply [action_simps, simp]: "modifyE f d = (Ok (), f d)"
  by (simp add: modifyE_def)

lemma bindE_const [simp]:
  "bindE (getE g) f d = f (g d) d"
  "bindE (modifyE h) k d = k () (h d)"
  "bindE (returnE x) f = f x"
  by (simp_all add: bindE_def fun_eq_iff)

lemma keeps_getE [keeps_intros]: "keeps I (getE f)"
  by (simp add: keeps_def)

lemma keeps_modifyE: "(\<And>d. I d \<Longrightarrow> I (f d)) \<Longrightarrow> keeps I (modifyE f)"
  by (simp add: keeps_def)

text \<open>
  The clock and the random source. \<open>time.Now()\<close> reads the clock once, \<open>uuid.NewV4()\<close> draws one
  identifier or fails; the readings and draws a run makes are the values of two functions of a
  counter, so that a run is determined by its starting state.
\<close>

record world =
  clock :: "nat \<Rightarrow> time"
  ticks :: nat
  uuids :: "nat \<Rightarrow> go_error + string"
  draws :: nat

definition time_Now :: "(world, time) action" where
  "time_Now w = (Ok (clock w (ticks w)), w\<lparr>ticks := Suc (ticks w)\<rparr>)"

definition uuid_NewV4 :: "(world, string) action" where
  "uuid_NewV4 w =
     ((case uuids w (draws w) of Inl e \<Rightarrow> Fail e | Inr g \<Rightarrow> Ok g), w\<lparr>draws := Suc (draws w)\<rparr>)"

text \<open>Identifiers are never empty.\<close>

definition good_uuids :: "world \<Rightarrow> bool" where
  "good_uuids w \<longleftrightarrow> (\<forall>n g. uuids w n = Inr g \<longrightarrow> g \<noteq> [])"

text \<open>\<open>time.Duration(n) * time.Second\<close>, a product of 64-bit integers.\<close>

definition seconds :: "int \<Rightarrow> duration" where
  "seconds n = int64 (n * second)"

lemma seconds_exact: "\<bar>n\<bar> \<le> 9223372036 \<Longrightarrow> seconds n = n * 1000000000"
  by (simp add: seconds_def second_def int64_id)

end
