(* ===== verification/Go_Strings.thy ===== *)
theory Go_Strings
  imports Prelude
begin

text \<open>
  The functions of Go's \<open>strconv\<close>, \<open>strings\<close> and \<open>fmt\<close> packages that the program calls, as
  executable functions on byte strings, and the facts about them that the parsers and printers of
  the components need: decimal printing and parsing are inverse, and so are splitting and joining.
\<close>

section \<open>Decimal numbers\<close>

definition is_digit :: "char \<Rightarrow> bool" where
  "is_digit c \<longleftrightarrow> 48 \<le> (of_char c :: nat) \<and> (of_char c :: nat) \<le> 57"

definition digit_value :: "char \<Rightarrow> nat" where
  "digit_value c = of_char c - 48"

definition digit_char :: "nat \<Rightarrow> char" where
  "digit_char d = char_of (48 + d)"

fun nat_digits :: "nat \<Rightarrow> string" where
  "nat_digits n = (if n < 10 then [digit_char n] else nat_digits (n div 10) @ [digit_char (n mod 10)])"

declare nat_digits.simps [simp del]

text \<open>\<open>strconv.Itoa\<close>, and \<open>%d\<close> of \<open>fmt.Sprintf\<close>.\<close>

definition Itoa :: "int \<Rightarrow> string" where
  "Itoa n = (if n < 0 then CHR ''-'' # nat_digits (nat (- n)) else nat_digits (nat n))"

definition utoa :: "'w::len word \<Rightarrow> string" where
  "utoa w = nat_digits (unat w)"

definition digits_value :: "string \<Rightarrow> nat" where
  "digits_value s = foldl (\<lambda>n c. 10 * n + digit_value c) 0 s"

text \<open>
  \<open>strconv.ParseUint(s, 10, 16)\<close>: the empty string, a byte that is not a decimal digit (a sign, a
  space, an underscore) and a value above 65535 are errors; the callers only test for an error.
\<close>

definition ParseUint16 :: "string \<Rightarrow> uint16 option" where
  "ParseUint16 s =
     (if s = [] \<or> \<not> list_all is_digit s then None
      else if digits_value s > 65535 then None
      else Some (word_of_nat (digits_value s)))"

text \<open>\<open>strconv.Atoi\<close>: an optional sign and decimal digits, in the range of a 64-bit integer.\<close>

definition Atoi :: "string \<Rightarrow> int option" where
  "Atoi s =
     (let neg = (s \<noteq> [] \<and> hd s = CHR ''-'');
          ds = (if s \<noteq> [] \<and> (hd s = CHR ''-'' \<or> hd s = CHR ''+'') then tl s else s);
          v = (if neg then - int (digits_value ds) else int (digits_value ds))
      in if ds = [] \<or> \<not> list_all is_digit ds then None
         else if v < - (2 ^ 63) \<or> 2 ^ 63 \<le> v then None
         else Some v)"

lemma digit_char_value [simp]: "d < 10 \<Longrightarrow> digit_value (digit_char d) = d"
  by (simp add: digit_value_def digit_char_def)

lemma is_digit_digit_char [simp]: "d < 10 \<Longrightarrow> is_digit (digit_char d)"
  by (simp add: is_digit_def digit_char_def)

lemma digits_value_snoc [simp]: "digits_value (s @ [c]) = 10 * digits_value s + digit_value c"
  by (simp add: digits_value_def)

lemma digits_value_single [simp]: "digits_value [c] = digit_value c"
  by (simp add: digits_value_def)

lemma nat_digits_all_digits: "list_all is_digit (nat_digits n)"
proof (induction n rule: nat_digits.induct)
  case (1 n)
  then show ?case
    by (cases "n < 10") (simp_all add: nat_digits.simps [of n])
qed

lemma nat_digits_nonempty [simp]: "nat_digits n \<noteq> []"
  by (simp add: nat_digits.simps [of n])

lemma digits_value_nat_digits [simp]: "digits_value (nat_digits n) = n"
proof (induction n rule: nat_digits.induct)
  case (1 n)
  then show ?case
    by (cases "n < 10") (simp_all add: nat_digits.simps [of n])
qed

lemma nat_digits_inj: "nat_digits m = nat_digits n \<longleftrightarrow> m = n"
  by (metis digits_value_nat_digits)

lemma is_digit_nonsep:
  "is_digit c \<Longrightarrow> c \<noteq> CHR ''-'' \<and> c \<noteq> CHR ''+'' \<and> c \<noteq> CHR '','' \<and> c \<noteq> CHR '' ''"
  by (auto simp: is_digit_def)

lemma nat_digits_no_sep:
  "CHR ''-'' \<notin> set (nat_digits n)" "CHR '','' \<notin> set (nat_digits n)"
  using nat_digits_all_digits [of n] is_digit_nonsep by (auto simp: list_all_iff)

text \<open>Printing a port and parsing it again gives the port.\<close>

lemma ParseUint16_utoa [simp]: "ParseUint16 (utoa (w :: uint16)) = Some w"
  using unat_uint16_le [of w] by (simp add: ParseUint16_def utoa_def nat_digits_all_digits not_less)

lemma ParseUint16_value:
  "ParseUint16 s = Some w \<Longrightarrow> unat w = digits_value s"
  by (auto simp: ParseUint16_def unat_of_nat split: if_splits)

lemma ParseUint16_no_sep:
  assumes "ParseUint16 s = Some w"
  shows "CHR ''-'' \<notin> set s" and "CHR '','' \<notin> set s" and "s \<noteq> []"
  using assms is_digit_nonsep by (auto simp: ParseUint16_def list_all_iff split: if_splits)

lemma Atoi_utoa: "Atoi (utoa (w :: uint16)) = Some (uint w)"
proof -
  let ?s = "nat_digits (unat w)"
  have b: "- 9223372036854775808 \<le> uint w" "uint w < 9223372036854775808"
    using uint_bounded [of w, simplified] uint_ge_0 [of w] by linarith+
  have "?s \<noteq> []" by simp
  then obtain c cs where s: "?s = c # cs" by (cases ?s) auto
  then have "is_digit c"
    using nat_digits_all_digits [of "unat w"] by simp
  then have "c \<noteq> CHR ''-''" and "c \<noteq> CHR ''+''"
    using is_digit_nonsep by blast+
  moreover have "digits_value (c # cs) = unat w" and "list_all is_digit (c # cs)"
    using digits_value_nat_digits [of "unat w"] nat_digits_all_digits [of "unat w"] s by simp_all
  ultimately show ?thesis
    using b by (simp add: Atoi_def utoa_def s Let_def not_less)
qed

section \<open>Splitting and joining\<close>

text \<open>\<open>strings.Split\<close> with a separator of one byte, \<open>strings.Join\<close>.\<close>

fun Split :: "string \<Rightarrow> char \<Rightarrow> string list" where
  "Split [] c = [[]]"
| "Split (x # xs) c =
     (if x = c then [] # Split xs c
      else (case Split xs c of [] \<Rightarrow> [[x]] | p # ps \<Rightarrow> (x # p) # ps))"

fun Join :: "string list \<Rightarrow> string \<Rightarrow> string" where
  "Join [] sep = []"
| "Join [p] sep = p"
| "Join (p # q # ps) sep = p @ sep @ Join (q # ps) sep"

lemma Split_nonempty [simp]: "Split s c \<noteq> []"
  by (induction s) (auto split: list.splits)

lemma Split_no_sep: "c \<notin> set s \<Longrightarrow> Split s c = [s]"
  by (induction s) auto

lemma Split_append: "c \<notin> set p \<Longrightarrow> Split (p @ c # s) c = p # Split s c"
  by (induction p) auto

lemma Split_pieces: "p \<in> set (Split s c) \<Longrightarrow> c \<notin> set p"
proof (induction s arbitrary: p)
  case (Cons x xs)
  then show ?case by (cases "Split xs c") (auto split: if_splits)
qed simp

lemma Split_subset: "p \<in> set (Split s c) \<Longrightarrow> set p \<subseteq> set s"
proof (induction s arbitrary: p)
  case (Cons x xs)
  then show ?case by (cases "Split xs c") (fastforce split: if_splits)+
qed simp

lemma Join_Cons: "ps \<noteq> [] \<Longrightarrow> Join (p # ps) sep = p @ sep @ Join ps sep"
  by (cases ps) auto

lemma Join_Split: "Join (Split s c) [c] = s"
proof (induction s)
  case (Cons x xs)
  then show ?case
    by (cases "Split xs c"; cases "tl (Split xs c)") (auto simp: Join_Cons)
qed simp

lemma Split_eqD:
  "Split s c = [p] \<Longrightarrow> s = p"
  "Split s c = [p, q] \<Longrightarrow> s = p @ c # q"
  using Join_Split [of s c] by auto

lemma Split_Join:
  "ps \<noteq> [] \<Longrightarrow> (\<And>p. p \<in> set ps \<Longrightarrow> c \<notin> set p) \<Longrightarrow> Split (Join ps [c]) c = ps"
proof (induction ps)
  case (Cons p ps)
  then show ?case
    by (cases "ps = []") (auto simp: Join_Cons Split_append Split_no_sep)
qed simp

text \<open>
  \<open>strings.ContainsAny\<close>, \<open>strings.HasPrefix\<close>, and \<open>strings.EqualFold\<close> against an ASCII word: the
  words the program compares with contain no letter with a non-ASCII fold, so two strings are
  equal under case folding exactly if they agree after lowering the ASCII capitals.
\<close>

definition ContainsAny :: "string \<Rightarrow> string \<Rightarrow> bool" where
  "ContainsAny s chars \<longleftrightarrow> list_ex (\<lambda>c. c \<in> set chars) s"

fun HasPrefix :: "string \<Rightarrow> string \<Rightarrow> bool" where
  "HasPrefix s [] = True"
| "HasPrefix [] (p # ps) = False"
| "HasPrefix (x # xs) (p # ps) = (x = p \<and> HasPrefix xs ps)"

definition lower_ascii :: "char \<Rightarrow> char" where
  "lower_ascii c =
     (let n = (of_char c :: nat) in if 65 \<le> n \<and> n \<le> 90 then char_of (n + 32) else c)"

definition EqualFold :: "string \<Rightarrow> string \<Rightarrow> bool" where
  "EqualFold s t \<longleftrightarrow> map lower_ascii s = map lower_ascii t"

lemma HasPrefix_append: "HasPrefix (p @ s) p"
  by (induction p) auto

lemma HasPrefix_iff: "HasPrefix s p \<longleftrightarrow> (\<exists>t. s = p @ t)"
  by (induction s p rule: HasPrefix.induct) auto

text \<open>\<open>%t\<close> of \<open>fmt.Sprintf\<close>, and \<open>%v\<close> of a slice of ports.\<close>

definition format_bool :: "bool \<Rightarrow> string" where
  "format_bool b = (if b then ''true'' else ''false'')"

definition format_ports :: "uint16 list \<Rightarrow> string" where
  "format_ports ps = ''['' @ Join (map utoa ps) '' '' @ '']''"

end
