(* ===== verification/Models.thy ===== *)
theory Models
  imports Go_Strings
begin

text \<open>
  The data of the routing table, from \<open>models/model.go\<close>, \<open>models/route.go\<close> and
  \<open>models/tcp_route.go\<close>: HTTP routes, TCP route mappings and the modification tags that order
  their versions, with the operations the models declare. An embedded struct is a field that
  holds its record; a pointer field is an \<open>option\<close>.
\<close>

section \<open>Structs\<close>

record Model =
  mGuid :: string
  mCreatedAt :: time
  mUpdatedAt :: time

record ModificationTag =
  tagGuid :: string
  tagIndex :: uint32

record RouteEntity =
  reRoute :: string
  rePort :: uint16
  reIP :: string
  reTTL :: "int option"
  reLogGuid :: string
  reRouteServiceUrl :: string
  reModificationTag :: ModificationTag

record Route =
  rModel :: Model
  rExpiresAt :: time
  rEntity :: RouteEntity

record TcpMappingEntity =
  teRouterGroupGuid :: string
  teHostPort :: uint16
  teHostTLSPort :: int
  teHostIP :: string
  teSniHostname :: "string option"
  teSniRewriteHostname :: "string option"
  teInstanceId :: string
  teExternalPort :: uint16
  teModificationTag :: ModificationTag
  teTTL :: "int option"
  teIsolationSegment :: string
  teTerminateFrontendTLS :: bool
  teALPNs :: string
  teEnableBackendMTLS :: bool

record TcpRouteMapping =
  tModel :: Model
  tExpiresAt :: time
  tEntity :: TcpMappingEntity

text \<open>The zero values, against which the program compares to see whether a row was found.\<close>

definition zero_Model :: Model where
  "zero_Model = \<lparr>mGuid = [], mCreatedAt = zero_time, mUpdatedAt = zero_time\<rparr>"

definition zero_ModificationTag :: ModificationTag where
  "zero_ModificationTag = \<lparr>tagGuid = [], tagIndex = 0\<rparr>"

definition zero_RouteEntity :: RouteEntity where
  "zero_RouteEntity =
     \<lparr>reRoute = [], rePort = 0, reIP = [], reTTL = None, reLogGuid = [], reRouteServiceUrl = [],
      reModificationTag = zero_ModificationTag\<rparr>"

definition zero_Route :: Route where
  "zero_Route = \<lparr>rModel = zero_Model, rExpiresAt = zero_time, rEntity = zero_RouteEntity\<rparr>"

definition zero_TcpMappingEntity :: TcpMappingEntity where
  "zero_TcpMappingEntity =
     \<lparr>teRouterGroupGuid = [], teHostPort = 0, teHostTLSPort = 0, teHostIP = [],
      teSniHostname = None, teSniRewriteHostname = None, teInstanceId = [], teExternalPort = 0,
      teModificationTag = zero_ModificationTag, teTTL = None, teIsolationSegment = [],
      teTerminateFrontendTLS = False, teALPNs = [], teEnableBackendMTLS = False\<rparr>"

definition zero_TcpRouteMapping :: TcpRouteMapping where
  "zero_TcpRouteMapping =
     \<lparr>tModel = zero_Model, tExpiresAt = zero_time, tEntity = zero_TcpMappingEntity\<rparr>"

section \<open>HTTP routes\<close>

definition NewRouteWithModel :: "Route \<Rightarrow> (world, Route) action" where
  "NewRouteWithModel route =
     bindE uuid_NewV4 (\<lambda>guid.
     bindE time_Now (\<lambda>now.
     bindE (liftE (deref (reTTL (rEntity route)))) (\<lambda>ttl.
     returnE \<lparr>rModel = zero_Model\<lparr>mGuid := guid\<rparr>,
              rExpiresAt = now + seconds ttl,
              rEntity = rEntity route\<rparr>)))"

definition NewRoute ::
    "string \<Rightarrow> uint16 \<Rightarrow> string \<Rightarrow> string \<Rightarrow> string \<Rightarrow> int \<Rightarrow> Route" where
  "NewRoute url port ip logGuid routeServiceUrl ttl =
     zero_Route\<lparr>rEntity := zero_RouteEntity
       \<lparr>reRoute := url, rePort := port, reIP := ip, reTTL := Some ttl, reLogGuid := logGuid,
        reRouteServiceUrl := routeServiceUrl\<rparr>\<rparr>"

definition NewModificationTag :: "(world, ModificationTag) action" where
  "NewModificationTag =
     bindE uuid_NewV4 (\<lambda>uuid. returnE \<lparr>tagGuid = uuid, tagIndex = 0\<rparr>)"

definition Increment :: "ModificationTag \<Rightarrow> ModificationTag" where
  "Increment t = t\<lparr>tagIndex := tagIndex t + 1\<rparr>"

text \<open>The receiver may be nil.\<close>

definition SucceededBy :: "ModificationTag option \<Rightarrow> ModificationTag \<Rightarrow> bool" where
  "SucceededBy m other =
     (case m of
        None \<Rightarrow> True
      | Some t \<Rightarrow>
          if tagGuid t = [] \<or> tagGuid other = [] then True
          else tagGuid t \<noteq> tagGuid other \<or> tagIndex t < tagIndex other)"

definition GetTTL :: "Route \<Rightarrow> int" where
  "GetTTL r = (case reTTL (rEntity r) of None \<Rightarrow> 0 | Some ttl \<Rightarrow> ttl)"

definition Route_SetDefaults :: "int \<Rightarrow> Route \<Rightarrow> Route" where
  "Route_SetDefaults defaultTTL r =
     (if reTTL (rEntity r) = None then r\<lparr>rEntity := (rEntity r)\<lparr>reTTL := Some defaultTTL\<rparr>\<rparr> else r)"

section \<open>TCP route mappings\<close>

definition NewTcpRouteMappingWithModel :: "TcpRouteMapping \<Rightarrow> (world, TcpRouteMapping) action" where
  "NewTcpRouteMappingWithModel tcpMapping =
     bindE uuid_NewV4 (\<lambda>guid.
     bindE time_Now (\<lambda>now.
     bindE (liftE (deref (teTTL (tEntity tcpMapping)))) (\<lambda>ttl.
     returnE \<lparr>tModel = zero_Model\<lparr>mGuid := guid\<rparr>,
              tExpiresAt = now + seconds ttl,
              tEntity = tEntity tcpMapping\<rparr>)))"

definition NewTcpRouteMapping ::
    "string \<Rightarrow> uint16 \<Rightarrow> string \<Rightarrow> uint16 \<Rightarrow> int \<Rightarrow> string \<Rightarrow> string option \<Rightarrow> string option \<Rightarrow> int
     \<Rightarrow> ModificationTag \<Rightarrow> bool \<Rightarrow> string \<Rightarrow> TcpRouteMapping" where
  "NewTcpRouteMapping routerGroupGuid externalPort hostIP hostPort hostTlsPort instanceId
      sniHostname sniRewriteHostname ttl modTag terminateFrontendTLS alpns =
     zero_TcpRouteMapping\<lparr>tEntity := zero_TcpMappingEntity
       \<lparr>teRouterGroupGuid := routerGroupGuid, teExternalPort := externalPort,
        teSniHostname := sniHostname, teSniRewriteHostname := sniRewriteHostname,
        teInstanceId := instanceId, teHostPort := hostPort, teHostTLSPort := hostTlsPort,
        teHostIP := hostIP, teTTL := Some ttl, teModificationTag := modTag,
        teTerminateFrontendTLS := terminateFrontendTLS, teALPNs := alpns\<rparr>\<rparr>"

text \<open>\<open>fmt.Sprintf("%s:%d<->%s:%d", ...)\<close>.\<close>

definition TcpRouteMapping_String :: "TcpRouteMapping \<Rightarrow> string" where
  "TcpRouteMapping_String m =
     teRouterGroupGuid (tEntity m) @ '':'' @ utoa (teExternalPort (tEntity m)) @ ''<->'' @
     teHostIP (tEntity m) @ '':'' @ utoa (teHostPort (tEntity m))"

text \<open>
  \<open>Matches\<close> also compares the two pointer fields by address; \<open>ttlPtr\<close> and \<open>sniPtr\<close> are the outcomes
  of these two comparisons, which the values do not determine.
\<close>

definition Matches :: "bool \<Rightarrow> bool \<Rightarrow> TcpRouteMapping \<Rightarrow> TcpRouteMapping \<Rightarrow> bool" where
  "Matches ttlPtr sniPtr m other =
     (let a = tEntity m; b = tEntity other;
          nilTTL = (teTTL a = None \<and> teTTL b = None);
          sameTTLValue = (teTTL a \<noteq> None \<and> teTTL b \<noteq> None \<and> the (teTTL a) = the (teTTL b));
          sameTTL = (nilTTL \<or> ttlPtr \<or> sameTTLValue);
          nilSniHostname = (teSniHostname a = None \<and> teSniHostname b = None);
          sameSniHostnameValue =
            (teSniHostname a \<noteq> None \<and> teSniHostname b \<noteq> None \<and>
             the (teSniHostname a) = the (teSniHostname b));
          sameSniHostname = (nilSniHostname \<or> sniPtr \<or> sameSniHostnameValue)
      in teRouterGroupGuid a = teRouterGroupGuid b \<and>
         teExternalPort a = teExternalPort b \<and>
         teHostIP a = teHostIP b \<and>
         teHostPort a = teHostPort b \<and>
         teInstanceId a = teInstanceId b \<and>
         sameTTL \<and>
         teHostTLSPort a = teHostTLSPort b \<and>
         sameSniHostname)"

definition Tcp_SetDefaults :: "int \<Rightarrow> TcpRouteMapping \<Rightarrow> TcpRouteMapping" where
  "Tcp_SetDefaults maxTTL t =
     (if teTTL (tEntity t) = None then t\<lparr>tEntity := (tEntity t)\<lparr>teTTL := Some maxTTL\<rparr>\<rparr> else t)"

section \<open>Facts about the models\<close>

lemma zoom_world_simps [action_simps]:
  "time_Now w = (Ok (clock w (ticks w)), w\<lparr>ticks := Suc (ticks w)\<rparr>)"
  "uuids w (draws w) = Inr g \<Longrightarrow> uuid_NewV4 w = (Ok g, w\<lparr>draws := Suc (draws w)\<rparr>)"
  "uuids w (draws w) = Inl e \<Longrightarrow> uuid_NewV4 w = (Fail e, w\<lparr>draws := Suc (draws w)\<rparr>)"
  by (simp_all add: time_Now_def uuid_NewV4_def)

lemma Route_SetDefaults_TTL [simp]: "reTTL (rEntity (Route_SetDefaults n r)) \<noteq> None"
  by (simp add: Route_SetDefaults_def)

lemma Tcp_SetDefaults_TTL [simp]: "teTTL (tEntity (Tcp_SetDefaults n t)) \<noteq> None"
  by (simp add: Tcp_SetDefaults_def)

lemma NewRouteWithModel_Ok:
  assumes "NewRouteWithModel route w = (Ok r, w')"
  shows "uuids w (draws w) = Inr (mGuid (rModel r))"
    and "rEntity r = rEntity route"
    and "reTTL (rEntity route) = Some ttl \<Longrightarrow> rExpiresAt r = clock w (ticks w) + seconds ttl"
    and "reTTL (rEntity route) \<noteq> None"
  using assms
  by (auto simp: NewRouteWithModel_def bindE_def time_Now_def uuid_NewV4_def
      split: sum.splits go.splits option.splits prod.splits)

lemma NewRouteWithModel_no_panic:
  "reTTL (rEntity route) \<noteq> None \<Longrightarrow> NewRouteWithModel route w \<noteq> (Panic p, w')"
  by (auto simp: NewRouteWithModel_def bindE_def time_Now_def uuid_NewV4_def
      split: sum.splits go.splits option.splits prod.splits)

lemma NewTcpRouteMappingWithModel_Ok:
  assumes "NewTcpRouteMappingWithModel m w = (Ok t, w')"
  shows "uuids w (draws w) = Inr (mGuid (tModel t))"
    and "tEntity t = tEntity m"
    and "teTTL (tEntity m) = Some ttl \<Longrightarrow> tExpiresAt t = clock w (ticks w) + seconds ttl"
    and "teTTL (tEntity m) \<noteq> None"
  using assms
  by (auto simp: NewTcpRouteMappingWithModel_def bindE_def time_Now_def uuid_NewV4_def
      split: sum.splits go.splits option.splits prod.splits)

lemma NewTcpRouteMappingWithModel_no_panic:
  "teTTL (tEntity m) \<noteq> None \<Longrightarrow> NewTcpRouteMappingWithModel m w \<noteq> (Panic p, w')"
  by (auto simp: NewTcpRouteMappingWithModel_def bindE_def time_Now_def uuid_NewV4_def
      split: sum.splits go.splits option.splits prod.splits)

text \<open>
  The versions of one route object are the tags with its (non-empty) identifier. On them
  \<open>SucceededBy\<close> is the order of the indices.
\<close>

definition same_object :: "ModificationTag \<Rightarrow> ModificationTag \<Rightarrow> bool" where
  "same_object a b \<longleftrightarrow> tagGuid a \<noteq> [] \<and> tagGuid a = tagGuid b"

lemma SucceededBy_same_object:
  "same_object a b \<Longrightarrow> SucceededBy (Some a) b \<longleftrightarrow> tagIndex a < tagIndex b"
  by (auto simp: same_object_def SucceededBy_def)

lemma SucceededBy_other_object:
  "tagGuid a \<noteq> tagGuid b \<Longrightarrow> SucceededBy (Some a) b"
  by (simp add: SucceededBy_def)

lemma Increment_same_object [simp]: "same_object t (Increment t) \<longleftrightarrow> tagGuid t \<noteq> []"
  by (simp add: same_object_def Increment_def)

lemma word_less_plus_one: "(w :: 'w::len word) < w + 1 \<longleftrightarrow> w \<noteq> - 1"
  using inc_less_eq_self_iff_eq not_less by blast

lemma tagGuid_increments [simp]: "tagGuid ((Increment ^^ n) t) = tagGuid t"
  by (induction n) (simp_all add: Increment_def)

lemma tagIndex_increments: "tagIndex ((Increment ^^ n) t) = tagIndex t + of_nat n"
  by (induction n) (simp_all add: Increment_def algebra_simps)

lemma unat_plus_of_nat:
  fixes w :: uint32
  assumes "unat w + n < 2 ^ 32"
  shows "unat (w + of_nat n) = unat w + n"
proof -
  have "unat (of_nat n :: uint32) = n"
    using assms by (simp add: unat_of_nat)
  with assms show ?thesis
    by (simp add: unat_word_ariths)
qed

text \<open>
  (C38) The modification tags of one route are ordered by its updates: \<open>n\<close> updates give a tag that
  succeeds the first one and is not succeeded by it, as long as the 32-bit index does not wrap; the
  update that wraps it gives a tag that does not succeed the one before.
\<close>

theorem modification_tags_ordered:
  assumes "tagGuid t \<noteq> []" and "0 < n" and "unat (tagIndex t) + n < 2 ^ 32"
    and "tagGuid u \<noteq> []" and "tagIndex u = 2 ^ 32 - 1"
  shows "SucceededBy (Some t) ((Increment ^^ n) t) \<and> \<not> SucceededBy (Some ((Increment ^^ n) t)) t \<and>
    \<not> SucceededBy (Some u) (Increment u)"
proof -
  have "tagIndex t < tagIndex ((Increment ^^ n) t)"
    using assms(2,3) by (simp add: tagIndex_increments word_less_nat_alt unat_plus_of_nat)
  with assms show ?thesis
    by (simp add: SucceededBy_def Increment_def)
qed

theorem modification_tags_ordered_witness:
  "SucceededBy (Some \<lparr>tagGuid = ''a'', tagIndex = 4\<rparr>) ((Increment ^^ 3) \<lparr>tagGuid = ''a'', tagIndex = 4\<rparr>) \<and>
   \<not> SucceededBy (Some \<lparr>tagGuid = ''a'', tagIndex = 2 ^ 32 - 1\<rparr>)
       (Increment \<lparr>tagGuid = ''a'', tagIndex = 2 ^ 32 - 1\<rparr>)"
  using modification_tags_ordered [of "\<lparr>tagGuid = ''a'', tagIndex = 4\<rparr>" 3
      "\<lparr>tagGuid = ''a'', tagIndex = 2 ^ 32 - 1\<rparr>"]
  by simp

end
