(* ===== verification/Router_Groups.thy ===== *)
theory Router_Groups
  imports Models
begin

text \<open>
  Router groups and their reservable ports, from \<open>models/router_groups.go\<close>: the port ranges, their
  parser, the overlap test and the validation of a router group, and the conversions between the
  API's and the database's representation. A section has the overlap test of
  \<open>migration/v6/router_groups.go\<close>, which does the same arithmetic on 16 bits.
\<close>

section \<open>Structs\<close>

record RouterGroupDB =
  dbModel :: Model
  dbName :: string
  dbType :: string
  dbReservablePorts :: string

record RouterGroup =
  rgModel :: Model
  rgGuid :: string
  rgName :: string
  rgType :: string
  rgReservablePorts :: string

definition zero_RouterGroup :: RouterGroup where
  "zero_RouterGroup =
     \<lparr>rgModel = zero_Model, rgGuid = [], rgName = [], rgType = [], rgReservablePorts = []\<rparr>"

definition zero_RouterGroupDB :: RouterGroupDB where
  "zero_RouterGroupDB =
     \<lparr>dbModel = zero_Model, dbName = [], dbType = [], dbReservablePorts = []\<rparr>"

definition RouterGroup_TCP :: string where "RouterGroup_TCP = ''tcp''"

definition RouterGroup_HTTP :: string where "RouterGroup_HTTP = ''http''"

definition NewRouterGroupDB :: "RouterGroup \<Rightarrow> RouterGroupDB" where
  "NewRouterGroupDB routerGroup =
     (let model = (if mGuid (rgModel routerGroup) = []
                   then zero_Model\<lparr>mGuid := rgGuid routerGroup\<rparr> else rgModel routerGroup)
      in \<lparr>dbModel = model, dbName = rgName routerGroup, dbType = rgType routerGroup,
          dbReservablePorts = rgReservablePorts routerGroup\<rparr>)"

definition ToRouterGroup :: "RouterGroupDB \<Rightarrow> RouterGroup" where
  "ToRouterGroup rg =
     \<lparr>rgModel = dbModel rg, rgGuid = mGuid (dbModel rg), rgName = dbName rg, rgType = dbType rg,
      rgReservablePorts = dbReservablePorts rg\<rparr>"

definition ToRouterGroups :: "RouterGroupDB list \<Rightarrow> RouterGroup list" where
  "ToRouterGroups rgs = map ToRouterGroup rgs"

section \<open>Port ranges\<close>

text \<open>Both ends are inclusive.\<close>

record Range =
  r_start :: uint16
  r_end :: uint16

definition ErrInvalidPort :: go_error where
  "ErrInvalidPort = ErrorString ''port must be between 1024 and 65535''"

definition portIsInRange :: "uint16 \<Rightarrow> bool" where
  "portIsInRange port \<longleftrightarrow> port \<ge> 1024"

definition NewRange :: "uint16 \<Rightarrow> uint16 \<Rightarrow> go_error + Range" where
  "NewRange start end =
     (if portIsInRange start \<and> portIsInRange end then Inr \<lparr>r_start = start, r_end = end\<rparr>
      else Inl ErrInvalidPort)"

definition Range_max :: "Range \<Rightarrow> Range \<Rightarrow> uint16" where
  "Range_max r other = (if r_end r > r_end other then r_end r else r_end other)"

definition Range_min :: "Range \<Rightarrow> Range \<Rightarrow> uint16" where
  "Range_min r other = (if r_start r < r_start other then r_start r else r_start other)"

text \<open>The differences are taken on 16 bits, converted, and added on 64 bits.\<close>

definition Overlaps :: "Range \<Rightarrow> Range \<Rightarrow> bool" where
  "Overlaps r other =
     (let maxUpper = Range_max r other; minLower = Range_min r other
      in (ucast (maxUpper - minLower) :: 64 word)
         \<le> ucast (r_end r - r_start r) + ucast (r_end other - r_start other))"

definition Range_String :: "Range \<Rightarrow> string" where
  "Range_String r =
     (if r_start r = r_end r then utoa (r_start r)
      else ''['' @ utoa (r_start r) @ ''-'' @ utoa (r_end r) @ '']'')"

definition Endpoints :: "Range \<Rightarrow> uint16 \<times> uint16" where
  "Endpoints r = (r_start r, r_end r)"

section \<open>Parsing\<close>

definition parseRange :: "string \<Rightarrow> go_error + Range" where
  "parseRange r =
     (case Split r (CHR ''-'') of
        [p] \<Rightarrow>
          (case ParseUint16 p of None \<Rightarrow> Inl ErrInvalidPort | Some n \<Rightarrow> NewRange n n)
      | [p, q] \<Rightarrow>
          (case ParseUint16 p of
             None \<Rightarrow> Inl (ErrorString (''range ('' @ r @ '') requires a starting port''))
           | Some start \<Rightarrow>
               (case ParseUint16 q of
                  None \<Rightarrow> Inl (ErrorString (''range ('' @ r @ '') requires an ending port''))
                | Some end \<Rightarrow>
                    if start > end
                    then Inl (ErrorString (''range ('' @ r @ '') must be in ascending numeric order''))
                    else NewRange start end))
      | _ \<Rightarrow> Inl (ErrorString (''range ('' @ r @ '') has too many '' @ [CHR 0x27] @ ''-'' @ [CHR 0x27] @
                              '' separators'')))"

primrec parseRanges :: "string list \<Rightarrow> go_error + Range list" where
  "parseRanges [] = Inr []"
| "parseRanges (p # ps) =
     (case parseRange p of
        Inl e \<Rightarrow> Inl e
      | Inr r \<Rightarrow> (case parseRanges ps of Inl e \<Rightarrow> Inl e | Inr rs \<Rightarrow> Inr (r # rs)))"

definition Parse :: "string \<Rightarrow> go_error + Range list" where
  "Parse p = parseRanges (Split p (CHR '',''))"

text \<open>
  \<open>UnmarshalYAML\<close> is given the decoded YAML value: an integer, a string, a sequence, or another kind
  of value.
\<close>

datatype yaml_value = YInt int | YString string | YSeq "yaml_value list" | YOther

primrec unmarshal_ports :: "yaml_value list \<Rightarrow> go_error + string list" where
  "unmarshal_ports [] = Inr []"
| "unmarshal_ports (v # vs) =
     (case v of
        YInt val \<Rightarrow>
          (case unmarshal_ports vs of Inl e \<Rightarrow> Inl e | Inr s \<Rightarrow> Inr (Itoa val # s))
      | _ \<Rightarrow> Inl (ErrorString ''invalid type for reservable port''))"

definition UnmarshalYAML :: "go_error + yaml_value \<Rightarrow> go_error + string" where
  "UnmarshalYAML input =
     (case input of
        Inl e \<Rightarrow> Inl e
      | Inr (YInt t) \<Rightarrow> Inr (Itoa t)
      | Inr (YString t) \<Rightarrow> Inr t
      | Inr (YSeq t) \<Rightarrow>
          (case unmarshal_ports t of Inl e \<Rightarrow> Inl e | Inr s \<Rightarrow> Inr (Join s '',''))
      | Inr YOther \<Rightarrow> Inl (ErrorString ''reservable port unmarshal failed''))"

section \<open>Validation\<close>

text \<open>
  The package variables \<open>ReservedSystemComponentPorts\<close> and \<open>FailOnRouterPortConflicts\<close>, which the
  configuration sets.
\<close>

record port_settings =
  ReservedSystemComponentPorts :: "uint16 list"
  FailOnRouterPortConflicts :: bool

definition default_port_settings :: port_settings where
  "default_port_settings =
     \<lparr>ReservedSystemComponentPorts = [], FailOnRouterPortConflicts = False\<rparr>"

text \<open>The first pair of distinct positions, in the order of the nested loops, that overlap.\<close>

definition first_overlap :: "Range list \<Rightarrow> (nat \<times> nat) option" where
  "first_overlap rs =
     (let is = [0..<length rs]
      in find (\<lambda>(i, j). i \<noteq> j \<and> Overlaps (rs ! i) (rs ! j)) (List.product is is))"

definition reserved_conflict :: "port_settings \<Rightarrow> Range list \<Rightarrow> bool" where
  "reserved_conflict cfg rs \<longleftrightarrow>
     list_ex (\<lambda>r1. list_ex (\<lambda>p. p \<ge> r_start r1 \<and> p \<le> r_end r1)
       (ReservedSystemComponentPorts cfg)) rs"

definition ReservablePorts_Validate :: "port_settings \<Rightarrow> string \<Rightarrow> go_error option" where
  "ReservablePorts_Validate cfg p =
     (case Parse p of
        Inl e \<Rightarrow> Some e
      | Inr portRanges \<Rightarrow>
          (case first_overlap portRanges of
             Some (i, j) \<Rightarrow>
               Some (ErrorString (''Overlapping values: '' @ Range_String (portRanges ! i) @ '' and '' @
                                  Range_String (portRanges ! j)))
           | None \<Rightarrow>
               if FailOnRouterPortConflicts cfg \<and> reserved_conflict cfg portRanges
               then Some (ErrorString (''Invalid ports. Reservable ports must not include the following reserved system component ports: '' @
                                       format_ports (ReservedSystemComponentPorts cfg) @ ''.''))
               else None))"

definition RouterGroup_Validate :: "port_settings \<Rightarrow> RouterGroup \<Rightarrow> go_error option" where
  "RouterGroup_Validate cfg g =
     (if rgName g = [] then Some (ErrorString ''missing name in router group'')
      else if rgType g = [] then Some (ErrorString ''missing type in router group'')
      else if rgReservablePorts g = [] then
        (if rgType g = RouterGroup_TCP
         then Some (ErrorString (''missing reservable_ports in router group: '' @ rgName g))
         else None)
      else if rgType g = RouterGroup_HTTP
        then Some (ErrorString ''reservable ports are not supported for router groups of type http'')
      else ReservablePorts_Validate cfg (rgReservablePorts g))"

primrec RouterGroups_Validate :: "port_settings \<Rightarrow> RouterGroup list \<Rightarrow> go_error option" where
  "RouterGroups_Validate cfg [] = None"
| "RouterGroups_Validate cfg (r # g) =
     (case RouterGroup_Validate cfg r of Some e \<Rightarrow> Some e | None \<Rightarrow> RouterGroups_Validate cfg g)"

section \<open>What the port operations compute\<close>

definition range_ports :: "Range \<Rightarrow> uint16 set" where
  "range_ports r = {p. r_start r \<le> p \<and> p \<le> r_end r}"

definition wf_range :: "Range \<Rightarrow> bool" where
  "wf_range r \<longleftrightarrow> 1024 \<le> r_start r \<and> r_start r \<le> r_end r"

lemma unat_ucast_16_64 [simp]: "unat (ucast (w :: uint16) :: 64 word) = unat w"
proof -
  have "unat w < 2 ^ 64"
    by (rule less_trans [OF unat_uint16]) simp
  then show ?thesis
    by (simp add: unsigned_ucast_eq take_bit_nat_eq_self)
qed

lemma unat_add_ucast_16_64:
  "unat ((ucast (a :: uint16) :: 64 word) + ucast (b :: uint16)) = unat a + unat b"
proof -
  have "unat a + unat b < 2 ^ 64"
    using add_strict_mono [OF unat_uint16 [of a] unat_uint16 [of b]] by simp
  then show ?thesis
    by (simp add: unat_word_ariths)
qed

text \<open>On ordered ranges the overlap test says whether the two ranges share a port.\<close>

lemma Overlaps_iff:
  assumes "r_start r \<le> r_end r" and "r_start q \<le> r_end q"
  shows "Overlaps r q \<longleftrightarrow> range_ports r \<inter> range_ports q \<noteq> {}"
proof -
  have le: "Range_min r q \<le> Range_max r q"
    using assms by (auto simp: Range_min_def Range_max_def)
  have "Overlaps r q \<longleftrightarrow>
      unat (Range_max r q) - unat (Range_min r q)
        \<le> (unat (r_end r) - unat (r_start r)) + (unat (r_end q) - unat (r_start q))"
    using assms le
    by (simp add: Overlaps_def Let_def word_le_nat_alt unat_add_ucast_16_64 unat_sub)
  also have "\<dots> \<longleftrightarrow> max (r_start r) (r_start q) \<le> min (r_end r) (r_end q)"
    using assms
    by (auto simp: Range_min_def Range_max_def word_le_nat_alt word_less_nat_alt max_def min_def)
  also have "\<dots> \<longleftrightarrow> range_ports r \<inter> range_ports q \<noteq> {}"
    by (auto simp: range_ports_def max_def min_def split: if_splits)
  finally show ?thesis .
qed

lemma Overlaps_commute: "Overlaps r q \<longleftrightarrow> Overlaps q r"
  by (auto simp: Overlaps_def Range_min_def Range_max_def Let_def add.commute)

lemma NewRange_Inr [simp]:
  "NewRange a b = Inr r \<longleftrightarrow> r = \<lparr>r_start = a, r_end = b\<rparr> \<and> 1024 \<le> a \<and> 1024 \<le> b"
  by (auto simp: NewRange_def portIsInRange_def)

text \<open>The texts \<open>parseRange\<close> accepts: one port, or two ascending ports with a dash between them.\<close>

lemma parseRange_Inr_iff:
  "parseRange s = Inr r \<longleftrightarrow>
     wf_range r \<and>
     (ParseUint16 s = Some (r_start r) \<and> r_end r = r_start r \<or>
      (\<exists>p q. s = p @ ''-'' @ q \<and> ParseUint16 p = Some (r_start r) \<and>
         ParseUint16 q = Some (r_end r)))" (is "?L \<longleftrightarrow> ?R")
proof
  assume ?L
  then show ?R
    by (fastforce simp: parseRange_def wf_range_def split: list.splits option.splits if_splits
        dest: Split_eqD)
next
  assume ?R
  then show ?L
    by (auto simp: parseRange_def wf_range_def Split_no_sep Split_append ParseUint16_no_sep
        intro: order_trans)
qed

lemma parseRange_wf: "parseRange s = Inr r \<Longrightarrow> wf_range r"
  by (simp add: parseRange_Inr_iff)

lemma parseRanges_wf: "parseRanges ps = Inr rs \<Longrightarrow> r \<in> set rs \<Longrightarrow> wf_range r"
  by (induction ps arbitrary: rs) (auto split: sum.splits dest: parseRange_wf)

lemma parseRanges_length: "parseRanges ps = Inr rs \<Longrightarrow> length rs = length ps"
  by (induction ps arbitrary: rs) (auto split: sum.splits)

lemma Parse_wf:
  assumes "Parse p = Inr rs"
  shows "rs \<noteq> []" and "r \<in> set rs \<Longrightarrow> wf_range r"
  using assms parseRanges_length [of "Split p (CHR '','')" rs]
  by (auto simp: Parse_def dest: parseRanges_wf)

lemma Parse_empty: "Parse [] = Inl ErrInvalidPort"
  by (simp add: Parse_def parseRange_def ParseUint16_def)

text \<open>The text of a list of ranges, as an operator writes it.\<close>

definition render_range :: "Range \<Rightarrow> string" where
  "render_range r =
     (if r_start r = r_end r then utoa (r_start r)
      else utoa (r_start r) @ ''-'' @ utoa (r_end r))"

definition render_ports :: "Range list \<Rightarrow> string" where
  "render_ports rs = Join (map render_range rs) '',''"

lemma parseRange_render: "wf_range r \<Longrightarrow> parseRange (render_range r) = Inr r"
  unfolding parseRange_Inr_iff render_range_def by (auto intro: ParseUint16_utoa)

lemma render_range_no_comma: "CHR '','' \<notin> set (render_range r)"
  by (auto simp: render_range_def utoa_def nat_digits_no_sep)

lemma parseRanges_render:
  "(\<And>r. r \<in> set rs \<Longrightarrow> wf_range r) \<Longrightarrow> parseRanges (map render_range rs) = Inr rs"
  by (induction rs) (auto simp: parseRange_render)

lemma Parse_render:
  assumes "rs \<noteq> []" and "\<And>r. r \<in> set rs \<Longrightarrow> wf_range r"
  shows "Parse (render_ports rs) = Inr rs"
proof -
  have "Split (render_ports rs) (CHR '','') = map render_range rs"
    unfolding render_ports_def using assms(1)
    by (intro Split_Join) (auto simp: render_range_no_comma)
  then show ?thesis
    using assms(2) by (simp add: Parse_def parseRanges_render)
qed

lemma find_None_product:
  "find P (List.product xs ys) = None \<longleftrightarrow> (\<forall>x\<in>set xs. \<forall>y\<in>set ys. \<not> P (x, y))"
  by (auto simp: find_None_iff)

lemma first_overlap_None:
  "first_overlap rs = None \<longleftrightarrow>
     (\<forall>i<length rs. \<forall>j<length rs. i \<noteq> j \<longrightarrow> \<not> Overlaps (rs ! i) (rs ! j))"
  unfolding first_overlap_def Let_def find_None_product by (auto simp: Ball_def)

text \<open>The ranges of an accepted text: no two of them share a port.\<close>

definition disjoint_ranges :: "Range list \<Rightarrow> bool" where
  "disjoint_ranges rs \<longleftrightarrow>
     (\<forall>i<length rs. \<forall>j<length rs. i \<noteq> j \<longrightarrow> range_ports (rs ! i) \<inter> range_ports (rs ! j) = {})"

lemma first_overlap_wf:
  assumes "\<And>r. r \<in> set rs \<Longrightarrow> wf_range r"
  shows "first_overlap rs = None \<longleftrightarrow> disjoint_ranges rs"
proof -
  have "Overlaps (rs ! i) (rs ! j) \<longleftrightarrow> range_ports (rs ! i) \<inter> range_ports (rs ! j) \<noteq> {}"
    if "i < length rs" "j < length rs" for i j
    using assms that by (intro Overlaps_iff) (auto simp: wf_range_def)
  then show ?thesis
    by (auto simp: first_overlap_None disjoint_ranges_def)
qed

lemma reserved_conflict_iff:
  "reserved_conflict cfg rs \<longleftrightarrow>
     (\<exists>r\<in>set rs. \<exists>p\<in>set (ReservedSystemComponentPorts cfg). p \<in> range_ports r)"
  by (auto simp: reserved_conflict_def list_ex_iff range_ports_def)

lemma ReservablePorts_Validate_None:
  "ReservablePorts_Validate cfg p = None \<longleftrightarrow>
     (\<exists>rs. Parse p = Inr rs \<and> disjoint_ranges rs \<and>
        (FailOnRouterPortConflicts cfg \<longrightarrow>
           (\<forall>r\<in>set rs. \<forall>q\<in>set (ReservedSystemComponentPorts cfg). q \<notin> range_ports r)))"
proof (cases "Parse p")
  case (Inr rs)
  then have "first_overlap rs = None \<longleftrightarrow> disjoint_ranges rs"
    using Parse_wf by (intro first_overlap_wf) blast
  with Inr show ?thesis
    by (auto simp: ReservablePorts_Validate_def reserved_conflict_iff split: option.splits)
qed (simp add: ReservablePorts_Validate_def)

section \<open>The overlap test of the migrations\<close>

text \<open>\<open>migration/v6/router_groups.go\<close> has the same test with all arithmetic on 16 bits.\<close>

definition v6_Overlaps :: "Range \<Rightarrow> Range \<Rightarrow> bool" where
  "v6_Overlaps r other =
     (let maxUpper = Range_max r other; minLower = Range_min r other
      in maxUpper - minLower \<le> (r_end r - r_start r) + (r_end other - r_start other))"

lemma unat_range_length:
  "r_start r \<le> r_end r \<Longrightarrow> unat (r_end r - r_start r) = unat (r_end r) - unat (r_start r)"
  by (simp add: unat_sub)

text \<open>The two tests agree exactly as long as the sum of the two lengths fits in 16 bits.\<close>

lemma v6_Overlaps_eq:
  assumes "unat (r_end r - r_start r) + unat (r_end q - r_start q) < 65536"
  shows "v6_Overlaps r q \<longleftrightarrow> Overlaps r q"
proof -
  have "unat ((r_end r - r_start r) + (r_end q - r_start q)) =
      unat (r_end r - r_start r) + unat (r_end q - r_start q)"
    using assms by (simp add: unat_word_ariths)
  then show ?thesis
    by (simp add: v6_Overlaps_def Overlaps_def Let_def word_le_nat_alt unat_add_ucast_16_64)
qed

section \<open>Ports\<close>

text \<open>
  (C35) The overlap test of two port ranges, arithmetic on the ends alone, says exactly whether the
  ranges share a port. The 16-bit version of \<open>migration/v6\<close> agrees with it unless the lengths add up
  to more than 16 bits, and then can miss an overlap: it does not see that \<open>1024-65535\<close> overlaps
  itself.
\<close>

theorem Overlaps_shares_port:
  assumes "r_start r \<le> r_end r" and "r_start q \<le> r_end q"
  shows "(Overlaps r q \<longleftrightarrow> range_ports r \<inter> range_ports q \<noteq> {}) \<and>
    (unat (r_end r) - unat (r_start r) + (unat (r_end q) - unat (r_start q)) < 65536 \<longrightarrow>
       v6_Overlaps r q = Overlaps r q) \<and>
    \<not> v6_Overlaps \<lparr>r_start = 1024, r_end = 65535\<rparr> \<lparr>r_start = 1024, r_end = 65535\<rparr>"
proof -
  have "\<not> v6_Overlaps \<lparr>r_start = 1024, r_end = 65535\<rparr> \<lparr>r_start = 1024, r_end = 65535\<rparr>"
    by (simp add: v6_Overlaps_def Range_max_def Range_min_def Let_def)
  then show ?thesis
    using Overlaps_iff [OF assms] v6_Overlaps_eq [of r q] assms by (simp add: unat_range_length)
qed

theorem Overlaps_shares_port_witness:
  "Overlaps \<lparr>r_start = 1024, r_end = 2000\<rparr> \<lparr>r_start = 2000, r_end = 3000\<rparr> \<and>
   (2000 :: uint16) \<in> range_ports \<lparr>r_start = 1024, r_end = 2000\<rparr> \<inter> range_ports \<lparr>r_start = 2000, r_end = 3000\<rparr>"
proof -
  have "(2000 :: uint16) \<in> range_ports \<lparr>r_start = 1024, r_end = 2000\<rparr> \<inter> range_ports \<lparr>r_start = 2000, r_end = 3000\<rparr>"
    by (simp add: range_ports_def)
  with Overlaps_shares_port [of "\<lparr>r_start = 1024, r_end = 2000\<rparr>" "\<lparr>r_start = 2000, r_end = 3000\<rparr>"]
  show ?thesis by auto
qed

text \<open>
  (C34) Parsing inverts printing: a non-empty list of port ranges, written as an operator would write
  it, is parsed back to itself.
\<close>

theorem Parse_render_ports:
  assumes "rs \<noteq> []" and "list_all wf_range rs"
  shows "Parse (render_ports rs) = Inr rs"
  using Parse_render [OF assms(1)] assms(2) by (simp add: list_all_iff)

theorem Parse_render_ports_witness:
  "render_ports [\<lparr>r_start = 1024, r_end = 1123\<rparr>, \<lparr>r_start = 2000, r_end = 2000\<rparr>] = ''1024-1123,2000'' \<and>
   Parse ''1024-1123,2000'' = Inr [\<lparr>r_start = 1024, r_end = 1123\<rparr>, \<lparr>r_start = 2000, r_end = 2000\<rparr>]"
proof -
  have r: "render_ports [\<lparr>r_start = 1024, r_end = 1123\<rparr>, \<lparr>r_start = 2000, r_end = 2000\<rparr>] = ''1024-1123,2000''"
    by (simp add: render_ports_def render_range_def utoa_def nat_digits.simps digit_char_def
        char_of_def bit_Suc_0_iff)
  have "Parse (render_ports [\<lparr>r_start = 1024, r_end = 1123\<rparr>, \<lparr>r_start = 2000, r_end = 2000\<rparr>]) =
      Inr [\<lparr>r_start = 1024, r_end = 1123\<rparr>, \<lparr>r_start = 2000, r_end = 2000\<rparr>]"
    by (rule Parse_render_ports) (simp_all add: wf_range_def)
  with r show ?thesis by simp
qed

text \<open>
  (C33) A router group is accepted exactly if it has a name and a type and its ports fit the type: a
  \<open>tcp\<close> group needs ports, an \<open>http\<close> group has none, and given ports parse to ranges between 1024
  and 65535 that are ascending, pairwise disjoint and, if the configuration asks for it, free of the
  ports of system components.
\<close>

theorem RouterGroup_Validate_iff:
  "RouterGroup_Validate cfg g = None \<longleftrightarrow>
     rgName g \<noteq> [] \<and> rgType g \<noteq> [] \<and>
     (if rgReservablePorts g = [] then rgType g \<noteq> ''tcp''
      else rgType g \<noteq> ''http'' \<and>
        (\<exists>rs. Parse (rgReservablePorts g) = Inr rs \<and> list_all wf_range rs \<and> disjoint_ranges rs \<and>
           (FailOnRouterPortConflicts cfg \<longrightarrow>
              (\<forall>r\<in>set rs. range_ports r \<inter> set (ReservedSystemComponentPorts cfg) = {}))))"
proof -
  have "Parse p = Inr rs \<Longrightarrow> list_all wf_range rs" for p rs
    using Parse_wf by (auto simp: list_all_iff)
  then show ?thesis
    unfolding RouterGroup_Validate_def RouterGroup_TCP_def RouterGroup_HTTP_def
    by (auto simp: ReservablePorts_Validate_None disjoint_iff)
qed

theorem RouterGroup_Validate_iff_witness:
  "RouterGroup_Validate \<lparr>ReservedSystemComponentPorts = [1100], FailOnRouterPortConflicts = True\<rparr>
     (zero_RouterGroup\<lparr>rgName := ''g'', rgType := ''tcp'', rgReservablePorts := ''1024-1123''\<rparr>) \<noteq> None"
proof -
  have p: "Parse ''1024-1123'' = Inr [\<lparr>r_start = 1024, r_end = 1123\<rparr>]"
    by (simp add: Parse_def parseRange_def ParseUint16_def digits_value_def digit_value_def is_digit_def
        NewRange_def portIsInRange_def)
  show ?thesis
    unfolding RouterGroup_Validate_iff by (simp add: p range_ports_def)
qed

end
