(* ===== verification/Sql_Client.thy ===== *)
theory Sql_Client
  imports Router_Groups "HOL-Library.Multiset"
begin

text \<open>
  The database client of \<open>db/client.go\<close>. gorm and the SQL server behind it are not modelled: what
  they do to a table is a record of functions (\<open>table_ops\<close>), and what the program relies on is the
  locale \<open>sql_table\<close>, documented behaviour of gorm and SQL: a query returns the rows that satisfy
  its conditions, a failed statement changes nothing, a unique index refuses a second row with the
  same key. The locale \<open>sql_store\<close> joins the three tables.
\<close>

section \<open>Conditions\<close>

text \<open>
  The \<open>WHERE\<close> clauses the program writes are conjunctions of comparisons of a column with a
  parameter. A comparison with \<open>NULL\<close> is never true.
\<close>

datatype sql_value = VNull | VStr string | VInt int | VTime time | VBool bool

datatype cond =
    CEq string sql_value
  | CIsNull string
  | CLt string sql_value
  | CGt string sql_value
  | CIn string "sql_value list"

fun time_less :: "sql_value \<Rightarrow> sql_value \<Rightarrow> bool" where
  "time_less (VTime a) (VTime b) = (a < b)"
| "time_less _ _ = False"

primrec holds :: "(string \<Rightarrow> sql_value) \<Rightarrow> cond \<Rightarrow> bool" where
  "holds row (CEq c v) = (row c \<noteq> VNull \<and> row c = v)"
| "holds row (CIsNull c) = (row c = VNull)"
| "holds row (CLt c v) = time_less (row c) v"
| "holds row (CGt c v) = time_less v (row c)"
| "holds row (CIn c vs) = (row c \<noteq> VNull \<and> row c \<in> set vs)"

definition sat :: "('r \<Rightarrow> string \<Rightarrow> sql_value) \<Rightarrow> cond list \<Rightarrow> 'r \<Rightarrow> bool" where
  "sat col q r \<longleftrightarrow> list_all (holds (col r)) q"

lemma sat_simps [simp]:
  "sat col [] r"
  "sat col (c # q) r \<longleftrightarrow> holds (col r) c \<and> sat col q r"
  "sat col (q @ q') r \<longleftrightarrow> sat col q r \<and> sat col q' r"
  by (simp_all add: sat_def)

text \<open>The columns of the three tables, by gorm's naming of the struct fields.\<close>

definition opt_str :: "string option \<Rightarrow> sql_value" where
  "opt_str p = (case p of None \<Rightarrow> VNull | Some s \<Rightarrow> VStr s)"

definition route_col :: "Route \<Rightarrow> string \<Rightarrow> sql_value" where
  "route_col r c =
     (let e = rEntity r
      in if c = ''guid'' then VStr (mGuid (rModel r))
         else if c = ''expires_at'' then VTime (rExpiresAt r)
         else if c = ''route'' then VStr (reRoute e)
         else if c = ''port'' then VInt (uint (rePort e))
         else if c = ''ip'' then VStr (reIP e)
         else if c = ''log_guid'' then VStr (reLogGuid e)
         else if c = ''route_service_url'' then VStr (reRouteServiceUrl e)
         else VNull)"

definition tcp_col :: "TcpRouteMapping \<Rightarrow> string \<Rightarrow> sql_value" where
  "tcp_col t c =
     (let e = tEntity t
      in if c = ''guid'' then VStr (mGuid (tModel t))
         else if c = ''expires_at'' then VTime (tExpiresAt t)
         else if c = ''router_group_guid'' then VStr (teRouterGroupGuid e)
         else if c = ''host_port'' then VInt (uint (teHostPort e))
         else if c = ''host_tls_port'' then VInt (teHostTLSPort e)
         else if c = ''host_ip'' then VStr (teHostIP e)
         else if c = ''sni_hostname'' then opt_str (teSniHostname e)
         else if c = ''external_port'' then VInt (uint (teExternalPort e))
         else if c = ''isolation_segment'' then VStr (teIsolationSegment e)
         else if c = ''terminate_frontend_tls'' then VBool (teTerminateFrontendTLS e)
         else if c = ''enable_backend_m_tls'' then VBool (teEnableBackendMTLS e)
         else VNull)"

definition rg_col :: "RouterGroupDB \<Rightarrow> string \<Rightarrow> sql_value" where
  "rg_col g c =
     (if c = ''guid'' then VStr (mGuid (dbModel g))
      else if c = ''name'' then VStr (dbName g)
      else if c = ''type'' then VStr (dbType g)
      else if c = ''reservable_ports'' then VStr (dbReservablePorts g)
      else VNull)"

section \<open>The client\<close>

text \<open>
  What gorm does to one table of the database state. \<open>Delete\<close> is given the model value, whose
  primary key gorm adds to the conditions when it is set; the results are the numbers of affected
  rows.
\<close>

record ('s, 'r) table_ops =
  t_find :: "cond list \<Rightarrow> ('s, 'r list) action"
  t_first :: "cond list \<Rightarrow> ('s, 'r) action"
  t_create :: "'r \<Rightarrow> ('s, int) action"
  t_save :: "'r \<Rightarrow> ('s, int) action"
  t_delete :: "'r \<Rightarrow> cond list \<Rightarrow> ('s, int) action"

record 's gorm_db =
  routes_tbl :: "('s, Route) table_ops"
  tcp_routes_tbl :: "('s, TcpRouteMapping) table_ops"
  router_groups_tbl :: "('s, RouterGroupDB) table_ops"

text \<open>
  A \<open>gormClient\<close> wraps a \<open>gorm.DB\<close>; \<open>Where\<close> returns a new client with the condition added. The table
  an operation works on is that of its model value; here it is the selector of the table.
\<close>

record 's gormClient =
  gdb :: "'s gorm_db"
  gwhere :: "cond list"

definition NewGormClient :: "'s gorm_db \<Rightarrow> 's gormClient" where
  "NewGormClient db = \<lparr>gdb = db, gwhere = []\<rparr>"

definition Client_Where :: "'s gormClient \<Rightarrow> cond list \<Rightarrow> 's gormClient" where
  "Client_Where c query = c\<lparr>gwhere := gwhere c @ query\<rparr>"

definition Client_Create ::
    "'s gormClient \<Rightarrow> ('s gorm_db \<Rightarrow> ('s, 'r) table_ops) \<Rightarrow> 'r \<Rightarrow> ('s, int) action" where
  "Client_Create c tbl value = t_create (tbl (gdb c)) value"

definition Client_Delete ::
    "'s gormClient \<Rightarrow> ('s gorm_db \<Rightarrow> ('s, 'r) table_ops) \<Rightarrow> 'r \<Rightarrow> cond list \<Rightarrow> ('s, int) action" where
  "Client_Delete c tbl value where' = t_delete (tbl (gdb c)) value (gwhere c @ where')"

definition Client_Save ::
    "'s gormClient \<Rightarrow> ('s gorm_db \<Rightarrow> ('s, 'r) table_ops) \<Rightarrow> 'r \<Rightarrow> ('s, int) action" where
  "Client_Save c tbl value = t_save (tbl (gdb c)) value"

definition Client_First ::
    "'s gormClient \<Rightarrow> ('s gorm_db \<Rightarrow> ('s, 'r) table_ops) \<Rightarrow> cond list \<Rightarrow> ('s, 'r) action" where
  "Client_First c tbl where' = t_first (tbl (gdb c)) (gwhere c @ where')"

definition Client_Find ::
    "'s gormClient \<Rightarrow> ('s gorm_db \<Rightarrow> ('s, 'r) table_ops) \<Rightarrow> cond list \<Rightarrow> ('s, 'r list) action" where
  "Client_Find c tbl where' = t_find (tbl (gdb c)) (gwhere c @ where')"

lemmas client_defs =
  NewGormClient_def Client_Where_def Client_Create_def Client_Delete_def Client_Save_def
  Client_First_def Client_Find_def

section \<open>The contract of a table\<close>

text \<open>The condition gorm adds to a deletion for a model value whose primary key is set.\<close>

definition pk_cond :: "string \<Rightarrow> cond list" where
  "pk_cond k = (if k = [] then [] else [CEq ''guid'' (VStr k)])"

lemma single_or_none:
  assumes "mset rs = mset (filter P xs)" and "length rs \<le> 1"
  shows "filter P xs = rs"
proof (cases rs)
  case Nil
  with assms show ?thesis by simp
next
  case (Cons r rs')
  with assms have "mset (filter P xs) = {#r#}" and "rs = [r]" by auto
  then show ?thesis by (metis mset_single_iff)
qed

text \<open>
  \<open>rows\<close> is the content of the table, \<open>others\<close> that of the other tables, \<open>key\<close> the primary key and
  \<open>stored\<close> what reading a row back gives (the server rounds instants). A query returns the
  matching rows in any order. A statement that fails leaves the table as it was. The rows carry the
  instants \<open>CreatedAt\<close> and \<open>UpdatedAt\<close> as the program gives them: gorm fills them in, but no query, event or
  response of the program shows them. Texts are compared exactly, as in a binary collation.
\<close>

locale sql_table =
  fixes ops :: "('s, 'r) table_ops"
    and rows :: "'s \<Rightarrow> 'r list"
    and others :: "'s \<Rightarrow> 'o"
    and col :: "'r \<Rightarrow> string \<Rightarrow> sql_value"
    and key :: "'r \<Rightarrow> string"
    and stored :: "'r \<Rightarrow> 'r"
  assumes find_result:
      "t_find ops q s = (x, s') \<Longrightarrow>
       rows s' = rows s \<and> others s' = others s \<and>
       (case x of Ok rs \<Rightarrow> mset rs = mset (filter (sat col q) (rows s))
                | Fail e \<Rightarrow> True | Panic p \<Rightarrow> False)"
    and first_result:
      "t_first ops q s = (y, s') \<Longrightarrow>
       rows s' = rows s \<and> others s' = others s \<and>
       (case y of Ok r \<Rightarrow> r \<in> set (rows s) \<and> sat col q r
                | Fail e \<Rightarrow> e = ErrRecordNotFound \<longrightarrow> filter (sat col q) (rows s) = []
                | Panic p \<Rightarrow> False)"
    and create_result:
      "t_create ops r s = (z, s') \<Longrightarrow>
       others s' = others s \<and>
       (case z of Ok n \<Rightarrow> rows s' = rows s @ [stored r] \<and> key r \<notin> key ` set (rows s)
                | Fail e \<Rightarrow> rows s' = rows s | Panic p \<Rightarrow> False)"
    and save_result:
      "t_save ops r s = (z, s') \<Longrightarrow>
       others s' = others s \<and>
       (case z of
          Ok n \<Rightarrow>
            rows s' = (if key r \<in> key ` set (rows s)
                       then map (\<lambda>x. if key x = key r then stored r else x) (rows s)
                       else rows s @ [stored r])
        | Fail e \<Rightarrow> rows s' = rows s | Panic p \<Rightarrow> False)"
    and delete_result:
      "t_delete ops r q s = (z, s') \<Longrightarrow>
       others s' = others s \<and>
       (case z of
          Ok n \<Rightarrow> rows s' = filter (\<lambda>x. \<not> sat col (pk_cond (key r) @ q) x) (rows s)
        | Fail e \<Rightarrow> rows s' = rows s | Panic p \<Rightarrow> False)"
    and key_col: "col r ''guid'' = VStr (key r)"
    and stored_key: "key (stored r) = key r"
begin

lemma find_Ok:
  assumes "t_find ops q s = (Ok rs, s')"
  shows "mset rs = mset (filter (sat col q) (rows s))"
    and "set rs = {r \<in> set (rows s). sat col q r}"
    and "length rs = length (filter (sat col q) (rows s))"
proof -
  show m: "mset rs = mset (filter (sat col q) (rows s))"
    using find_result [OF assms] by simp
  show "set rs = {r \<in> set (rows s). sat col q r}"
    using mset_eq_setD [OF m] by auto
  show "length rs = length (filter (sat col q) (rows s))"
    using mset_eq_length [OF m] .
qed

lemma find_few:
  "t_find ops q s = (Ok rs, s') \<Longrightarrow> length rs \<le> 1 \<Longrightarrow> filter (sat col q) (rows s) = rs"
  using find_Ok(1) single_or_none by blast

text \<open>Deleting by a non-empty primary key removes the rows with that key.\<close>

lemma delete_by_key:
  assumes "t_delete ops r [] s = (Ok n, s')" and "key r \<noteq> []"
  shows "rows s' = filter (\<lambda>x. key x \<noteq> key r) (rows s)"
  using delete_result [OF assms(1)] assms(2) by (auto simp: pk_cond_def key_col)

text \<open>Deleting by a set of keys, with a model value that has none.\<close>

lemma delete_by_keys:
  assumes "t_delete ops r [CIn ''guid'' (map VStr ks)] s = (Ok n, s')" and "key r = []"
  shows "rows s' = filter (\<lambda>x. key x \<notin> set ks) (rows s)"
  using delete_result [OF assms(1)] assms(2)
  by (auto simp: pk_cond_def key_col intro!: filter_cong)

lemma create_Ok:
  assumes "t_create ops r s = (Ok n, s')"
  shows "rows s' = rows s @ [stored r]" and "key r \<notin> key ` set (rows s)"
  using create_result [OF assms] by simp_all

lemma save_existing:
  assumes "t_save ops r s = (Ok n, s')" and "x \<in> set (rows s)" and "key x = key r"
  shows "rows s' = map (\<lambda>x. if key x = key r then stored r else x) (rows s)"
proof -
  have "key r \<in> key ` set (rows s)"
    using imageI [OF assms(2), of key] assms(3) by simp
  then show ?thesis
    using save_result [OF assms(1)] by simp
qed

lemma no_panic:
  "t_find ops q s \<noteq> (Panic p, s')" "t_first ops q s \<noteq> (Panic p, s')"
  "t_create ops r s \<noteq> (Panic p, s')" "t_save ops r s \<noteq> (Panic p, s')"
  "t_delete ops r q s \<noteq> (Panic p, s')"
  using find_result [of q s "Panic p" s'] first_result [of q s "Panic p" s']
    create_result [of r s "Panic p" s'] save_result [of r s "Panic p" s']
    delete_result [of r q s "Panic p" s'] by auto

end

section \<open>The store\<close>

abbreviation route_guid :: "Route \<Rightarrow> string" where
  "route_guid r \<equiv> mGuid (rModel r)"

abbreviation tcp_guid :: "TcpRouteMapping \<Rightarrow> string" where
  "tcp_guid t \<equiv> mGuid (tModel t)"

abbreviation rg_guid :: "RouterGroupDB \<Rightarrow> string" where
  "rg_guid g \<equiv> mGuid (dbModel g)"

text \<open>
  The three tables, each of which a statement on another leaves alone. Reading a route back gives
  the entity that was written; its expiry may be rounded, by less than a second.
\<close>

locale sql_store =
  R: sql_table "routes_tbl db" rrows "\<lambda>s. (trows s, grows s)" route_col route_guid rstored +
  T: sql_table "tcp_routes_tbl db" trows "\<lambda>s. (rrows s, grows s)" tcp_col tcp_guid tstored +
  G: sql_table "router_groups_tbl db" grows "\<lambda>s. (rrows s, trows s)" rg_col rg_guid gstored
  for db :: "'s gorm_db"
    and rrows :: "'s \<Rightarrow> Route list" and trows :: "'s \<Rightarrow> TcpRouteMapping list"
    and grows :: "'s \<Rightarrow> RouterGroupDB list"
    and rstored :: "Route \<Rightarrow> Route" and tstored :: "TcpRouteMapping \<Rightarrow> TcpRouteMapping"
    and gstored :: "RouterGroupDB \<Rightarrow> RouterGroupDB" +
  assumes rstored_entity: "rEntity (rstored r) = rEntity r"
    and rstored_expiry: "\<bar>rExpiresAt (rstored r) - rExpiresAt r\<bar> < second"
    and tstored_entity: "tEntity (tstored t) = tEntity t"
    and tstored_expiry: "\<bar>tExpiresAt (tstored t) - tExpiresAt t\<bar> < second"
    and gstored_fields:
      "dbName (gstored g) = dbName g \<and> dbType (gstored g) = dbType g \<and>
       dbReservablePorts (gstored g) = dbReservablePorts g"

end
