(* ===== verification/Sql_Engine.thy ===== *)
theory Sql_Engine
  imports Sql_Client
begin

text \<open>
  An executable database that satisfies the contract \<open>sql_store\<close>: three tables with their primary
  keys, the unique indexes of the last migrations (\<open>migration/V2_update_rg_migration.go\<close>,
  \<open>migration/V11_enable_backend_mtls.go\<close>), instants kept to the second as MySQL does, and a script
  of statements that fail. It shows that the contract can hold and evaluates the operations of the
  program on concrete tables.
\<close>

record mem =
  mroutes :: "Route list"
  mtcp :: "TcpRouteMapping list"
  mrgs :: "RouterGroupDB list"
  mfaults :: "string option list"

definition empty_mem :: mem where
  "empty_mem = \<lparr>mroutes = [], mtcp = [], mrgs = [], mfaults = []\<rparr>"

text \<open>A statement first takes the next entry of the failure script.\<close>

definition mem_statement :: "(mem, 'a) action \<Rightarrow> (mem, 'a) action" where
  "mem_statement m s =
     (case mfaults s of
        [] \<Rightarrow> m s
      | None # fs \<Rightarrow> m (s\<lparr>mfaults := fs\<rparr>)
      | Some msg # fs \<Rightarrow> (Fail (ErrorString msg), s\<lparr>mfaults := fs\<rparr>))"

definition duplicate_key :: go_error where
  "duplicate_key = ErrorString ''duplicate key value violates unique constraint''"

text \<open>
  The operations on one table: \<open>clash r x\<close> says that the rows \<open>r\<close> and \<open>x\<close> violate a unique index.
\<close>

definition mem_insert ::
    "(mem \<Rightarrow> 'r list) \<Rightarrow> (('r list \<Rightarrow> 'r list) \<Rightarrow> mem \<Rightarrow> mem) \<Rightarrow> ('r \<Rightarrow> string) \<Rightarrow>
     ('r \<Rightarrow> 'r \<Rightarrow> bool) \<Rightarrow> ('r \<Rightarrow> 'r) \<Rightarrow> 'r \<Rightarrow> (mem, int) action" where
  "mem_insert get upd key clash stored r s =
     (if list_ex (\<lambda>x. key x = key r \<or> clash r x) (get s) then (Fail duplicate_key, s)
      else (Ok 1, upd (\<lambda>rs. rs @ [stored r]) s))"

definition mem_update ::
    "(mem \<Rightarrow> 'r list) \<Rightarrow> (('r list \<Rightarrow> 'r list) \<Rightarrow> mem \<Rightarrow> mem) \<Rightarrow> ('r \<Rightarrow> string) \<Rightarrow>
     ('r \<Rightarrow> 'r \<Rightarrow> bool) \<Rightarrow> ('r \<Rightarrow> 'r) \<Rightarrow> 'r \<Rightarrow> (mem, int) action" where
  "mem_update get upd key clash stored r s =
     (if key r = [] \<or> \<not> list_ex (\<lambda>x. key x = key r) (get s)
      then mem_insert get upd key clash stored r s
      else if list_ex (\<lambda>x. key x \<noteq> key r \<and> clash r x) (get s) then (Fail duplicate_key, s)
      else (Ok 1, upd (map (\<lambda>x. if key x = key r then stored r else x)) s))"

definition mem_remove ::
    "(mem \<Rightarrow> 'r list) \<Rightarrow> (('r list \<Rightarrow> 'r list) \<Rightarrow> mem \<Rightarrow> mem) \<Rightarrow> ('r \<Rightarrow> string \<Rightarrow> sql_value) \<Rightarrow>
     cond list \<Rightarrow> (mem, int) action" where
  "mem_remove get upd col q s =
     (if q = [] then (Fail (ErrorString ''WHERE conditions required''), s)
      else (Ok (int (length (filter (sat col q) (get s)))),
            upd (filter (\<lambda>x. \<not> sat col q x)) s))"

definition mem_ops ::
    "(mem \<Rightarrow> 'r list) \<Rightarrow> (('r list \<Rightarrow> 'r list) \<Rightarrow> mem \<Rightarrow> mem) \<Rightarrow> ('r \<Rightarrow> string \<Rightarrow> sql_value) \<Rightarrow>
     ('r \<Rightarrow> string) \<Rightarrow> ('r \<Rightarrow> 'r \<Rightarrow> bool) \<Rightarrow> ('r \<Rightarrow> 'r) \<Rightarrow> (mem, 'r) table_ops" where
  "mem_ops get upd col key clash stored =
     \<lparr>t_find = (\<lambda>q. mem_statement (\<lambda>s. (Ok (filter (sat col q) (get s)), s))),
      t_first = (\<lambda>q. mem_statement (\<lambda>s.
         case filter (sat col q) (get s) of
           [] \<Rightarrow> (Fail ErrRecordNotFound, s) | r # _ \<Rightarrow> (Ok r, s))),
      t_create = (\<lambda>r. mem_statement (mem_insert get upd key clash stored r)),
      t_save = (\<lambda>r. mem_statement (mem_update get upd key clash stored r)),
      t_delete = (\<lambda>r q. mem_statement (mem_remove get upd col (pk_cond (key r) @ q)))\<rparr>"

text \<open>The unique indexes. An index entry with a \<open>NULL\<close> in it equals no other entry.\<close>

definition tcp_clash :: "TcpRouteMapping \<Rightarrow> TcpRouteMapping \<Rightarrow> bool" where
  "tcp_clash a b \<longleftrightarrow>
     list_all (\<lambda>c. tcp_col a c \<noteq> VNull \<and> tcp_col a c = tcp_col b c)
       [''router_group_guid'', ''host_port'', ''host_ip'', ''external_port'', ''sni_hostname'',
        ''host_tls_port'', ''terminate_frontend_tls'', ''enable_backend_m_tls'']"

definition rg_clash :: "RouterGroupDB \<Rightarrow> RouterGroupDB \<Rightarrow> bool" where
  "rg_clash a b \<longleftrightarrow> dbName a = dbName b"

definition to_second :: "time \<Rightarrow> time" where
  "to_second t = t div second * second"

definition mem_db :: "mem gorm_db" where
  "mem_db =
     \<lparr>routes_tbl = mem_ops mroutes mroutes_update route_col route_guid (\<lambda>_ _. False)
        (\<lambda>r. r\<lparr>rExpiresAt := to_second (rExpiresAt r)\<rparr>),
      tcp_routes_tbl = mem_ops mtcp mtcp_update tcp_col tcp_guid tcp_clash
        (\<lambda>t. t\<lparr>tExpiresAt := to_second (tExpiresAt t)\<rparr>),
      router_groups_tbl = mem_ops mrgs mrgs_update rg_col rg_guid rg_clash (\<lambda>g. g)\<rparr>"

section \<open>The contract holds\<close>

lemma mem_statement_cases:
  assumes "mem_statement m s = (x, s')"
  obtains fs where "m (s\<lparr>mfaults := fs\<rparr>) = (x, s')"
  | fs msg where "x = Fail (ErrorString msg)" and "s' = s\<lparr>mfaults := fs\<rparr>"
proof (cases "mfaults s")
  case Nil
  with assms have "m (s\<lparr>mfaults := []\<rparr>) = (x, s')"
    by (cases s) (simp add: mem_statement_def)
  then show ?thesis by (rule that(1))
next
  case (Cons f fs)
  with assms that show ?thesis
    by (cases f) (auto simp: mem_statement_def)
qed

lemma to_second_near: "\<bar>to_second t - t\<bar> < second"
proof -
  have "t - to_second t = t mod second"
    by (simp add: to_second_def minus_div_mult_eq_mod)
  moreover have "0 \<le> t mod second" "t mod second < second"
    by (simp_all add: second_def)
  ultimately show ?thesis by linarith
qed

text \<open>
  What the fields of the engine's record have in common: \<open>upd\<close> writes what \<open>get\<close> reads and neither
  touches the failure script or the other tables \<open>others\<close>.
\<close>

locale mem_field =
  fixes get :: "mem \<Rightarrow> 'r list" and upd :: "('r list \<Rightarrow> 'r list) \<Rightarrow> mem \<Rightarrow> mem"
    and others :: "mem \<Rightarrow> 'o"
    and col :: "'r \<Rightarrow> string \<Rightarrow> sql_value" and key :: "'r \<Rightarrow> string"
    and clash :: "'r \<Rightarrow> 'r \<Rightarrow> bool" and stored :: "'r \<Rightarrow> 'r"
  assumes get_upd: "get (upd f s) = f (get s)"
    and others_upd: "others (upd f s) = others s"
    and get_faults: "get (s\<lparr>mfaults := fs\<rparr>) = get s"
    and others_faults: "others (s\<lparr>mfaults := fs\<rparr>) = others s"
    and guid_col: "col r ''guid'' = VStr (key r)"
    and stored_guid: "key (stored r) = key r"
begin

lemmas frame = get_upd others_upd get_faults others_faults

lemma contract: "sql_table (mem_ops get upd col key clash stored) get others col key stored"
proof
  fix q s x s'
  assume "t_find (mem_ops get upd col key clash stored) q s = (x, s')"
  then have "mem_statement (\<lambda>s. (Ok (filter (sat col q) (get s)), s)) s = (x, s')"
    by (simp add: mem_ops_def)
  then show "get s' = get s \<and> others s' = others s \<and>
      (case x of Ok rs \<Rightarrow> mset rs = mset (filter (sat col q) (get s)) | Fail e \<Rightarrow> True
        | Panic p \<Rightarrow> False)"
    by (rule mem_statement_cases) (auto simp: frame)
next
  fix q s y s'
  assume "t_first (mem_ops get upd col key clash stored) q s = (y, s')"
  then have "mem_statement (\<lambda>s. case filter (sat col q) (get s) of
      [] \<Rightarrow> (Fail ErrRecordNotFound, s) | r # _ \<Rightarrow> (Ok r, s)) s = (y, s')"
    by (simp add: mem_ops_def)
  then show "get s' = get s \<and> others s' = others s \<and>
      (case y of Ok r \<Rightarrow> r \<in> set (get s) \<and> sat col q r
        | Fail e \<Rightarrow> e = ErrRecordNotFound \<longrightarrow> filter (sat col q) (get s) = [] | Panic p \<Rightarrow> False)"
    by (rule mem_statement_cases) (auto simp: frame split: list.splits dest: filter_eq_ConsD)
next
  fix r s z s'
  assume "t_create (mem_ops get upd col key clash stored) r s = (z, s')"
  then have "mem_statement (mem_insert get upd key clash stored r) s = (z, s')"
    by (simp add: mem_ops_def)
  then show "others s' = others s \<and>
      (case z of Ok n \<Rightarrow> get s' = get s @ [stored r] \<and> key r \<notin> key ` set (get s)
        | Fail e \<Rightarrow> get s' = get s | Panic p \<Rightarrow> False)"
    by (rule mem_statement_cases)
      (fastforce simp: frame mem_insert_def list_ex_iff split: if_splits)+
next
  fix r s z s'
  assume "t_save (mem_ops get upd col key clash stored) r s = (z, s')"
  then have "mem_statement (mem_update get upd key clash stored r) s = (z, s')"
    by (simp add: mem_ops_def)
  then show "others s' = others s \<and>
      (case z of Ok n \<Rightarrow>
          get s' = (if key r \<in> key ` set (get s)
            then map (\<lambda>x. if key x = key r then stored r else x) (get s) else get s @ [stored r])
        | Fail e \<Rightarrow> get s' = get s | Panic p \<Rightarrow> False)"
    by (rule mem_statement_cases)
      (auto simp: frame mem_update_def mem_insert_def list_ex_iff image_iff split: if_splits
        dest: bspec)
next
  fix r q s z s'
  assume "t_delete (mem_ops get upd col key clash stored) r q s = (z, s')"
  then have "mem_statement (mem_remove get upd col (pk_cond (key r) @ q)) s = (z, s')"
    by (simp add: mem_ops_def)
  then show "others s' = others s \<and>
      (case z of Ok n \<Rightarrow> get s' = filter (\<lambda>x. \<not> sat col (pk_cond (key r) @ q) x) (get s)
        | Fail e \<Rightarrow> get s' = get s | Panic p \<Rightarrow> False)"
    by (rule mem_statement_cases) (auto simp: frame mem_remove_def split: if_splits)
qed (simp_all add: guid_col stored_guid)

end

interpretation mem_routes: mem_field mroutes mroutes_update "\<lambda>s. (mtcp s, mrgs s)" route_col route_guid
  "\<lambda>_ _. False" "\<lambda>r. r\<lparr>rExpiresAt := to_second (rExpiresAt r)\<rparr>"
  by unfold_locales (simp_all add: route_col_def)

interpretation mem_tcp: mem_field mtcp mtcp_update "\<lambda>s. (mroutes s, mrgs s)" tcp_col tcp_guid
  tcp_clash "\<lambda>t. t\<lparr>tExpiresAt := to_second (tExpiresAt t)\<rparr>"
  by unfold_locales (simp_all add: tcp_col_def)

interpretation mem_rgs: mem_field mrgs mrgs_update "\<lambda>s. (mroutes s, mtcp s)" rg_col rg_guid
  rg_clash "\<lambda>g. g"
  by unfold_locales (simp_all add: rg_col_def)

interpretation mem: sql_store mem_db mroutes mtcp mrgs
  "\<lambda>r. r\<lparr>rExpiresAt := to_second (rExpiresAt r)\<rparr>"
  "\<lambda>t. t\<lparr>tExpiresAt := to_second (tExpiresAt t)\<rparr>" "\<lambda>g. g"
proof (unfold mem_db_def, intro sql_store.intro sql_store_axioms.intro)
qed (simp_all add: mem_routes.contract mem_tcp.contract mem_rgs.contract to_second_near)

end
