(* ===== verification/Event_Hub.thy ===== *)
theory Event_Hub
  imports Prelude "HOL-Library.Sublist"
begin

text \<open>
  The event hub that carries route changes to the event streams, from
  \<open>vendor/code.cloudfoundry.org/eventhub\<close>: sources with a bounded buffer, and the hub that sends
  every event to its subscribers without blocking. Sources are shared between the hub and their
  consumers, so the model keeps them in a store and refers to them by their number. Every method
  holds its mutex from start to end, so a method is one step.
\<close>

section \<open>Sources\<close>

text \<open>
  \<open>sevents\<close> is what the channel buffers, \<open>scap\<close> its capacity. A closed channel still delivers what
  it buffers.
\<close>

record 'e source =
  sevents :: "'e list"
  scap :: nat
  sclosed :: bool

definition newSource :: "nat \<Rightarrow> 'e source" where
  "newSource maxPendingEvents = \<lparr>sevents = [], scap = maxPendingEvents, sclosed = False\<rparr>"

definition source_Close :: "'e source \<Rightarrow> hub_error option \<times> 'e source" where
  "source_Close s =
     (if sclosed s then (Some ErrSourceAlreadyClosed, s) else (None, s\<lparr>sclosed := True\<rparr>))"

text \<open>The non-blocking send succeeds exactly if the buffer has room.\<close>

definition source_send :: "'e \<Rightarrow> 'e source \<Rightarrow> hub_error option \<times> 'e source" where
  "source_send event s =
     (if sclosed s then (Some ErrSendToClosedSource, s)
      else if length (sevents s) < scap s then (None, s\<lparr>sevents := sevents s @ [event]\<rparr>)
      else (case source_Close s of
              (Some err, s') \<Rightarrow> (Some err, s')
            | (None, s') \<Rightarrow> (Some ErrSlowConsumer, s')))"

text \<open>\<open>None\<close>: the receive blocks, since the channel is open and empty.\<close>

definition source_Next :: "'e source \<Rightarrow> ((hub_error + 'e) \<times> 'e source) option" where
  "source_Next s =
     (case sevents s of
        e # es \<Rightarrow> Some (Inr e, s\<lparr>sevents := es\<rparr>)
      | [] \<Rightarrow> if sclosed s then Some (Inl ErrReadFromClosedSource, s) else None)"

section \<open>The hub\<close>

text \<open>\<open>sources\<close> and \<open>nextSource\<close> are the store: sources are numbered in the order of their creation.\<close>

record 'e hub =
  bufferSize :: nat
  subscribers :: "nat list"
  hclosed :: bool
  sources :: "nat \<Rightarrow> 'e source"
  nextSource :: nat

definition NewNonBlocking :: "nat \<Rightarrow> 'e hub" where
  "NewNonBlocking consumerBufferSize =
     \<lparr>bufferSize = consumerBufferSize, subscribers = [], hclosed = False,
      sources = (\<lambda>_. newSource consumerBufferSize), nextSource = 0\<rparr>"

definition Subscribe :: "('e hub, nat) action" where
  "Subscribe hub =
     (if hclosed hub then (Fail (HubError ErrSubscribedToClosedHub), hub)
      else let sub = nextSource hub
           in (Ok sub,
               hub\<lparr>sources := (sources hub)(sub := newSource (bufferSize hub)),
                   nextSource := Suc sub,
                   subscribers := subscribers hub @ [sub]\<rparr>))"

text \<open>One pass of the loop of \<open>Emit\<close>: the subscribers that took the event remain.\<close>

primrec send_each ::
    "'e \<Rightarrow> nat list \<Rightarrow> (nat \<Rightarrow> 'e source) \<Rightarrow> nat list \<times> (nat \<Rightarrow> 'e source)" where
  "send_each event [] srcs = ([], srcs)"
| "send_each event (sub # subs) srcs =
     (case source_send event (srcs sub) of (err, s) \<Rightarrow>
      case send_each event subs (srcs(sub := s)) of (remaining, srcs') \<Rightarrow>
        (if err = None then sub # remaining else remaining, srcs'))"

definition Emit :: "'e \<Rightarrow> 'e hub \<Rightarrow> 'e hub" where
  "Emit event hub =
     (case send_each event (subscribers hub) (sources hub) of (remainingSubscribers, srcs) \<Rightarrow>
        hub\<lparr>sources := srcs, subscribers := remainingSubscribers\<rparr>)"

primrec close_each :: "nat list \<Rightarrow> (nat \<Rightarrow> 'e source) \<Rightarrow> (nat \<Rightarrow> 'e source)" where
  "close_each [] srcs = srcs"
| "close_each (sub # subs) srcs = close_each subs (srcs(sub := snd (source_Close (srcs sub))))"

definition closeSubscribers :: "'e hub \<Rightarrow> 'e hub" where
  "closeSubscribers hub =
     hub\<lparr>sources := close_each (subscribers hub) (sources hub), subscribers := []\<rparr>"

definition Hub_Close :: "('e hub, unit) action" where
  "Hub_Close hub =
     (if hclosed hub then (Fail (HubError ErrHubAlreadyClosed), hub)
      else (Ok (), (closeSubscribers hub)\<lparr>hclosed := True\<rparr>))"

text \<open>The consumer's end of a source: \<open>Close\<close> and \<open>Next\<close> on the shared source.\<close>

definition Source_Close :: "nat \<Rightarrow> ('e hub, unit) action" where
  "Source_Close i hub =
     (case source_Close (sources hub i) of (err, s) \<Rightarrow>
        ((case err of None \<Rightarrow> Ok () | Some e \<Rightarrow> Fail (HubError e)),
         hub\<lparr>sources := (sources hub)(i := s)\<rparr>))"

definition Source_Next :: "nat \<Rightarrow> 'e hub \<Rightarrow> ((hub_error + 'e) \<times> 'e hub) option" where
  "Source_Next i hub =
     (case source_Next (sources hub i) of
        None \<Rightarrow> None
      | Some (r, s) \<Rightarrow> Some (r, hub\<lparr>sources := (sources hub)(i := s)\<rparr>))"

section \<open>What a method does to each source\<close>

definition emit_source :: "'e \<Rightarrow> 'e source \<Rightarrow> 'e source" where
  "emit_source e s = snd (source_send e s)"

lemma source_send_cases:
  "source_send e s =
     (if sclosed s then (Some ErrSendToClosedSource, s)
      else if length (sevents s) < scap s then (None, s\<lparr>sevents := sevents s @ [e]\<rparr>)
      else (Some ErrSlowConsumer, s\<lparr>sclosed := True\<rparr>))"
  by (simp add: source_send_def source_Close_def)

definition takes :: "'e source \<Rightarrow> bool" where
  "takes s \<longleftrightarrow> \<not> sclosed s \<and> length (sevents s) < scap s"

lemma source_send_eq:
  "source_send e s =
     (if takes s then None else if sclosed s then Some ErrSendToClosedSource else Some ErrSlowConsumer,
      emit_source e s)"
  by (simp add: emit_source_def source_send_cases takes_def)

lemma emit_source_eq:
  "emit_source e s =
     (if takes s then s\<lparr>sevents := sevents s @ [e]\<rparr> else s\<lparr>sclosed := True\<rparr>)"
  by (auto simp: emit_source_def source_send_cases takes_def)

lemma send_each_sources:
  "distinct subs \<Longrightarrow>
   snd (send_each e subs srcs) i = (if i \<in> set subs then emit_source e (srcs i) else srcs i)"
  by (induction subs arbitrary: srcs) (auto simp: source_send_eq case_prod_beta)

lemma send_each_remaining:
  "distinct subs \<Longrightarrow> fst (send_each e subs srcs) = filter (\<lambda>i. takes (srcs i)) subs"
proof (induction subs arbitrary: srcs)
  case (Cons sub subs)
  have "filter (\<lambda>i. takes ((srcs(sub := emit_source e (srcs sub))) i)) subs =
        filter (\<lambda>i. takes (srcs i)) subs"
    using Cons.prems by (intro filter_cong) auto
  with Cons show ?case
    by (auto simp: source_send_eq case_prod_beta)
qed simp

lemma close_each_result:
  "close_each subs srcs i = (if i \<in> set subs then (srcs i)\<lparr>sclosed := True\<rparr> else srcs i)"
  by (induction subs arbitrary: srcs) (auto simp: source_Close_def)

section \<open>The hub's invariant\<close>

text \<open>
  An open source of the store is a subscriber, so the hub loses track of no consumer that still
  waits; every buffer stays within the hub's buffer size.
\<close>

definition hub_inv :: "'e hub \<Rightarrow> bool" where
  "hub_inv h \<longleftrightarrow>
     distinct (subscribers h) \<and>
     (\<forall>i\<in>set (subscribers h). i < nextSource h) \<and>
     (\<forall>i<nextSource h. scap (sources h i) = bufferSize h \<and>
        length (sevents (sources h i)) \<le> bufferSize h \<and>
        (\<not> sclosed (sources h i) \<longrightarrow> i \<in> set (subscribers h))) \<and>
     (hclosed h \<longrightarrow> subscribers h = [])"

definition hub_live :: "'e hub \<Rightarrow> nat set" where
  "hub_live h = {i. i < nextSource h \<and> \<not> sclosed (sources h i)}"

definition hub_pending :: "'e hub \<Rightarrow> nat \<Rightarrow> 'e list" where
  "hub_pending h i = sevents (sources h i)"

lemma hub_inv_New [simp]: "hub_inv (NewNonBlocking n)"
  by (simp add: hub_inv_def NewNonBlocking_def)

lemma Emit_fields [simp]:
  "bufferSize (Emit e h) = bufferSize h"
  "hclosed (Emit e h) = hclosed h"
  "nextSource (Emit e h) = nextSource h"
  by (simp_all add: Emit_def case_prod_beta)

lemma Emit_eq:
  assumes "hub_inv h"
  shows "subscribers (Emit e h) = filter (\<lambda>i. takes (sources h i)) (subscribers h)"
    and "sources (Emit e h) i =
           (if i \<in> set (subscribers h) then emit_source e (sources h i) else sources h i)"
  using assms
  by (simp_all add: Emit_def case_prod_beta hub_inv_def send_each_remaining send_each_sources)

lemma hub_inv_Emit: "hub_inv h \<Longrightarrow> hub_inv (Emit e h)"
  unfolding hub_inv_def [of "Emit e h"]
  by (auto simp: Emit_eq emit_source_eq takes_def hub_inv_def)

lemma hub_inv_Subscribe: "hub_inv h \<Longrightarrow> Subscribe h = (r, h') \<Longrightarrow> hub_inv h'"
  by (auto simp: Subscribe_def hub_inv_def newSource_def Let_def less_Suc_eq split: if_splits)

lemma hub_inv_Close: "hub_inv h \<Longrightarrow> Hub_Close h = (r, h') \<Longrightarrow> hub_inv h'"
  by (auto simp: Hub_Close_def hub_inv_def closeSubscribers_def close_each_result split: if_splits)

lemma hub_inv_Source_Close: "hub_inv h \<Longrightarrow> Source_Close i h = (r, h') \<Longrightarrow> hub_inv h'"
  by (auto simp: Source_Close_def source_Close_def hub_inv_def split: if_splits)

lemma hub_inv_Source_Next: "hub_inv h \<Longrightarrow> Source_Next i h = Some (r, h') \<Longrightarrow> hub_inv h'"
  by (fastforce simp: Source_Next_def source_Next_def hub_inv_def
      split: option.splits list.splits if_splits prod.splits)

section \<open>The contract of a hub\<close>

text \<open>
  What the clients of the \<open>Hub\<close> interface rely on when they emit: an event reaches every live
  subscriber that has room, behind what is pending there; a full subscriber is cut off with its
  pending events intact.
\<close>

locale event_hub =
  fixes emit :: "'e \<Rightarrow> 'h \<Rightarrow> 'h"
    and live :: "'h \<Rightarrow> nat set"
    and pending :: "'h \<Rightarrow> nat \<Rightarrow> 'e list"
    and room :: "'h \<Rightarrow> nat"
    and inv :: "'h \<Rightarrow> bool"
  assumes emit_inv: "inv h \<Longrightarrow> inv (emit e h)"
    and emit_room: "inv h \<Longrightarrow> room (emit e h) = room h"
    and emit_deliver:
      "inv h \<Longrightarrow> i \<in> live h \<Longrightarrow> length (pending h i) < room h \<Longrightarrow>
       i \<in> live (emit e h) \<and> pending (emit e h) i = pending h i @ [e]"
    and emit_slow:
      "inv h \<Longrightarrow> i \<in> live h \<Longrightarrow> length (pending h i) = room h \<Longrightarrow>
       i \<notin> live (emit e h) \<and> pending (emit e h) i = pending h i"
    and emit_dead:
      "inv h \<Longrightarrow> i \<notin> live h \<Longrightarrow> i \<notin> live (emit e h) \<and> pending (emit e h) i = pending h i"
begin

lemma emits_inv: "inv h \<Longrightarrow> inv (fold emit es h)"
  by (induction es arbitrary: h) (auto simp: emit_inv)

text \<open>A live subscriber with enough room gets a batch of events in the order of emission.\<close>

lemma emits_deliver:
  "inv h \<Longrightarrow> i \<in> live h \<Longrightarrow> length (pending h i) + length es \<le> room h \<Longrightarrow>
   i \<in> live (fold emit es h) \<and> pending (fold emit es h) i = pending h i @ es"
proof (induction es arbitrary: h)
  case (Cons e es)
  then have "i \<in> live (emit e h) \<and> pending (emit e h) i = pending h i @ [e]"
    by (intro emit_deliver) auto
  with Cons show ?case
    by (simp add: emit_inv emit_room)
qed simp

text \<open>Whatever happens, what was pending stays a prefix of what is pending.\<close>

lemma emits_prefix:
  "inv h \<Longrightarrow> length (pending h i) \<le> room h \<Longrightarrow> prefix (pending h i) (pending (fold emit es h) i)"
proof (induction es arbitrary: h)
  case (Cons e es)
  consider "i \<in> live h" "length (pending h i) < room h" | "i \<in> live h" "length (pending h i) = room h"
    | "i \<notin> live h"
    using Cons.prems by fastforce
  then have *: "prefix (pending h i) (pending (emit e h) i) \<and> length (pending (emit e h) i) \<le> room h"
    by cases (use Cons.prems emit_deliver emit_slow emit_dead in auto)
  with Cons have "prefix (pending (emit e h) i) (pending (fold emit es (emit e h)) i)"
    by (intro Cons.IH) (auto simp: emit_inv emit_room)
  with * show ?case
    by (auto intro: prefix_order.trans)
qed simp

end

interpretation nb: event_hub Emit hub_live hub_pending bufferSize hub_inv
proof
  fix h :: "'e hub" and e
  assume inv: "hub_inv h"
  show "hub_inv (Emit e h)"
    using inv by (rule hub_inv_Emit)
  show "bufferSize (Emit e h) = bufferSize h"
    by simp
  fix i
  show "i \<notin> hub_live h \<Longrightarrow> i \<notin> hub_live (Emit e h) \<and> hub_pending (Emit e h) i = hub_pending h i"
    using inv by (auto simp: hub_live_def hub_pending_def Emit_eq emit_source_eq takes_def hub_inv_def)
  assume live: "i \<in> hub_live h"
  then have sub: "i \<in> set (subscribers h)" "scap (sources h i) = bufferSize h"
    using inv by (auto simp: hub_live_def hub_inv_def)
  show "length (hub_pending h i) < bufferSize h \<Longrightarrow>
      i \<in> hub_live (Emit e h) \<and> hub_pending (Emit e h) i = hub_pending h i @ [e]"
    using inv live sub
    by (auto simp: hub_live_def hub_pending_def Emit_eq emit_source_eq takes_def)
  show "length (hub_pending h i) = bufferSize h \<Longrightarrow>
      i \<notin> hub_live (Emit e h) \<and> hub_pending (Emit e h) i = hub_pending h i"
    using inv live sub
    by (auto simp: hub_live_def hub_pending_def Emit_eq emit_source_eq takes_def)
qed

section \<open>Runs of a hub\<close>

text \<open>
  The runs of a hub and its consumers: \<open>sent i\<close> is what was emitted since source \<open>i\<close> subscribed,
  \<open>got i\<close> what its consumer has read.
\<close>

inductive hub_run :: "nat \<Rightarrow> 'e hub \<Rightarrow> (nat \<Rightarrow> 'e list) \<Rightarrow> (nat \<Rightarrow> 'e list) \<Rightarrow> bool"
  for n :: nat where
  run_start: "hub_run n (NewNonBlocking n) (\<lambda>_. []) (\<lambda>_. [])"
| run_subscribe: "hub_run n h sent got \<Longrightarrow> Subscribe h = (r, h') \<Longrightarrow> hub_run n h' sent got"
| run_emit:
    "hub_run n h sent got \<Longrightarrow>
     hub_run n (Emit e h) (\<lambda>i. if i < nextSource h then sent i @ [e] else sent i) got"
| run_close: "hub_run n h sent got \<Longrightarrow> Hub_Close h = (r, h') \<Longrightarrow> hub_run n h' sent got"
| run_cancel:
    "hub_run n h sent got \<Longrightarrow> i < nextSource h \<Longrightarrow> Source_Close i h = (r, h') \<Longrightarrow>
     hub_run n h' sent got"
| run_read:
    "hub_run n h sent got \<Longrightarrow> i < nextSource h \<Longrightarrow> Source_Next i h = Some (Inr e, h') \<Longrightarrow>
     hub_run n h' sent (got(i := got i @ [e]))"
| run_end:
    "hub_run n h sent got \<Longrightarrow> i < nextSource h \<Longrightarrow> Source_Next i h = Some (Inl err, h') \<Longrightarrow>
     hub_run n h' sent got"

definition fifo :: "'e hub \<Rightarrow> (nat \<Rightarrow> 'e list) \<Rightarrow> (nat \<Rightarrow> 'e list) \<Rightarrow> bool" where
  "fifo h sent got \<longleftrightarrow>
     (\<forall>i<nextSource h. prefix (got i @ hub_pending h i) (sent i) \<and>
        (\<not> sclosed (sources h i) \<longrightarrow> got i @ hub_pending h i = sent i)) \<and>
     (\<forall>i\<ge>nextSource h. sent i = [] \<and> got i = [])"

lemma fifo_emit:
  assumes inv: "hub_inv h" and fifo: "fifo h sent got"
  shows "fifo (Emit e h) (\<lambda>i. if i < nextSource h then sent i @ [e] else sent i) got"
proof -
  have "prefix (got i @ hub_pending (Emit e h) i) (sent i @ [e]) \<and>
      (\<not> sclosed (sources (Emit e h) i) \<longrightarrow> got i @ hub_pending (Emit e h) i = sent i @ [e])"
    if i: "i < nextSource h" for i
  proof (cases "takes (sources h i)")
    case True
    then have "i \<in> set (subscribers h)" and "got i @ hub_pending h i = sent i"
      using inv fifo i by (auto simp: hub_inv_def fifo_def takes_def)
    with True inv show ?thesis
      by (auto simp: hub_pending_def Emit_eq emit_source_eq simp flip: append_assoc)
  next
    case False
    have "sclosed (sources (Emit e h) i)"
      using inv i False by (auto simp: Emit_eq emit_source_eq hub_inv_def)
    moreover have "hub_pending (Emit e h) i = hub_pending h i"
      using inv False by (simp add: hub_pending_def Emit_eq emit_source_eq)
    moreover have "prefix (got i @ hub_pending h i) (sent i)"
      using fifo i by (simp add: fifo_def)
    ultimately show ?thesis
      by (auto simp: prefix_def)
  qed
  with fifo show ?thesis
    by (simp add: fifo_def)
qed

lemma fifo_subscribe:
  "fifo h sent got \<Longrightarrow> Subscribe h = (r, h') \<Longrightarrow> fifo h' sent got"
  by (auto simp: Subscribe_def fifo_def hub_pending_def newSource_def Let_def less_Suc_eq
      split: if_splits)

lemma fifo_close:
  "fifo h sent got \<Longrightarrow> Hub_Close h = (r, h') \<Longrightarrow> fifo h' sent got"
  by (auto simp: Hub_Close_def fifo_def hub_pending_def closeSubscribers_def close_each_result
      split: if_splits)

lemma fifo_cancel:
  "fifo h sent got \<Longrightarrow> Source_Close i h = (r, h') \<Longrightarrow> fifo h' sent got"
  by (auto simp: Source_Close_def source_Close_def fifo_def hub_pending_def split: if_splits)

lemma fifo_read:
  "fifo h sent got \<Longrightarrow> i < nextSource h \<Longrightarrow> Source_Next i h = Some (Inr e, h') \<Longrightarrow>
   fifo h' sent (got(i := got i @ [e]))"
  by (auto simp: Source_Next_def source_Next_def fifo_def hub_pending_def
      split: option.splits list.splits if_splits)

lemma fifo_end:
  "fifo h sent got \<Longrightarrow> Source_Next i h = Some (Inl err, h') \<Longrightarrow> fifo h' sent got"
  by (auto simp: Source_Next_def source_Next_def fifo_def hub_pending_def
      split: option.splits list.splits if_splits)

lemma bufferSize_frame [simp]:
  "Subscribe h = (r, h') \<Longrightarrow> bufferSize h' = bufferSize h"
  "Hub_Close h = (r', h') \<Longrightarrow> bufferSize h' = bufferSize h"
  "Source_Close i h = (r', h') \<Longrightarrow> bufferSize h' = bufferSize h"
  "Source_Next i h = Some (x, h') \<Longrightarrow> bufferSize h' = bufferSize h"
  by (auto simp: Subscribe_def Hub_Close_def closeSubscribers_def Source_Close_def Source_Next_def
      Let_def split: if_splits prod.splits option.splits)

lemma hub_run_inv:
  "hub_run n h sent got \<Longrightarrow> hub_inv h \<and> bufferSize h = n \<and> fifo h sent got"
proof (induction rule: hub_run.induct)
  case run_start
  show ?case
    by (simp add: fifo_def hub_pending_def) (simp add: NewNonBlocking_def)
next
  case (run_subscribe h sent got r h')
  then show ?case
    using hub_inv_Subscribe fifo_subscribe bufferSize_frame(1) by metis
next
  case (run_emit h sent got e)
  then show ?case
    by (simp add: hub_inv_Emit fifo_emit)
next
  case (run_close h sent got r h')
  then show ?case
    using hub_inv_Close fifo_close bufferSize_frame(2) by metis
next
  case (run_cancel h sent got i r h')
  then show ?case
    using hub_inv_Source_Close fifo_cancel bufferSize_frame(3) by metis
next
  case (run_read h sent got i e h')
  then show ?case
    using hub_inv_Source_Next fifo_read bufferSize_frame(4) by metis
next
  case (run_end h sent got i err h')
  then show ?case
    using hub_inv_Source_Next fifo_end bufferSize_frame(4) by metis
qed

text \<open>
  (C12) In every run of an event hub, what a subscriber has read followed by what is buffered for it
  is a prefix of what was emitted since it subscribed (nothing lost in between, duplicated or
  reordered), it is all of it as long as the source is open, and the buffer never outgrows the
  hub's buffer size.
\<close>

theorem hub_delivers_in_order:
  assumes "hub_run n h sent got" and "i < nextSource h"
  shows "prefix (got i @ hub_pending h i) (sent i) \<and>
    (sclosed (sources h i) \<or> got i @ hub_pending h i = sent i) \<and>
    length (hub_pending h i) \<le> n"
  using hub_run_inv [OF assms(1)] assms(2) by (auto simp: fifo_def hub_inv_def hub_pending_def)

theorem hub_delivers_in_order_witness:
  "\<exists>h sent got. hub_run 2 h sent got \<and> 0 < nextSource h \<and>
     prefix (got 0 @ hub_pending h 0) (sent 0 :: nat list) \<and> sent 0 = [7, 8]"
proof -
  let ?h0 = "NewNonBlocking 2 :: nat hub"
  let ?h1 = "snd (Subscribe ?h0)"
  have "hub_run 2 ?h1 (\<lambda>_. []) (\<lambda>_. [])"
    by (rule run_subscribe [OF run_start prod.collapse [symmetric]])
  from run_emit [OF run_emit [OF this, of 7], of 8]
  have run: "hub_run 2 (Emit 8 (Emit 7 ?h1)) (\<lambda>i. if i < 1 then [7, 8] else []) (\<lambda>_. [])"
    by (simp add: Subscribe_def NewNonBlocking_def if_distrib cong: if_cong)
  have n: "0 < nextSource (Emit 8 (Emit 7 ?h1))"
    by (simp add: Subscribe_def NewNonBlocking_def)
  show ?thesis
    by (rule exI, rule exI, rule exI, intro conjI, rule run, rule n)
      (use hub_delivers_in_order [OF run n] in simp_all)
qed

end
