(* ===== verification/Json.thy ===== *)
theory Json
  imports Router_Groups
begin

text \<open>
  The JSON that the program writes with \<open>encoding/json\<close>: the values it marshals and their text, with
  the escaping of Go's encoder, and the marshalled form of the models that the struct tags
  determine (field names, \<open>omitempty\<close>, fields tagged \<open>-\<close>, embedded structs).
\<close>

section \<open>Values and their text\<close>

datatype json =
    JNull
  | JBool bool
  | JNum int
  | JStr string
  | JArr "json list"
  | JObj "(string \<times> json) list"

definition byte_in :: "nat \<Rightarrow> nat \<Rightarrow> char \<Rightarrow> bool" where
  "byte_in lo hi c \<longleftrightarrow> lo \<le> (of_char c :: nat) \<and> (of_char c :: nat) \<le> hi"

definition is_cont :: "char \<Rightarrow> bool" where
  "is_cont c \<longleftrightarrow> byte_in 128 191 c"

text \<open>
  The length of the well-formed UTF-8 sequence at the head of a byte string, or 0 if there is none
  (\<open>utf8.DecodeRune\<close> then reports an error of width 1).
\<close>

fun rune_len :: "string \<Rightarrow> nat" where
  "rune_len [] = 0"
| "rune_len (a # s) =
     (if byte_in 0 127 a then 1
      else if byte_in 194 223 a then
        (case s of b # _ \<Rightarrow> if is_cont b then 2 else 0 | _ \<Rightarrow> 0)
      else if byte_in 224 239 a then
        (case s of
           b # c # _ \<Rightarrow>
             if (if byte_in 224 224 a then byte_in 160 191 b
                 else if byte_in 237 237 a then byte_in 128 159 b else is_cont b) \<and> is_cont c
             then 3 else 0
         | _ \<Rightarrow> 0)
      else if byte_in 240 244 a then
        (case s of
           b # c # d # _ \<Rightarrow>
             if (if byte_in 240 240 a then byte_in 144 191 b
                 else if byte_in 244 244 a then byte_in 128 143 b else is_cont b) \<and>
                is_cont c \<and> is_cont d
             then 4 else 0
         | _ \<Rightarrow> 0)
      else 0)"

definition hex_digit :: "nat \<Rightarrow> char" where
  "hex_digit n = (if n < 10 then char_of (48 + n) else char_of (87 + n))"

text \<open>
  One ASCII byte as Go's encoder writes it: the quote, the backslash and the control bytes are
  escaped, and so are the three characters that are special in HTML.
\<close>

definition escape_ascii :: "char \<Rightarrow> string" where
  "escape_ascii c =
     (let n = (of_char c :: nat); bs = CHR 0x5C
      in if n = 34 then [bs, CHR 0x22]
         else if n = 92 then [bs, bs]
         else if n = 8 then [bs, CHR ''b'']
         else if n = 12 then [bs, CHR ''f'']
         else if n = 10 then [bs, CHR ''n'']
         else if n = 13 then [bs, CHR ''r'']
         else if n = 9 then [bs, CHR ''t'']
         else if n < 32 \<or> n = 60 \<or> n = 62 \<or> n = 38
           then [bs, CHR ''u'', CHR ''0'', CHR ''0'', hex_digit (n div 16), hex_digit (n mod 16)]
         else [c])"

text \<open>The two Unicode line separators, which the encoder escapes.\<close>

definition line_separator :: "string \<Rightarrow> nat option" where
  "line_separator s =
     (case s of
        a # b # c # _ \<Rightarrow>
          if byte_in 226 226 a \<and> byte_in 128 128 b \<and> byte_in 168 169 c
          then Some (of_char c - 160) else None
      | _ \<Rightarrow> None)"

text \<open>The argument \<open>k\<close> counts the bytes of a longer sequence still to be copied.\<close>

fun escape :: "nat \<Rightarrow> string \<Rightarrow> string" where
  "escape k [] = []"
| "escape (Suc k) (c # s) = c # escape k s"
| "escape 0 (c # s) =
     (case rune_len (c # s) of
        0 \<Rightarrow> [CHR 0x5C] @ ''ufffd'' @ escape 0 s
      | Suc 0 \<Rightarrow> escape_ascii c @ escape 0 s
      | Suc k \<Rightarrow>
          (case line_separator (c # s) of
             Some d \<Rightarrow> [CHR 0x5C] @ ''u202'' @ [hex_digit d] @ escape 0 (drop 2 s)
           | None \<Rightarrow> c # escape k s))"

definition json_string :: "string \<Rightarrow> string" where
  "json_string s = [CHR 0x22] @ escape 0 s @ [CHR 0x22]"

fun json_text :: "json \<Rightarrow> string" where
  "json_text JNull = ''null''"
| "json_text (JBool b) = format_bool b"
| "json_text (JNum n) = Itoa n"
| "json_text (JStr s) = json_string s"
| "json_text (JArr js) = ''['' @ Join (map json_text js) '','' @ '']''"
| "json_text (JObj kvs) =
     ''{'' @ Join (map (\<lambda>(k, v). json_string k @ '':'' @ json_text v) kvs) '','' @ ''}''"

section \<open>Marshalling the models\<close>

text \<open>A field with \<open>omitempty\<close> is left out when its value is the zero value of its type.\<close>

definition omitempty :: "bool \<Rightarrow> string \<times> json \<Rightarrow> (string \<times> json) list" where
  "omitempty isZero kv = (if isZero then [] else [kv])"

definition json_ptr :: "('a \<Rightarrow> json) \<Rightarrow> 'a option \<Rightarrow> json" where
  "json_ptr f p = (case p of None \<Rightarrow> JNull | Some x \<Rightarrow> f x)"

definition ModificationTag_json :: "ModificationTag \<Rightarrow> json" where
  "ModificationTag_json t = JObj [(''guid'', JStr (tagGuid t)), (''index'', JNum (uint (tagIndex t)))]"

definition Route_json :: "Route \<Rightarrow> json" where
  "Route_json r =
     (let e = rEntity r
      in JObj ([(''route'', JStr (reRoute e)),
                (''port'', JNum (uint (rePort e))),
                (''ip'', JStr (reIP e)),
                (''ttl'', json_ptr JNum (reTTL e)),
                (''log_guid'', JStr (reLogGuid e))] @
               omitempty (reRouteServiceUrl e = []) (''route_service_url'', JStr (reRouteServiceUrl e)) @
               [(''modification_tag'', ModificationTag_json (reModificationTag e))]))"

definition TcpRouteMapping_json :: "TcpRouteMapping \<Rightarrow> json" where
  "TcpRouteMapping_json t =
     (let e = tEntity t
      in JObj ([(''router_group_guid'', JStr (teRouterGroupGuid e)),
                (''backend_port'', JNum (uint (teHostPort e))),
                (''backend_tls_port'', JNum (teHostTLSPort e)),
                (''backend_ip'', JStr (teHostIP e))] @
               omitempty (teSniHostname e = None)
                 (''backend_sni_hostname'', json_ptr JStr (teSniHostname e)) @
               omitempty (teSniRewriteHostname e = None)
                 (''sni_rewrite_hostname'', json_ptr JStr (teSniRewriteHostname e)) @
               [(''instance_id'', JStr (teInstanceId e)),
                (''port'', JNum (uint (teExternalPort e))),
                (''modification_tag'', ModificationTag_json (teModificationTag e))] @
               omitempty (teTTL e = None) (''ttl'', json_ptr JNum (teTTL e)) @
               [(''isolation_segment'', JStr (teIsolationSegment e))] @
               omitempty (\<not> teTerminateFrontendTLS e)
                 (''terminate_frontend_tls'', JBool (teTerminateFrontendTLS e)) @
               omitempty (teALPNs e = []) (''alpns'', JStr (teALPNs e)) @
               omitempty (\<not> teEnableBackendMTLS e)
                 (''enable_backend_mtls'', JBool (teEnableBackendMTLS e))))"

definition RouterGroup_json :: "RouterGroup \<Rightarrow> json" where
  "RouterGroup_json g =
     JObj [(''guid'', JStr (rgGuid g)), (''name'', JStr (rgName g)), (''type'', JStr (rgType g)),
           (''reservable_ports'', JStr (rgReservablePorts g))]"

text \<open>\<open>routing_api.Error\<close>, and \<open>json.Marshal\<close>, which cannot fail on these values.\<close>

definition Error_json :: "string \<times> string \<Rightarrow> json" where
  "Error_json e = JObj [(''name'', JStr (fst e)), (''message'', JStr (snd e))]"

definition Marshal :: "json \<Rightarrow> string" where
  "Marshal j = json_text j"

section \<open>A marshalled text has no control characters\<close>

definition printable :: "char \<Rightarrow> bool" where
  "printable c \<longleftrightarrow> 32 \<le> (of_char c :: nat)"

lemma printable_hex: "n < 16 \<Longrightarrow> printable (hex_digit n)"
  by (simp add: printable_def hex_digit_def)

lemma printable_escape_ascii: "list_all printable (escape_ascii c)"
proof -
  have "(of_char c :: nat) < 256"
    by simp
  then have "of_char c div 16 < (16 :: nat)"
    by linarith
  then show ?thesis
    by (simp add: escape_ascii_def Let_def printable_hex) (simp add: printable_def)
qed

lemma rune_len_bytes:
  "rune_len (a # s) = Suc (Suc k) \<Longrightarrow> 128 \<le> (of_char a :: nat) \<and> (\<forall>c\<in>set (take (Suc k) s). 128 \<le> (of_char c :: nat))"
  by (auto simp: byte_in_def is_cont_def split: if_splits list.splits)

lemma printable_escape:
  "(\<forall>c\<in>set (take k s). 128 \<le> (of_char c :: nat)) \<Longrightarrow> list_all printable (escape k s)"
proof (induction k s rule: escape.induct)
  case (2 k c s)
  then show ?case by (simp add: printable_def)
next
  case (3 c s)
  show ?case
  proof (cases "rune_len (c # s)")
    case 0
    with 3 show ?thesis by (simp add: printable_def)
  next
    case (Suc n)
    show ?thesis
    proof (cases n)
      case 0
      with 3 Suc show ?thesis by (simp add: printable_escape_ascii)
    next
      case (Suc k)
      note len = \<open>rune_len (c # s) = Suc n\<close> [unfolded Suc]
      note b = rune_len_bytes [OF len]
      show ?thesis
      proof (cases "line_separator (c # s)")
        case None
        with 3 len b show ?thesis by (simp add: printable_def)
      next
        case (Some d)
        then have "d < 16"
          by (auto simp: line_separator_def byte_in_def split: list.splits if_splits)
        with 3 len Some show ?thesis by (simp add: printable_hex) (simp add: printable_def)
      qed
    qed
  qed
qed simp


lemma printable_string: "list_all printable (json_string s)"
  using printable_escape [of 0 s] by (simp add: json_string_def) (simp add: printable_def)

lemma printable_digits: "list_all printable (nat_digits n)"
  using nat_digits_all_digits [of n] by (auto simp: list_all_iff is_digit_def printable_def)

lemma printable_Join:
  "(\<And>p. p \<in> set ps \<Longrightarrow> list_all printable p) \<Longrightarrow> list_all printable sep \<Longrightarrow> list_all printable (Join ps sep)"
  by (induction ps sep rule: Join.induct) auto

lemma printable_punctuation [simp]:
  "printable (CHR '','')" "printable (CHR '':'')" "printable (CHR ''['')" "printable (CHR '']'')"
  "printable (CHR ''{'')" "printable (CHR ''}'')" "printable (CHR ''-'')"
  by (simp_all add: printable_def)

lemma json_text_printable: "list_all printable (json_text j)"
proof (induction j rule: json_text.induct)
  case (3 n)
  then show ?case by (simp add: Itoa_def printable_digits)
next
  case (5 js)
  then have "list_all printable (Join (map json_text js) '','')"
    by (intro printable_Join) auto
  then show ?case by simp
next
  case (6 kvs)
  have "list_all printable (Join (map (\<lambda>(k, v). json_string k @ '':'' @ json_text v) kvs) '','')"
    using 6 by (intro printable_Join) (auto simp: printable_string)
  then show ?case by simp
qed (simp_all add: printable_string, simp_all add: format_bool_def printable_def)

end
