(* ===== verification/Sql_Db.thy ===== *)
theory Sql_Db
  imports Sql_Engine Event_Hub Json
begin

text \<open>
  The routing table in the database: \<open>db/db_sql.go\<close>, \<open>db/event.go\<close> and \<open>db/errors.go\<close>. A value of
  type \<open>SqlDB\<close> carries the state behind the Go struct: the tables, the two event hubs and the
  backup lock, with the clock and the random source the operations read; the client is an
  argument of the operations. The operations on HTTP routes, TCP route mappings and router groups
  come first, then pruning and watching.
\<close>

section \<open>Events\<close>

datatype EventType = InvalidEvent | CreateEvent | DeleteEvent | ExpireEvent | UpdateEvent

record Event =
  evType :: EventType
  evValue :: string

definition EventType_String :: "EventType \<Rightarrow> string" where
  "EventType_String e =
     (case e of
        CreateEvent \<Rightarrow> ''Upsert''
      | UpdateEvent \<Rightarrow> ''Upsert''
      | DeleteEvent \<Rightarrow> ''Delete''
      | ExpireEvent \<Rightarrow> ''Delete''
      | InvalidEvent \<Rightarrow> ''Invalid'')"

text \<open>The values of interface type that are given to \<open>emitEvent\<close>.\<close>

datatype event_obj = RouteObj Route | TcpObj TcpRouteMapping | OtherObj json

primrec obj_json :: "event_obj \<Rightarrow> json" where
  "obj_json (RouteObj r) = Route_json r"
| "obj_json (TcpObj t) = TcpRouteMapping_json t"
| "obj_json (OtherObj j) = j"

definition NewEventFromInterface :: "EventType \<Rightarrow> event_obj \<Rightarrow> Event go" where
  "NewEventFromInterface eventType obj =
     Ok \<lparr>evType = eventType, evValue = Marshal (obj_json obj)\<rparr>"

section \<open>The state\<close>

record rwLocker =
  readLock :: uint32
  writeLock :: uint32

definition isReadLocked :: "rwLocker \<Rightarrow> bool" where
  "isReadLocked l = (readLock l \<noteq> 0)"

definition isWriteLocked :: "rwLocker \<Rightarrow> bool" where
  "isWriteLocked l = (writeLock l \<noteq> 0)"

definition lockReads :: "rwLocker \<Rightarrow> rwLocker" where
  "lockReads l = l\<lparr>readLock := 1\<rparr>"

definition lockWrites :: "rwLocker \<Rightarrow> rwLocker" where
  "lockWrites l = l\<lparr>writeLock := 1\<rparr>"

definition unlockReads :: "rwLocker \<Rightarrow> rwLocker" where
  "unlockReads l = l\<lparr>readLock := 0\<rparr>"

definition unlockWrites :: "rwLocker \<Rightarrow> rwLocker" where
  "unlockWrites l = l\<lparr>writeLock := 0\<rparr>"

record 's SqlDB =
  store :: 's
  tcpEventHub :: "Event hub"
  httpEventHub :: "Event hub"
  locker :: rwLocker
  env :: world

abbreviation sql :: "('s, 'a) action \<Rightarrow> ('s SqlDB, 'a) action" where
  "sql m \<equiv> zoom store store_update m"

abbreviation outside :: "(world, 'a) action \<Rightarrow> ('s SqlDB, 'a) action" where
  "outside m \<equiv> zoom env env_update m"

text \<open>The struct \<open>NewSqlDB\<close> returns for an open database: two hubs that buffer 1024 events, no lock held.\<close>

definition NewSqlDB_value :: "'s \<Rightarrow> world \<Rightarrow> 's SqlDB" where
  "NewSqlDB_value s w =
     \<lparr>store = s, tcpEventHub = NewNonBlocking 1024, httpEventHub = NewNonBlocking 1024,
      locker = \<lparr>readLock = 0, writeLock = 0\<rparr>, env = w\<rparr>"

definition backupError :: go_error where
  "backupError = ErrorString ''database unavailable due to backup or restore''"

definition DeleteRouteError :: go_error where
  "DeleteRouteError = DBError ''KeyNotFound'' ''Delete Fails: Route does not exist''"

definition DeleteRouterGroupError :: go_error where
  "DeleteRouterGroupError = DBError ''KeyNotFound'' ''Delete Fails: Router Group does not exist''"

definition recordNotFound :: "go_error \<Rightarrow> bool" where
  "recordNotFound err = (err = ErrRecordNotFound)"

definition emitEvent :: "EventType \<Rightarrow> event_obj \<Rightarrow> ('s SqlDB, unit) action" where
  "emitEvent eventType obj =
     bindE (liftE (NewEventFromInterface eventType obj)) (\<lambda>event.
     case obj of
       RouteObj _ \<Rightarrow> modifyE (httpEventHub_update (Emit event))
     | TcpObj _ \<Rightarrow> modifyE (tcpEventHub_update (Emit event))
     | OtherObj _ \<Rightarrow> failE (ErrorString ''unknown event type''))"

section \<open>Router groups\<close>

definition ReadRouterGroups :: "'s gormClient \<Rightarrow> ('s SqlDB, RouterGroup list) action" where
  "ReadRouterGroups c =
     bindE (getE (\<lambda>d. isReadLocked (locker d))) (\<lambda>locked.
     if locked then failE backupError
     else bindE (sql (Client_Find c router_groups_tbl [])) (\<lambda>routerGroupsDB.
          returnE (ToRouterGroups routerGroupsDB)))"

definition ReadRouterGroup :: "'s gormClient \<Rightarrow> string \<Rightarrow> ('s SqlDB, RouterGroup) action" where
  "ReadRouterGroup c guid =
     bindE (getE (\<lambda>d. isReadLocked (locker d))) (\<lambda>locked.
     if locked then failE backupError
     else tryE (sql (Client_First (Client_Where c [CEq ''guid'' (VStr guid)]) router_groups_tbl []))
       (\<lambda>result. case result of
          Inr routerGroupDB \<Rightarrow> returnE (ToRouterGroup routerGroupDB)
        | Inl err \<Rightarrow> if recordNotFound err then returnE zero_RouterGroup else failE err))"

definition ReadRouterGroupByName :: "'s gormClient \<Rightarrow> string \<Rightarrow> ('s SqlDB, RouterGroup) action" where
  "ReadRouterGroupByName c name =
     bindE (getE (\<lambda>d. isReadLocked (locker d))) (\<lambda>locked.
     if locked then failE backupError
     else tryE (sql (Client_First (Client_Where c [CEq ''name'' (VStr name)]) router_groups_tbl []))
       (\<lambda>result. case result of
          Inr routerGroupDB \<Rightarrow> returnE (ToRouterGroup routerGroupDB)
        | Inl err \<Rightarrow> if recordNotFound err then returnE zero_RouterGroup else failE err))"

definition updateRouterGroup :: "RouterGroup \<Rightarrow> RouterGroup \<Rightarrow> RouterGroup" where
  "updateRouterGroup existing current =
     (let e1 = (if rgType current \<noteq> [] then existing\<lparr>rgType := rgType current\<rparr> else existing);
          e2 = (if rgName current \<noteq> [] then e1\<lparr>rgName := rgName current\<rparr> else e1)
      in e2\<lparr>rgReservablePorts := rgReservablePorts current\<rparr>)"

definition SaveRouterGroup :: "'s gormClient \<Rightarrow> RouterGroup \<Rightarrow> ('s SqlDB, unit) action" where
  "SaveRouterGroup c routerGroup =
     bindE (getE (\<lambda>d. isWriteLocked (locker d))) (\<lambda>locked.
     if locked then failE backupError
     else bindE (ReadRouterGroup c (rgGuid routerGroup)) (\<lambda>existing.
       if rgGuid existing = rgGuid routerGroup
       then bindE (sql (Client_Save c router_groups_tbl
              (NewRouterGroupDB (updateRouterGroup existing routerGroup)))) (\<lambda>_. returnE ())
       else bindE (sql (Client_Create c router_groups_tbl (NewRouterGroupDB routerGroup)))
              (\<lambda>_. returnE ())))"

definition DeleteRouterGroup :: "'s gormClient \<Rightarrow> string \<Rightarrow> ('s SqlDB, unit) action" where
  "DeleteRouterGroup c guid =
     bindE (getE (\<lambda>d. isWriteLocked (locker d))) (\<lambda>locked.
     if locked then failE backupError
     else bindE (ReadRouterGroup c guid) (\<lambda>routerGroup.
       if routerGroup = zero_RouterGroup then failE DeleteRouterGroupError
       else bindE (sql (Client_Delete (Client_Where c [CEq ''guid'' (VStr guid)])
                          router_groups_tbl zero_RouterGroupDB [])) (\<lambda>_. returnE ())))"

definition LockRouterGroupReads :: "('s SqlDB, unit) action" where
  "LockRouterGroupReads = modifyE (locker_update lockReads)"

definition LockRouterGroupWrites :: "('s SqlDB, unit) action" where
  "LockRouterGroupWrites = modifyE (locker_update lockWrites)"

definition UnlockRouterGroupReads :: "('s SqlDB, unit) action" where
  "UnlockRouterGroupReads = modifyE (locker_update unlockReads)"

definition UnlockRouterGroupWrites :: "('s SqlDB, unit) action" where
  "UnlockRouterGroupWrites = modifyE (locker_update unlockWrites)"

section \<open>HTTP routes\<close>

definition updateRoute :: "Route \<Rightarrow> Route \<Rightarrow> (world, Route) action" where
  "updateRoute existingRoute currentRoute =
     (let e = rEntity existingRoute; c = rEntity currentRoute;
          e1 = e\<lparr>reModificationTag := Increment (reModificationTag e)\<rparr>;
          e2 = (if reTTL c \<noteq> None then e1\<lparr>reTTL := reTTL c\<rparr> else e1);
          e3 = (if reLogGuid c \<noteq> [] then e2\<lparr>reLogGuid := reLogGuid c\<rparr> else e2)
      in bindE time_Now (\<lambda>now.
         bindE (liftE (deref (reTTL e3))) (\<lambda>ttl.
         returnE (existingRoute\<lparr>rEntity := e3, rExpiresAt := now + seconds ttl\<rparr>))))"

definition ReadRoutes :: "'s gormClient \<Rightarrow> ('s SqlDB, Route list) action" where
  "ReadRoutes c =
     bindE (outside time_Now) (\<lambda>now.
     sql (Client_Find (Client_Where c [CGt ''expires_at'' (VTime now)]) routes_tbl []))"

definition route_where :: "Route \<Rightarrow> cond list" where
  "route_where route =
     (let e = rEntity route
      in [CEq ''route'' (VStr (reRoute e)), CEq ''ip'' (VStr (reIP e)),
          CEq ''port'' (VInt (uint (rePort e))),
          CEq ''route_service_url'' (VStr (reRouteServiceUrl e))])"

definition readRoute :: "'s gormClient \<Rightarrow> Route \<Rightarrow> ('s SqlDB, Route) action" where
  "readRoute c route =
     bindE (sql (Client_Find (Client_Where c (route_where route)) routes_tbl [])) (\<lambda>routes.
     if length routes > 1 then failE (ErrorString ''have duplicate routes'')
     else if length routes = 1 then returnE (routes ! 0)
     else returnE zero_Route)"

text \<open>\<open>SaveRoute\<close> after its read, which another request may overtake.\<close>

definition SaveRoute_write :: "'s gormClient \<Rightarrow> Route \<Rightarrow> Route \<Rightarrow> ('s SqlDB, unit) action" where
  "SaveRoute_write c route existingRoute =
     (if existingRoute \<noteq> zero_Route
      then bindE (outside (updateRoute existingRoute route)) (\<lambda>newRoute.
           bindE (sql (Client_Save c routes_tbl newRoute)) (\<lambda>_.
           emitEvent UpdateEvent (RouteObj newRoute)))
      else bindE (outside (NewRouteWithModel route)) (\<lambda>newRoute.
           bindE (outside NewModificationTag) (\<lambda>tag.
           let newRoute' = newRoute\<lparr>rEntity := (rEntity newRoute)\<lparr>reModificationTag := tag\<rparr>\<rparr>
           in bindE (sql (Client_Create c routes_tbl newRoute')) (\<lambda>_.
              emitEvent CreateEvent (RouteObj newRoute')))))"

definition SaveRoute :: "'s gormClient \<Rightarrow> Route \<Rightarrow> ('s SqlDB, unit) action" where
  "SaveRoute c route = bindE (readRoute c route) (SaveRoute_write c route)"

definition DeleteRoute :: "'s gormClient \<Rightarrow> Route \<Rightarrow> ('s SqlDB, unit) action" where
  "DeleteRoute c route =
     bindE (readRoute c route) (\<lambda>route.
     if route = zero_Route then failE DeleteRouteError
     else bindE (sql (Client_Delete c routes_tbl route [])) (\<lambda>_.
          emitEvent DeleteEvent (RouteObj route)))"

section \<open>TCP route mappings\<close>

definition updateTcpRouteMapping ::
    "TcpRouteMapping \<Rightarrow> TcpRouteMapping \<Rightarrow> (world, TcpRouteMapping) action" where
  "updateTcpRouteMapping existing current =
     (let e = tEntity existing; c = tEntity current;
          e1 = e\<lparr>teModificationTag := Increment (teModificationTag e)\<rparr>;
          e2 = (if teTTL c \<noteq> None then e1\<lparr>teTTL := teTTL c\<rparr> else e1);
          e3 = e2\<lparr>teIsolationSegment := teIsolationSegment c,
                  teSniRewriteHostname := teSniRewriteHostname c\<rparr>
      in bindE time_Now (\<lambda>now.
         bindE (liftE (deref (teTTL e3))) (\<lambda>ttl.
         returnE (existing\<lparr>tEntity := e3, tExpiresAt := now + seconds ttl\<rparr>))))"

definition ReadTcpRouteMappings :: "'s gormClient \<Rightarrow> ('s SqlDB, TcpRouteMapping list) action" where
  "ReadTcpRouteMappings c =
     bindE (outside time_Now) (\<lambda>now.
     sql (Client_Find (Client_Where c [CGt ''expires_at'' (VTime now)]) tcp_routes_tbl []))"

definition ReadFilteredTcpRouteMappings ::
    "'s gormClient \<Rightarrow> string \<Rightarrow> string list \<Rightarrow> ('s SqlDB, TcpRouteMapping list) action" where
  "ReadFilteredTcpRouteMappings c columnName vals =
     bindE (outside time_Now) (\<lambda>now.
     sql (Client_Find (Client_Where (Client_Where c [CIn columnName (map VStr vals)])
       [CGt ''expires_at'' (VTime now)]) tcp_routes_tbl []))"

definition FindSimilarTcpRouteMappings ::
    "'s gormClient \<Rightarrow> string \<Rightarrow> uint16 \<Rightarrow> ('s SqlDB, TcpRouteMapping list) action" where
  "FindSimilarTcpRouteMappings c sniHostname externalPort =
     bindE (outside time_Now) (\<lambda>now.
     sql (Client_Find (Client_Where (Client_Where c
         [CEq ''sni_hostname'' (VStr sniHostname), CEq ''external_port'' (VInt (uint externalPort))])
       [CGt ''expires_at'' (VTime now)]) tcp_routes_tbl []))"

definition tcp_where :: "TcpRouteMapping \<Rightarrow> cond list" where
  "tcp_where tcpMapping =
     (let e = tEntity tcpMapping
      in [CEq ''router_group_guid'' (VStr (teRouterGroupGuid e)),
          CEq ''host_ip'' (VStr (teHostIP e)),
          CEq ''host_port'' (VInt (uint (teHostPort e))),
          CEq ''external_port'' (VInt (uint (teExternalPort e))),
          CEq ''host_tls_port'' (VInt (teHostTLSPort e)),
          (case teSniHostname e of
             None \<Rightarrow> CIsNull ''sni_hostname''
           | Some sni \<Rightarrow> CEq ''sni_hostname'' (VStr sni)),
          CEq ''enable_backend_m_tls'' (VBool (teEnableBackendMTLS e))])"

definition FindExistingTcpRouteMapping ::
    "'s gormClient \<Rightarrow> TcpRouteMapping \<Rightarrow> ('s SqlDB, TcpRouteMapping) action" where
  "FindExistingTcpRouteMapping c tcpMapping =
     bindE (sql (Client_Find (Client_Where c (tcp_where tcpMapping)) tcp_routes_tbl [])) (\<lambda>routes.
     if length routes > 1 then failE (ErrorString ''have duplicate tcp route mappings'')
     else if length routes = 1 then returnE (routes ! 0)
     else returnE zero_TcpRouteMapping)"

definition SaveTcpRouteMapping_write ::
    "'s gormClient \<Rightarrow> TcpRouteMapping \<Rightarrow> TcpRouteMapping \<Rightarrow> ('s SqlDB, unit) action" where
  "SaveTcpRouteMapping_write c tcpRouteMapping existing =
     (if existing \<noteq> zero_TcpRouteMapping
      then bindE (outside (updateTcpRouteMapping existing tcpRouteMapping)) (\<lambda>newMapping.
           bindE (sql (Client_Save c tcp_routes_tbl newMapping)) (\<lambda>_.
           emitEvent UpdateEvent (TcpObj newMapping)))
      else bindE (outside (NewTcpRouteMappingWithModel tcpRouteMapping)) (\<lambda>tcpMapping.
           bindE (outside NewModificationTag) (\<lambda>tag.
           let tcpMapping' = tcpMapping\<lparr>tEntity := (tEntity tcpMapping)\<lparr>teModificationTag := tag\<rparr>\<rparr>
           in bindE (sql (Client_Create c tcp_routes_tbl tcpMapping')) (\<lambda>_.
              emitEvent CreateEvent (TcpObj tcpMapping')))))"

definition SaveTcpRouteMapping :: "'s gormClient \<Rightarrow> TcpRouteMapping \<Rightarrow> ('s SqlDB, unit) action" where
  "SaveTcpRouteMapping c tcpRouteMapping =
     bindE (FindExistingTcpRouteMapping c tcpRouteMapping) (SaveTcpRouteMapping_write c tcpRouteMapping)"

definition DeleteTcpRouteMapping :: "'s gormClient \<Rightarrow> TcpRouteMapping \<Rightarrow> ('s SqlDB, unit) action" where
  "DeleteTcpRouteMapping c tcpMapping =
     bindE (FindExistingTcpRouteMapping c tcpMapping) (\<lambda>tcpMapping.
     if tcpMapping = zero_TcpRouteMapping then failE DeleteRouteError
     else bindE (sql (Client_Delete c tcp_routes_tbl tcpMapping [])) (\<lambda>_.
          emitEvent DeleteEvent (TcpObj tcpMapping)))"

section \<open>Example values\<close>

text \<open>
  A clock that starts half a second after a full second and advances by a second with every
  reading, a random source that never fails, a route and a mapping, and an empty database.
\<close>

definition ex_world :: world where
  "ex_world =
     \<lparr>clock = (\<lambda>n. 1700000000500000000 + int n * 1000000000), ticks = 0,
      uuids = (\<lambda>n. Inr (CHR ''g'' # replicate n (CHR ''0''))), draws = 0\<rparr>"

definition ex_db :: "mem SqlDB" where
  "ex_db = NewSqlDB_value empty_mem ex_world"

definition ex_route :: Route where
  "ex_route = NewRoute ''example.com'' 8080 ''10.0.0.1'' ''log'' [] 60"

definition ex_tcp :: TcpRouteMapping where
  "ex_tcp = NewTcpRouteMapping ''rg'' 1024 ''10.0.0.2'' 8080 0 ''id'' None None 60
     zero_ModificationTag False []"

definition ex_rg :: RouterGroup where
  "ex_rg = zero_RouterGroup\<lparr>rgGuid := ''rg'', rgName := ''default-tcp'', rgType := ''tcp'',
     rgReservablePorts := ''1024-2048''\<rparr>"

text \<open>A database with one row in each table; the route is expired.\<close>

definition ex_row :: Route where
  "ex_row = ex_route\<lparr>rModel := zero_Model\<lparr>mGuid := ''r''\<rparr>, rExpiresAt := 1699999000000000000\<rparr>"

definition ex_tcp_row :: TcpRouteMapping where
  "ex_tcp_row = ex_tcp\<lparr>tModel := zero_Model\<lparr>mGuid := ''t''\<rparr>, tExpiresAt := 1700000060000000000\<rparr>"

definition ex_full :: "mem SqlDB" where
  "ex_full = NewSqlDB_value
     \<lparr>mroutes = [ex_row], mtcp = [ex_tcp_row], mrgs = [NewRouterGroupDB ex_rg], mfaults = []\<rparr> ex_world"

lemmas ex_defs =
  ex_world_def ex_db_def ex_full_def ex_row_def ex_tcp_row_def ex_route_def ex_tcp_def ex_rg_def NewSqlDB_value_def empty_mem_def
  NewRoute_def NewTcpRouteMapping_def zero_Route_def zero_RouteEntity_def zero_TcpRouteMapping_def
  zero_TcpMappingEntity_def zero_Model_def zero_ModificationTag_def zero_RouterGroup_def NewRouterGroupDB_def

lemmas mem_eval =
  mem_db_def mem_ops_def mem_statement_def mem_insert_def mem_update_def mem_remove_def
  client_defs bindE_def tryE_def zoom_def time_Now_def uuid_NewV4_def emitEvent_def
  NewEventFromInterface_def Let_def

lemmas sql_run_defs =
  SaveRoute_def SaveRoute_write_def readRoute_def route_where_def updateRoute_def
  NewRouteWithModel_def DeleteRoute_def ReadRoutes_def
  SaveTcpRouteMapping_def SaveTcpRouteMapping_write_def FindExistingTcpRouteMapping_def
  tcp_where_def updateTcpRouteMapping_def NewTcpRouteMappingWithModel_def
  DeleteTcpRouteMapping_def ReadTcpRouteMappings_def NewModificationTag_def

lemma ex_uuids: "good_uuids (env ex_db)" "good_uuids (env ex_full)"
  by (simp_all add: ex_defs good_uuids_def)

lemma ex_clock: "clock (env ex_db) (ticks (env ex_db)) = 1700000000500000000"
  by (simp add: ex_defs)

lemma ex_saves:
  "fst (SaveRoute (NewGormClient mem_db) ex_route ex_db) = Ok ()"
  "fst (SaveTcpRouteMapping (NewGormClient mem_db) ex_tcp ex_db) = Ok ()"
  "fst (SaveRouterGroup (NewGormClient mem_db) ex_rg ex_db) = Ok ()"
  by (simp_all add: sql_run_defs SaveRouterGroup_def ReadRouterGroup_def isWriteLocked_def
      isReadLocked_def recordNotFound_def ex_defs mem_eval)

lemma ex_deletes:
  "fst (DeleteRoute (NewGormClient mem_db) ex_route ex_full) = Ok ()"
  "fst (DeleteTcpRouteMapping (NewGormClient mem_db) ex_tcp ex_full) = Ok ()"
  "fst (DeleteRouterGroup (NewGormClient mem_db) ''rg'' ex_full) = Ok ()"
  by (simp_all add: sql_run_defs DeleteRouterGroup_def ReadRouterGroup_def isWriteLocked_def
      isReadLocked_def recordNotFound_def ToRouterGroup_def ex_defs mem_eval sat_def route_col_def
      tcp_col_def rg_col_def opt_str_def pk_cond_def zero_RouterGroupDB_def)

end
