(* ===== verification/Tables.thy ===== *)
theory Tables
  imports Prelude
begin


text \<open>
  A table in which no two rows agree on the columns \<open>key\<close> is a map from these columns to rows.
  \<open>guid\<close> is the primary key.
\<close>

definition table_of :: "('r \<Rightarrow> 'k) \<Rightarrow> 'r list \<Rightarrow> 'k \<rightharpoonup> 'r" where
  "table_of key rows = map_of (map (\<lambda>r. (key r, r)) rows)"

definition table_wf :: "('r \<Rightarrow> 'k) \<Rightarrow> ('r \<Rightarrow> string) \<Rightarrow> 'r list \<Rightarrow> bool" where
  "table_wf key guid rows \<longleftrightarrow>
     distinct (map key rows) \<and> distinct (map guid rows) \<and> [] \<notin> guid ` set rows"

lemma table_of_Some: "table_of key rows k = Some r \<Longrightarrow> r \<in> set rows \<and> key r = k"
  by (auto simp: table_of_def dest!: map_of_SomeD)

lemma table_of_None: "table_of key rows k = None \<longleftrightarrow> k \<notin> key ` set rows"
  by (auto simp: table_of_def map_of_eq_None_iff image_image)

lemma dom_table_of: "dom (table_of key rows) = key ` set rows"
  by (rule set_eqI) (simp add: domIff table_of_None)

lemma card_table_of: "distinct (map key rows) \<Longrightarrow> card (dom (table_of key rows)) = length rows"
  by (simp add: dom_table_of card_image distinct_map distinct_card)

lemma table_of_member:
  "distinct (map key rows) \<Longrightarrow> r \<in> set rows \<Longrightarrow> table_of key rows (key r) = Some r"
  by (auto simp: table_of_def comp_def intro!: map_of_is_SomeI)

lemma table_of_iff:
  "distinct (map key rows) \<Longrightarrow> table_of key rows k = Some r \<longleftrightarrow> r \<in> set rows \<and> key r = k"
  by (auto dest: table_of_Some intro: table_of_member)

lemma filter_key_single:
  "distinct (map key rows) \<Longrightarrow> r \<in> set rows \<Longrightarrow> filter (\<lambda>y. key y = key r) rows = [r]"
  by (induction rows) (auto simp: filter_empty_conv image_iff)

lemma filter_key_table:
  assumes "distinct (map key rows)"
  shows "filter (\<lambda>y. key y = k) rows = [r] \<longleftrightarrow> table_of key rows k = Some r"
    and "filter (\<lambda>y. key y = k) rows = [] \<longleftrightarrow> table_of key rows k = None"
proof -
  show "filter (\<lambda>y. key y = k) rows = [] \<longleftrightarrow> table_of key rows k = None"
    by (auto simp: table_of_None filter_empty_conv)
  show "filter (\<lambda>y. key y = k) rows = [r] \<longleftrightarrow> table_of key rows k = Some r"
  proof
    assume "filter (\<lambda>y. key y = k) rows = [r]"
    then have "r \<in> set (filter (\<lambda>y. key y = k) rows)" by simp
    then show "table_of key rows k = Some r"
      using table_of_member [OF assms, of r] by simp
  next
    assume "table_of key rows k = Some r"
    then show "filter (\<lambda>y. key y = k) rows = [r]"
      using table_of_Some [of key rows k r] filter_key_single [OF assms, of r] by simp
  qed
qed

lemma table_of_append:
  "key r \<notin> key ` set rows \<Longrightarrow> table_of key (rows @ [r]) = (table_of key rows)(key r \<mapsto> r)"
  using table_of_None [of key rows "key r"]
  by (auto simp: fun_eq_iff table_of_def map_add_def split: option.splits)

lemma table_of_remove:
  assumes "table_wf key guid rows" and "r \<in> set rows"
  shows "table_of key (filter (\<lambda>x. guid x \<noteq> guid r) rows) = (table_of key rows)(key r := None)"
proof
  fix k
  have d: "distinct (map key rows)" and g: "distinct (map guid rows)"
    using assms(1) by (auto simp: table_wf_def)
  then have "distinct (map key (filter (\<lambda>x. guid x \<noteq> guid r) rows))"
    by (simp add: distinct_map_filter)
  with d g assms(2)
  have "table_of key (filter (\<lambda>x. guid x \<noteq> guid r) rows) k = Some y \<longleftrightarrow>
      ((table_of key rows)(key r := None)) k = Some y" for y
    by (auto simp: table_of_iff distinct_map dest: inj_onD)
  then show "table_of key (filter (\<lambda>x. guid x \<noteq> guid r) rows) k = ((table_of key rows)(key r := None)) k"
    by (metis option.exhaust)
qed

lemma map_replace_key:
  assumes "key new = key old" and "\<And>x. x \<in> set rows \<Longrightarrow> guid x = guid old \<Longrightarrow> x = old"
  shows "map key (map (\<lambda>x. if guid x = guid old then new else x) rows) = map key rows"
  using assms by auto

lemma table_wf_unique:
  "table_wf key guid rows \<Longrightarrow> x \<in> set rows \<Longrightarrow> y \<in> set rows \<Longrightarrow> guid x = guid y \<Longrightarrow> x = y"
  by (auto simp: table_wf_def distinct_map dest: inj_onD)

lemma table_of_replace:
  assumes "table_wf key guid rows" and "old \<in> set rows" and "key new = key old"
  shows "table_of key (map (\<lambda>x. if guid x = guid old then new else x) rows) =
    (table_of key rows)(key old \<mapsto> new)"
  using assms
proof (induction rows)
  case (Cons r rows)
  then have wf: "table_wf key guid rows" and r: "guid r \<notin> guid ` set rows" "key r \<notin> key ` set rows"
    by (auto simp: table_wf_def)
  have c: "table_of key (x # xs) = (table_of key xs)(key x \<mapsto> x)" for x xs
    by (simp add: table_of_def)
  show ?case
  proof (cases "old = r")
    case True
    with r have "map (\<lambda>x. if guid x = guid old then new else x) rows = rows"
      by (intro map_idI) (metis imageI)
    with True Cons.prems(3) show ?thesis by (simp add: c fun_eq_iff)
  next
    case False
    with Cons.prems(2) have "old \<in> set rows" by simp
    moreover from this r have "guid r \<noteq> guid old" "key r \<noteq> key old" by auto
    ultimately show ?thesis using Cons.IH [OF wf _ Cons.prems(3)] by (auto simp: c fun_eq_iff)
  qed
qed simp

lemma table_wf_append:
  "table_wf key guid rows \<Longrightarrow> key r \<notin> key ` set rows \<Longrightarrow> guid r \<notin> guid ` set rows \<Longrightarrow> guid r \<noteq> [] \<Longrightarrow>
   table_wf key guid (rows @ [r])"
  by (auto simp: table_wf_def)

lemma table_wf_filter: "table_wf key guid rows \<Longrightarrow> table_wf key guid (filter P rows)"
  by (auto simp: table_wf_def distinct_map_filter)

lemma table_wf_replace:
  assumes "table_wf key guid rows" and "old \<in> set rows" and "key new = key old" and "guid new = guid old"
  shows "table_wf key guid (map (\<lambda>x. if guid x = guid old then new else x) rows)"
proof -
  let ?rows = "map (\<lambda>x. if guid x = guid old then new else x) rows"
  have u: "\<And>x. x \<in> set rows \<Longrightarrow> guid x = guid old \<Longrightarrow> x = old"
    using table_wf_unique [OF assms(1)] assms(2) by blast
  have "map key ?rows = map key rows" and "map guid ?rows = map guid rows"
    using map_replace_key [of key new old rows guid] map_replace_key [of guid new old rows guid]
      assms(3,4) u by blast+
  then show ?thesis
    using assms(1) unfolding table_wf_def set_map [symmetric] by metis
qed

end
