(* ===== verification/Route_Store.thy ===== *)
theory Route_Store
  imports Sql_Db Tables
begin

text \<open>
  What saving, deleting and reading routes does to the tables, the hubs and the callers: the two
  route tables are maps from the identifying columns to rows, \<open>SaveRoute\<close> and
  \<open>SaveTcpRouteMapping\<close> update them, \<open>DeleteRoute\<close> and \<open>DeleteTcpRouteMapping\<close> remove a key, and
  every successful change is announced once. The locale \<open>route_repository\<close> proves this for both
  tables at once.
\<close>

section \<open>Upsert and delete by key\<close>

text \<open>
  HTTP routes and TCP route mappings are saved and deleted the same way: the row is looked up by its
  key, then renewed, created or removed, and the change is announced on a hub. \<open>rows\<close> is the table,
  \<open>hub\<close> the hub, \<open>rest\<close> what the operations leave alone, \<open>outer\<close> the clock and random source. The
  laws are what the operations of \<open>db/db_sql.go\<close> do in each phase.
\<close>

locale route_repository =
  fixes rows :: "'d \<Rightarrow> 'r list" and hub :: "'d \<Rightarrow> Event hub" and rest :: "'d \<Rightarrow> 'o"
    and outer :: "'d \<Rightarrow> world"
    and key :: "'r \<Rightarrow> 'k" and guid :: "'r \<Rightarrow> string" and zero :: 'r and stored :: "'r \<Rightarrow> 'r"
    and announce :: "'r \<Rightarrow> json" and ttl :: "'r \<Rightarrow> int option"
    and renewed :: "'r \<Rightarrow> 'r \<Rightarrow> time \<Rightarrow> 'r" and fresh :: "'r \<Rightarrow> time \<Rightarrow> string \<Rightarrow> string \<Rightarrow> 'r"
    and readRow :: "'r \<Rightarrow> ('d, 'r) action" and writeRow :: "'r \<Rightarrow> 'r \<Rightarrow> ('d, unit) action"
    and removeRow :: "'r \<Rightarrow> ('d, unit) action"
  assumes read_result:
      "readRow r d = (x, d') \<Longrightarrow>
       rows d' = rows d \<and> hub d' = hub d \<and> rest d' = rest d \<and> outer d' = outer d \<and>
       (case x of
          Ok w \<Rightarrow> filter (\<lambda>y. key y = key r) (rows d) = [w] \<or>
                 filter (\<lambda>y. key y = key r) (rows d) = [] \<and> w = zero
        | Fail e \<Rightarrow> True | Panic p \<Rightarrow> False)"
    and update_result:
      "writeRow r old d = (z, d') \<Longrightarrow> old \<noteq> zero \<Longrightarrow> old \<in> set (rows d) \<Longrightarrow>
       new = renewed old r (clock (outer d) (ticks (outer d))) \<Longrightarrow>
       rest d' = rest d \<and>
       (case z of
          Ok _ \<Rightarrow>
            rows d' = map (\<lambda>y. if guid y = guid old then stored new else y) (rows d) \<and>
            hub d' = Emit \<lparr>evType = UpdateEvent, evValue = Marshal (announce new)\<rparr> (hub d)
        | Fail e \<Rightarrow> rows d' = rows d \<and> hub d' = hub d
        | Panic p \<Rightarrow> rows d' = rows d \<and> hub d' = hub d \<and> ttl r = None)"
    and create_result:
      "writeRow r zero d = (z, d') \<Longrightarrow>
       rest d' = rest d \<and>
       (case z of
          Ok _ \<Rightarrow> \<exists>g tag new. uuids (outer d) (draws (outer d)) = Inr g \<and>
            new = fresh r (clock (outer d) (ticks (outer d))) g tag \<and>
            g \<notin> guid ` set (rows d) \<and> rows d' = rows d @ [stored new] \<and>
            hub d' = Emit \<lparr>evType = CreateEvent, evValue = Marshal (announce new)\<rparr> (hub d)
        | Fail e \<Rightarrow> rows d' = rows d \<and> hub d' = hub d
        | Panic p \<Rightarrow> rows d' = rows d \<and> hub d' = hub d \<and> ttl r = None)"
    and remove_result:
      "removeRow old d = (z, d') \<Longrightarrow> guid old \<noteq> [] \<Longrightarrow>
       rest d' = rest d \<and>
       (case z of
          Ok _ \<Rightarrow>
            rows d' = filter (\<lambda>y. guid y \<noteq> guid old) (rows d) \<and>
            hub d' = Emit \<lparr>evType = DeleteEvent, evValue = Marshal (announce old)\<rparr> (hub d)
        | Fail e \<Rightarrow> rows d' = rows d \<and> hub d' = hub d
        | Panic p \<Rightarrow> False)"
    and write_uuids: "writeRow r old d = (z, d') \<Longrightarrow> uuids (outer d') = uuids (outer d)"
    and zero_guid: "guid zero = []"
    and stored_row: "key (stored r) = key r" "guid (stored r) = guid r"
    and renewed_row: "key (renewed old r now) = key old" "guid (renewed old r now) = guid old"
    and fresh_row: "key (fresh r now g tag) = key r" "guid (fresh r now g tag) = g"
begin

abbreviation save :: "'r \<Rightarrow> ('d, unit) action" where
  "save r \<equiv> bindE (readRow r) (writeRow r)"

abbreviation delete :: "'r \<Rightarrow> ('d, unit) action" where
  "delete r \<equiv> bindE (readRow r) (\<lambda>old. if old = zero then failE DeleteRouteError else removeRow old)"

abbreviation tbl :: "'d \<Rightarrow> 'k \<rightharpoonup> 'r" where
  "tbl d \<equiv> table_of key (rows d)"

abbreviation wf :: "'d \<Rightarrow> bool" where
  "wf d \<equiv> table_wf key guid (rows d)"

abbreviation read_clock :: "'d \<Rightarrow> time" where
  "read_clock d \<equiv> clock (outer d) (ticks (outer d))"

lemma member_nonzero: "wf d \<Longrightarrow> r \<in> set (rows d) \<Longrightarrow> guid r \<noteq> [] \<and> r \<noteq> zero"
  using zero_guid by (auto simp: table_wf_def image_iff)

text \<open>The lookup finds the row of the map.\<close>

lemma read_cases:
  assumes "wf d" and "readRow r d = (x, d')"
  obtains (found) old where "x = Ok old" and "tbl d (key r) = Some old" and "old \<noteq> zero"
      "guid old \<noteq> []" "old \<in> set (rows d)" "key old = key r"
  | (absent) "x = Ok zero" and "tbl d (key r) = None"
  | (error) e where "x = Fail e"
proof (cases x)
  case (Ok old)
  have keys: "distinct (map key (rows d))"
    using assms(1) by (simp add: table_wf_def)
  from read_result [OF assms(2)] Ok consider "tbl d (key r) = Some old" | "tbl d (key r) = None" "old = zero"
    by (auto simp: filter_key_table [OF keys])
  then show ?thesis
  proof cases
    case 1
    with found [of old] table_of_Some [OF 1] member_nonzero [OF assms(1), of old] Ok show ?thesis
      by simp
  qed (use Ok absent in auto)
qed (use read_result [OF assms(2)] error in auto)

lemma read_frame:
  assumes "readRow r d = (x, d')"
  shows "rows d' = rows d" "hub d' = hub d" "rest d' = rest d" "outer d' = outer d"
  using read_result [OF assms] by simp_all

text \<open>Saving is an update of the map, announced with the row that was written.\<close>

lemma save_result:
  assumes wf: "wf d" and uuids: "good_uuids (outer d)"
    and run: "save r d = (x, d')"
  shows "rest d' = rest d \<and> wf d' \<and>
    (case x of
       Ok _ \<Rightarrow> \<exists>new.
         (case tbl d (key r) of
            Some old \<Rightarrow> new = renewed old r (read_clock d)
          | None \<Rightarrow> \<exists>g tag. new = fresh r (read_clock d) g tag) \<and>
         tbl d' = (tbl d)(key r \<mapsto> stored new) \<and>
         hub d' = Emit \<lparr>evType = if tbl d (key r) = None then CreateEvent else UpdateEvent,
                       evValue = Marshal (announce new)\<rparr> (hub d)
     | Fail e \<Rightarrow> rows d' = rows d \<and> hub d' = hub d
     | Panic p \<Rightarrow> rows d' = rows d \<and> hub d' = hub d \<and> ttl r = None)"
proof -
  obtain y d1 where r: "readRow r d = (y, d1)" by (cases "readRow r d")
  note d1 = read_frame [OF r]
  from wf r show ?thesis
  proof (cases rule: read_cases)
    case (found old)
    let ?new = "renewed old r (read_clock d)"
    have w: "writeRow r old d1 = (x, d')"
      using run r found by (simp add: bindE_simps)
    from update_result [OF w found(3), unfolded d1, OF found(5) refl] found wf
      table_wf_replace [of key guid "rows d" old "stored ?new"]
      table_of_replace [of key guid "rows d" old "stored ?new"]
    show ?thesis
      by (cases x) (simp_all add: stored_row renewed_row)
  next
    case absent
    have w: "writeRow r zero d1 = (x, d')"
      using run r absent by (simp add: bindE_simps)
    have key: "key r \<notin> key ` set (rows d)"
      using absent by (simp add: table_of_None)
    note c = create_result [OF w, unfolded d1]
    show ?thesis
    proof (cases x)
      case (Ok u)
      with c obtain g tag where g: "uuids (outer d) (draws (outer d)) = Inr g" "g \<notin> guid ` set (rows d)"
        and v: "rows d' = rows d @ [stored (fresh r (read_clock d) g tag)]"
          "hub d' = Emit \<lparr>evType = CreateEvent, evValue = Marshal (announce (fresh r (read_clock d) g tag))\<rparr> (hub d)"
        by auto
      let ?new = "stored (fresh r (read_clock d) g tag)"
      have "wf d'" and "tbl d' = (tbl d)(key r \<mapsto> ?new)"
        using table_wf_append [of key guid "rows d" ?new] table_of_append [of key ?new "rows d"] wf key g uuids v(1)
        by (auto simp: stored_row fresh_row good_uuids_def)
      with Ok absent v c show ?thesis by auto
    qed (use c wf in auto)
  next
    case (error e)
    with run r d1 wf show ?thesis by (auto simp: bindE_simps)
  qed
qed

text \<open>Deleting removes the key from the map, and fails if it is not there.\<close>

lemma delete_result:
  assumes wf: "wf d" and run: "delete r d = (x, d')"
  shows "rest d' = rest d \<and> wf d' \<and>
    (case x of
       Ok _ \<Rightarrow> \<exists>old. tbl d (key r) = Some old \<and> tbl d' = (tbl d)(key r := None) \<and>
         hub d' = Emit \<lparr>evType = DeleteEvent, evValue = Marshal (announce old)\<rparr> (hub d)
     | Fail e \<Rightarrow> rows d' = rows d \<and> hub d' = hub d
     | Panic p \<Rightarrow> False)"
proof -
  obtain y d1 where r: "readRow r d = (y, d1)" by (cases "readRow r d")
  note d1 = read_frame [OF r]
  from wf r show ?thesis
  proof (cases rule: read_cases)
    case (found old)
    have w: "removeRow old d1 = (x, d')"
      using run r found by (simp add: bindE_simps)
    from remove_result [OF w found(4), unfolded d1] found wf table_of_remove [OF wf found(5)]
      table_wf_filter [OF wf]
    show ?thesis
      by (cases x) simp_all
  qed (use run r d1 wf in \<open>auto simp: bindE_simps\<close>)
qed

text \<open>A lookup that finds no row makes the deletion fail with \<open>DeleteRouteError\<close>.\<close>

lemma delete_missing:
  assumes "wf d" and "readRow r d = (Ok old, d1)" and "tbl d (key r) = None"
  shows "delete r d = (Fail DeleteRouteError, d1)"
  using assms(1,2) by (cases rule: read_cases) (use assms in \<open>auto simp: bindE_simps\<close>)

end

text \<open>
  A request saves its rows one after the other and stops at the first error: whatever it ends with,
  only the keys of the request are affected and none is lost, and after a success all are there.
\<close>

context route_repository
begin

lemma save_uuids: "save r d = (x, d') \<Longrightarrow> uuids (outer d') = uuids (outer d)"
  using read_frame(4) [of r d] write_uuids
  by (cases "readRow r d"; cases "fst (readRow r d)") (auto simp: bindE_def)

lemma save_keys:
  assumes "wf d" and "good_uuids (outer d)" and "save r d = (x, d')"
  shows "wf d'" and "rest d' = rest d" and "\<And>k. k \<noteq> key r \<Longrightarrow> tbl d' k = tbl d k"
    and "dom (tbl d) \<subseteq> dom (tbl d')" and "x = Ok () \<Longrightarrow> key r \<in> dom (tbl d')"
    and "x = Panic p \<Longrightarrow> ttl r = None"
  using save_result [OF assms] by (cases x; auto)+

lemma saves_result:
  assumes "wf d" and "good_uuids (outer d)" and "forE save rs d = (x, d')"
  shows "wf d' \<and> rest d' = rest d \<and> (\<forall>k. k \<notin> key ` set rs \<longrightarrow> tbl d' k = tbl d k) \<and>
    dom (tbl d) \<subseteq> dom (tbl d') \<and> (x = Ok () \<longrightarrow> key ` set rs \<subseteq> dom (tbl d')) \<and>
    (is_panic x \<longrightarrow> (\<exists>r\<in>set rs. ttl r = None))"
  using assms
proof (induction rs arbitrary: d)
  case (Cons r rs)
  obtain y d1 where s: "save r d = (y, d1)" by (cases "save r d")
  note k = save_keys [OF Cons.prems(1,2) s]
  show ?case
  proof (cases y)
    case (Ok u)
    then have run: "forE save rs d1 = (x, d')"
      using Cons.prems(3) s by (simp add: bindE_simps)
    have "good_uuids (outer d1)"
      using Cons.prems(2) save_uuids [OF s] by (simp add: good_uuids_def)
    note IH = Cons.IH [OF k(1) this run]
    then have "dom (tbl d1) \<subseteq> dom (tbl d')"
      by simp
    moreover have "key r \<in> dom (tbl d1)"
      using k(5) Ok by simp
    ultimately have "dom (tbl d) \<subseteq> dom (tbl d')" and "key r \<in> dom (tbl d')"
      using k(4) by (blast intro: order_trans)+
    with IH k(2,3) show ?thesis
      by (simp add: subset_iff)
  next
    case (Fail e)
    then have "x = Fail e" "d' = d1"
      using Cons.prems(3) s by (simp_all add: bindE_simps)
    with k show ?thesis by auto
  next
    case (Panic p)
    then have "x = Panic p" "d' = d1"
      using Cons.prems(3) s by (simp_all add: bindE_simps)
    with k(1-4) k(6) [OF Panic] show ?thesis by auto
  qed
qed auto

end

section \<open>Rows\<close>

text \<open>The columns by which \<open>readRoute\<close> and \<open>FindExistingTcpRouteMapping\<close> identify a row.\<close>

definition route_key :: "Route \<Rightarrow> string \<times> string \<times> uint16 \<times> string" where
  "route_key r =
     (reRoute (rEntity r), reIP (rEntity r), rePort (rEntity r), reRouteServiceUrl (rEntity r))"

definition tcp_key ::
    "TcpRouteMapping \<Rightarrow> string \<times> string \<times> uint16 \<times> uint16 \<times> int \<times> string option \<times> bool" where
  "tcp_key t =
     (teRouterGroupGuid (tEntity t), teHostIP (tEntity t), teHostPort (tEntity t),
      teExternalPort (tEntity t), teHostTLSPort (tEntity t), teSniHostname (tEntity t),
      teEnableBackendMTLS (tEntity t))"

lemma uint16_eq_iff: "uint (a :: uint16) = uint b \<longleftrightarrow> a = b"
  by (simp add: word_uint_eq_iff)

lemma sat_route_where: "sat route_col (route_where route) = (\<lambda>r. route_key r = route_key route)"
  by (auto simp: fun_eq_iff route_where_def Let_def route_col_def route_key_def uint16_eq_iff)

lemma sat_tcp_where: "sat tcp_col (tcp_where m) = (\<lambda>t. tcp_key t = tcp_key m)"
  by (auto simp: fun_eq_iff tcp_where_def Let_def tcp_col_def tcp_key_def uint16_eq_iff opt_str_def
      split: option.splits)

lemma emitEvent_apply:
  "emitEvent ty (RouteObj r) d =
     (Ok (), d\<lparr>httpEventHub := Emit \<lparr>evType = ty, evValue = Marshal (Route_json r)\<rparr> (httpEventHub d)\<rparr>)"
  "emitEvent ty (TcpObj t) d =
     (Ok (), d\<lparr>tcpEventHub := Emit \<lparr>evType = ty, evValue = Marshal (TcpRouteMapping_json t)\<rparr> (tcpEventHub d)\<rparr>)"
  by (simp_all add: emitEvent_def NewEventFromInterface_def bindE_def)

lemma then_emit:
  "bindE (sql m) (\<lambda>_. emitEvent ty obj) d =
     (case m (store d) of
        (Ok n, s') \<Rightarrow> emitEvent ty obj (d\<lparr>store := s'\<rparr>)
      | (Fail e, s') \<Rightarrow> (Fail e, d\<lparr>store := s'\<rparr>)
      | (Panic p, s') \<Rightarrow> (Panic p, d\<lparr>store := s'\<rparr>))"
  by (auto simp: bindE_def zoom_def split: prod.splits go.splits)

text \<open>
  The row \<open>SaveRoute\<close> writes: the renewed row of the route, if there is one, a fresh one otherwise.
\<close>

definition effective_ttl :: "Route \<Rightarrow> Route \<Rightarrow> int option" where
  "effective_ttl old route =
     (if reTTL (rEntity route) = None then reTTL (rEntity old) else reTTL (rEntity route))"

definition renewed_route :: "Route \<Rightarrow> Route \<Rightarrow> time \<Rightarrow> Route" where
  "renewed_route old route now =
     old\<lparr>rExpiresAt := now + seconds (the (effective_ttl old route)),
         rEntity := (rEntity old)
           \<lparr>reTTL := effective_ttl old route,
            reLogGuid := (if reLogGuid (rEntity route) = [] then reLogGuid (rEntity old)
                          else reLogGuid (rEntity route)),
            reModificationTag := Increment (reModificationTag (rEntity old))\<rparr>\<rparr>"

definition fresh_route :: "Route \<Rightarrow> time \<Rightarrow> string \<Rightarrow> string \<Rightarrow> Route" where
  "fresh_route route now guid tag =
     \<lparr>rModel = zero_Model\<lparr>mGuid := guid\<rparr>,
      rExpiresAt = now + seconds (the (reTTL (rEntity route))),
      rEntity = (rEntity route)\<lparr>reModificationTag := \<lparr>tagGuid = tag, tagIndex = 0\<rparr>\<rparr>\<rparr>"

lemma updateRoute_eq:
  "updateRoute old route w =
     (case effective_ttl old route of
        None \<Rightarrow> (Panic ''nil pointer dereference'', w\<lparr>ticks := Suc (ticks w)\<rparr>)
      | Some ttl \<Rightarrow> (Ok (renewed_route old route (clock w (ticks w))), w\<lparr>ticks := Suc (ticks w)\<rparr>))"
  by (auto simp: updateRoute_def renewed_route_def effective_ttl_def bindE_def time_Now_def Let_def
      split: option.splits)

lemma renewed_route_simps [simp]:
  "route_key (renewed_route old route now) = route_key old"
  "route_guid (renewed_route old route now) = route_guid old"
  by (simp_all add: renewed_route_def route_key_def)

lemma fresh_route_simps [simp]:
  "route_key (fresh_route route now guid tag) = route_key route"
  "route_guid (fresh_route route now guid tag) = guid"
  by (simp_all add: fresh_route_def route_key_def)

definition tcp_effective_ttl :: "TcpRouteMapping \<Rightarrow> TcpRouteMapping \<Rightarrow> int option" where
  "tcp_effective_ttl old m =
     (if teTTL (tEntity m) = None then teTTL (tEntity old) else teTTL (tEntity m))"

definition renewed_tcp :: "TcpRouteMapping \<Rightarrow> TcpRouteMapping \<Rightarrow> time \<Rightarrow> TcpRouteMapping" where
  "renewed_tcp old m now =
     old\<lparr>tExpiresAt := now + seconds (the (tcp_effective_ttl old m)),
         tEntity := (tEntity old)
           \<lparr>teTTL := tcp_effective_ttl old m,
            teIsolationSegment := teIsolationSegment (tEntity m),
            teSniRewriteHostname := teSniRewriteHostname (tEntity m),
            teModificationTag := Increment (teModificationTag (tEntity old))\<rparr>\<rparr>"

definition fresh_tcp :: "TcpRouteMapping \<Rightarrow> time \<Rightarrow> string \<Rightarrow> string \<Rightarrow> TcpRouteMapping" where
  "fresh_tcp m now guid tag =
     \<lparr>tModel = zero_Model\<lparr>mGuid := guid\<rparr>,
      tExpiresAt = now + seconds (the (teTTL (tEntity m))),
      tEntity = (tEntity m)\<lparr>teModificationTag := \<lparr>tagGuid = tag, tagIndex = 0\<rparr>\<rparr>\<rparr>"

lemma updateTcpRouteMapping_eq:
  "updateTcpRouteMapping old m w =
     (case tcp_effective_ttl old m of
        None \<Rightarrow> (Panic ''nil pointer dereference'', w\<lparr>ticks := Suc (ticks w)\<rparr>)
      | Some ttl \<Rightarrow> (Ok (renewed_tcp old m (clock w (ticks w))), w\<lparr>ticks := Suc (ticks w)\<rparr>))"
  by (auto simp: updateTcpRouteMapping_def renewed_tcp_def tcp_effective_ttl_def bindE_def
      time_Now_def Let_def split: option.splits)

lemma renewed_tcp_simps [simp]:
  "tcp_key (renewed_tcp old m now) = tcp_key old"
  "tcp_guid (renewed_tcp old m now) = tcp_guid old"
  by (simp_all add: renewed_tcp_def tcp_key_def)

lemma fresh_tcp_simps [simp]:
  "tcp_key (fresh_tcp m now guid tag) = tcp_key m"
  "tcp_guid (fresh_tcp m now guid tag) = guid"
  by (simp_all add: fresh_tcp_def tcp_key_def)

section \<open>The phases of an operation\<close>

context sql_store
begin

abbreviation cl :: "'s gormClient" where
  "cl \<equiv> NewGormClient db"

abbreviation route_rest where
  "route_rest d \<equiv> (trows (store d), grows (store d), tcpEventHub d, locker d)"

abbreviation tcp_rest where
  "tcp_rest d \<equiv> (rrows (store d), grows (store d), httpEventHub d, locker d)"

lemma rstored_simps [simp]:
  "route_key (rstored r) = route_key r" "route_guid (rstored r) = route_guid r"
  by (simp_all add: route_key_def rstored_entity R.stored_key)

lemma tstored_simps [simp]:
  "tcp_key (tstored t) = tcp_key t" "tcp_guid (tstored t) = tcp_guid t"
  by (simp_all add: tcp_key_def tstored_entity T.stored_key)

lemma readRoute_result:
  assumes "readRoute cl r d = (x, d')"
  shows "rrows (store d') = rrows (store d) \<and> httpEventHub d' = httpEventHub d \<and> route_rest d' = route_rest d \<and>
    env d' = env d \<and>
    (case x of
       Ok w \<Rightarrow> filter (\<lambda>y. route_key y = route_key r) (rrows (store d)) = [w] \<or>
              filter (\<lambda>y. route_key y = route_key r) (rrows (store d)) = [] \<and> w = zero_Route
     | Fail e \<Rightarrow> True | Panic p \<Rightarrow> False)"
proof -
  obtain y s' where f: "t_find (routes_tbl db) (route_where r) (store d) = (y, s')"
    by (cases "t_find (routes_tbl db) (route_where r) (store d)")
  have m: "filter (\<lambda>y. route_key y = route_key r) (rrows (store d)) = rs"
    if "y = Ok rs" "length rs \<le> 1" for rs
    using R.find_few [of "route_where r" "store d" rs s'] f that by (simp add: sat_route_where)
  note step = assms R.find_result [OF f] f
  note defs = readRoute_def client_defs bindE_def zoom_def
  show ?thesis
  proof (cases y)
    case (Ok rs)
    consider "rs = []" | w where "rs = [w]" | "length rs > 1"
      by (cases rs rule: remdups_adj.cases) auto
    then show ?thesis
      by cases (use step Ok m in \<open>auto simp: defs\<close>)
  qed (use step in \<open>auto simp: defs\<close>)
qed

lemma route_update_result:
  assumes run: "SaveRoute_write cl r old d = (x, d')" and "old \<noteq> zero_Route"
    and old: "old \<in> set (rrows (store d))"
    and new: "new = renewed_route old r (clock (env d) (ticks (env d)))"
  shows "route_rest d' = route_rest d \<and>
    (case x of
       Ok _ \<Rightarrow>
         rrows (store d') = map (\<lambda>y. if route_guid y = route_guid old then rstored new else y) (rrows (store d)) \<and>
         httpEventHub d' = Emit \<lparr>evType = UpdateEvent, evValue = Marshal (Route_json new)\<rparr> (httpEventHub d)
     | Fail e \<Rightarrow> rrows (store d') = rrows (store d) \<and> httpEventHub d' = httpEventHub d
     | Panic p \<Rightarrow> rrows (store d') = rrows (store d) \<and> httpEventHub d' = httpEventHub d \<and>
         reTTL (rEntity r) = None)"
proof (cases "effective_ttl old r")
  case None
  with assms show ?thesis
    by (auto simp: SaveRoute_write_def bindE_def zoom_def updateRoute_eq effective_ttl_def split: if_splits)
next
  case (Some ttl)
  obtain y s' where s: "t_save (routes_tbl db) new (store d) = (y, s')"
    by (cases "t_save (routes_tbl db) new (store d)")
  let ?d = "d\<lparr>env := (env d)\<lparr>ticks := Suc (ticks (env d))\<rparr>, store := s'\<rparr>"
  have step: "(case y of Ok n \<Rightarrow> emitEvent UpdateEvent (RouteObj new) ?d
      | Fail e \<Rightarrow> (Fail e, ?d) | Panic p \<Rightarrow> (Panic p, ?d)) = (x, d')"
    using assms(1,2) Some s unfolding new
    by (simp add: SaveRoute_write_def client_defs bindE_simps zoom_apply updateRoute_eq then_emit)
  show ?thesis
  proof (cases y)
    case (Ok n)
    have "rrows s' = map (\<lambda>y. if route_guid y = route_guid old then rstored new else y) (rrows (store d))"
      using R.save_existing [OF s [unfolded Ok] old] new by simp
    with R.save_result [OF s] step Ok show ?thesis
      by (auto simp: emitEvent_apply)
  qed (use R.save_result [OF s] step in auto)
qed

lemma route_create_result:
  assumes "SaveRoute_write cl r zero_Route d = (x, d')"
  shows "route_rest d' = route_rest d \<and>
    (case x of
       Ok _ \<Rightarrow> \<exists>g tag new. uuids (env d) (draws (env d)) = Inr g \<and>
         new = fresh_route r (clock (env d) (ticks (env d))) g tag \<and>
         g \<notin> route_guid ` set (rrows (store d)) \<and>
         rrows (store d') = rrows (store d) @ [rstored new] \<and>
         httpEventHub d' = Emit \<lparr>evType = CreateEvent, evValue = Marshal (Route_json new)\<rparr> (httpEventHub d)
     | Fail e \<Rightarrow> rrows (store d') = rrows (store d) \<and> httpEventHub d' = httpEventHub d
     | Panic p \<Rightarrow> rrows (store d') = rrows (store d) \<and> httpEventHub d' = httpEventHub d \<and>
         reTTL (rEntity r) = None)"
proof -
  note defs = SaveRoute_write_def NewRouteWithModel_def NewModificationTag_def uuid_NewV4_def time_Now_def
    bindE_def zoom_def client_defs
  consider (nottl) "reTTL (rEntity r) = None"
    | (noguid) e ttl where "uuids (env d) (draws (env d)) = Inl e" "reTTL (rEntity r) = Some ttl"
    | (notag) g e ttl where "uuids (env d) (draws (env d)) = Inr g"
        "uuids (env d) (Suc (draws (env d))) = Inl e" "reTTL (rEntity r) = Some ttl"
    | (ok) g tag ttl where "uuids (env d) (draws (env d)) = Inr g"
        "uuids (env d) (Suc (draws (env d))) = Inr tag" "reTTL (rEntity r) = Some ttl"
    by (metis (no_types) not_Some_eq sum.exhaust)
  then show ?thesis
  proof cases
    case nottl
    with assms show ?thesis
      by (cases "uuids (env d) (draws (env d))") (auto simp: defs)
  next
    case (ok g tag ttl)
    define new where "new = fresh_route r (clock (env d) (ticks (env d))) g tag"
    obtain y s' where s: "t_create (routes_tbl db) new (store d) = (y, s')"
      by (cases "t_create (routes_tbl db) new (store d)")
    let ?d = "d\<lparr>env := (env d)\<lparr>ticks := Suc (ticks (env d)), draws := Suc (Suc (draws (env d)))\<rparr>, store := s'\<rparr>"
    have "(x, d') = (case y of
        Ok n \<Rightarrow> emitEvent CreateEvent (RouteObj new) ?d | Fail e \<Rightarrow> (Fail e, ?d) | Panic p \<Rightarrow> (Panic p, ?d))"
      using assms(1) ok s [unfolded new_def fresh_route_def]
      by (cases y) (simp_all add: defs Let_def new_def fresh_route_def)
    with R.create_result [OF s] ok new_def show ?thesis
      by (cases y) (auto simp: emitEvent_apply)
  qed (use assms in \<open>auto simp: defs\<close>)
qed

lemma route_remove_result:
  assumes "bindE (sql (Client_Delete cl routes_tbl r [])) (\<lambda>_. emitEvent DeleteEvent (RouteObj r)) d = (x, d')"
    and "route_guid r \<noteq> []"
  shows "route_rest d' = route_rest d \<and>
    (case x of
       Ok _ \<Rightarrow>
         rrows (store d') = filter (\<lambda>y. route_guid y \<noteq> route_guid r) (rrows (store d)) \<and>
         httpEventHub d' = Emit \<lparr>evType = DeleteEvent, evValue = Marshal (Route_json r)\<rparr> (httpEventHub d)
     | Fail e \<Rightarrow> rrows (store d') = rrows (store d) \<and> httpEventHub d' = httpEventHub d
     | Panic p \<Rightarrow> False)"
proof -
  obtain y s' where s: "t_delete (routes_tbl db) r [] (store d) = (y, s')"
    by (cases "t_delete (routes_tbl db) r [] (store d)")
  show ?thesis
  proof (cases y)
    case (Ok n)
    with assms s R.delete_by_key [OF s [unfolded Ok] assms(2)] R.delete_result [OF s] show ?thesis
      by (auto simp: then_emit client_defs emitEvent_apply)
  qed (use assms s R.delete_result [OF s] in \<open>auto simp: then_emit client_defs\<close>)
qed

lemma FindExistingTcpRouteMapping_result:
  assumes "FindExistingTcpRouteMapping cl r d = (x, d')"
  shows "trows (store d') = trows (store d) \<and> tcpEventHub d' = tcpEventHub d \<and> tcp_rest d' = tcp_rest d \<and>
    env d' = env d \<and>
    (case x of
       Ok w \<Rightarrow> filter (\<lambda>y. tcp_key y = tcp_key r) (trows (store d)) = [w] \<or>
              filter (\<lambda>y. tcp_key y = tcp_key r) (trows (store d)) = [] \<and> w = zero_TcpRouteMapping
     | Fail e \<Rightarrow> True | Panic p \<Rightarrow> False)"
proof -
  obtain y s' where f: "t_find (tcp_routes_tbl db) (tcp_where r) (store d) = (y, s')"
    by (cases "t_find (tcp_routes_tbl db) (tcp_where r) (store d)")
  have m: "filter (\<lambda>y. tcp_key y = tcp_key r) (trows (store d)) = rs"
    if "y = Ok rs" "length rs \<le> 1" for rs
    using T.find_few [of "tcp_where r" "store d" rs s'] f that by (simp add: sat_tcp_where)
  note step = assms T.find_result [OF f] f
  note defs = FindExistingTcpRouteMapping_def client_defs bindE_def zoom_def
  show ?thesis
  proof (cases y)
    case (Ok rs)
    consider "rs = []" | w where "rs = [w]" | "length rs > 1"
      by (cases rs rule: remdups_adj.cases) auto
    then show ?thesis
      by cases (use step Ok m in \<open>auto simp: defs\<close>)
  qed (use step in \<open>auto simp: defs\<close>)
qed

lemma tcp_update_result:
  assumes run: "SaveTcpRouteMapping_write cl r old d = (x, d')" and "old \<noteq> zero_TcpRouteMapping"
    and old: "old \<in> set (trows (store d))"
    and new: "new = renewed_tcp old r (clock (env d) (ticks (env d)))"
  shows "tcp_rest d' = tcp_rest d \<and>
    (case x of
       Ok _ \<Rightarrow>
         trows (store d') = map (\<lambda>y. if tcp_guid y = tcp_guid old then tstored new else y) (trows (store d)) \<and>
         tcpEventHub d' = Emit \<lparr>evType = UpdateEvent, evValue = Marshal (TcpRouteMapping_json new)\<rparr> (tcpEventHub d)
     | Fail e \<Rightarrow> trows (store d') = trows (store d) \<and> tcpEventHub d' = tcpEventHub d
     | Panic p \<Rightarrow> trows (store d') = trows (store d) \<and> tcpEventHub d' = tcpEventHub d \<and>
         teTTL (tEntity r) = None)"
proof (cases "tcp_effective_ttl old r")
  case None
  with assms show ?thesis
    by (auto simp: SaveTcpRouteMapping_write_def bindE_def zoom_def updateTcpRouteMapping_eq tcp_effective_ttl_def split: if_splits)
next
  case (Some ttl)
  obtain y s' where s: "t_save (tcp_routes_tbl db) new (store d) = (y, s')"
    by (cases "t_save (tcp_routes_tbl db) new (store d)")
  let ?d = "d\<lparr>env := (env d)\<lparr>ticks := Suc (ticks (env d))\<rparr>, store := s'\<rparr>"
  have step: "(case y of Ok n \<Rightarrow> emitEvent UpdateEvent (TcpObj new) ?d
      | Fail e \<Rightarrow> (Fail e, ?d) | Panic p \<Rightarrow> (Panic p, ?d)) = (x, d')"
    using assms(1,2) Some s unfolding new
    by (simp add: SaveTcpRouteMapping_write_def client_defs bindE_simps zoom_apply updateTcpRouteMapping_eq then_emit)
  show ?thesis
  proof (cases y)
    case (Ok n)
    have "trows s' = map (\<lambda>y. if tcp_guid y = tcp_guid old then tstored new else y) (trows (store d))"
      using T.save_existing [OF s [unfolded Ok] old] new by simp
    with T.save_result [OF s] step Ok show ?thesis
      by (auto simp: emitEvent_apply)
  qed (use T.save_result [OF s] step in auto)
qed

lemma tcp_create_result:
  assumes "SaveTcpRouteMapping_write cl r zero_TcpRouteMapping d = (x, d')"
  shows "tcp_rest d' = tcp_rest d \<and>
    (case x of
       Ok _ \<Rightarrow> \<exists>g tag new. uuids (env d) (draws (env d)) = Inr g \<and>
         new = fresh_tcp r (clock (env d) (ticks (env d))) g tag \<and>
         g \<notin> tcp_guid ` set (trows (store d)) \<and>
         trows (store d') = trows (store d) @ [tstored new] \<and>
         tcpEventHub d' = Emit \<lparr>evType = CreateEvent, evValue = Marshal (TcpRouteMapping_json new)\<rparr> (tcpEventHub d)
     | Fail e \<Rightarrow> trows (store d') = trows (store d) \<and> tcpEventHub d' = tcpEventHub d
     | Panic p \<Rightarrow> trows (store d') = trows (store d) \<and> tcpEventHub d' = tcpEventHub d \<and>
         teTTL (tEntity r) = None)"
proof -
  note defs = SaveTcpRouteMapping_write_def NewTcpRouteMappingWithModel_def NewModificationTag_def uuid_NewV4_def time_Now_def
    bindE_def zoom_def client_defs
  consider (nottl) "teTTL (tEntity r) = None"
    | (noguid) e ttl where "uuids (env d) (draws (env d)) = Inl e" "teTTL (tEntity r) = Some ttl"
    | (notag) g e ttl where "uuids (env d) (draws (env d)) = Inr g"
        "uuids (env d) (Suc (draws (env d))) = Inl e" "teTTL (tEntity r) = Some ttl"
    | (ok) g tag ttl where "uuids (env d) (draws (env d)) = Inr g"
        "uuids (env d) (Suc (draws (env d))) = Inr tag" "teTTL (tEntity r) = Some ttl"
    by (metis (no_types) not_Some_eq sum.exhaust)
  then show ?thesis
  proof cases
    case nottl
    with assms show ?thesis
      by (cases "uuids (env d) (draws (env d))") (auto simp: defs)
  next
    case (ok g tag ttl)
    define new where "new = fresh_tcp r (clock (env d) (ticks (env d))) g tag"
    obtain y s' where s: "t_create (tcp_routes_tbl db) new (store d) = (y, s')"
      by (cases "t_create (tcp_routes_tbl db) new (store d)")
    let ?d = "d\<lparr>env := (env d)\<lparr>ticks := Suc (ticks (env d)), draws := Suc (Suc (draws (env d)))\<rparr>, store := s'\<rparr>"
    have "(x, d') = (case y of
        Ok n \<Rightarrow> emitEvent CreateEvent (TcpObj new) ?d | Fail e \<Rightarrow> (Fail e, ?d) | Panic p \<Rightarrow> (Panic p, ?d))"
      using assms(1) ok s [unfolded new_def fresh_tcp_def]
      by (cases y) (simp_all add: defs Let_def new_def fresh_tcp_def)
    with T.create_result [OF s] ok new_def show ?thesis
      by (cases y) (auto simp: emitEvent_apply)
  qed (use assms in \<open>auto simp: defs\<close>)
qed

lemma tcp_remove_result:
  assumes "bindE (sql (Client_Delete cl tcp_routes_tbl r [])) (\<lambda>_. emitEvent DeleteEvent (TcpObj r)) d = (x, d')"
    and "tcp_guid r \<noteq> []"
  shows "tcp_rest d' = tcp_rest d \<and>
    (case x of
       Ok _ \<Rightarrow>
         trows (store d') = filter (\<lambda>y. tcp_guid y \<noteq> tcp_guid r) (trows (store d)) \<and>
         tcpEventHub d' = Emit \<lparr>evType = DeleteEvent, evValue = Marshal (TcpRouteMapping_json r)\<rparr> (tcpEventHub d)
     | Fail e \<Rightarrow> trows (store d') = trows (store d) \<and> tcpEventHub d' = tcpEventHub d
     | Panic p \<Rightarrow> False)"
proof -
  obtain y s' where s: "t_delete (tcp_routes_tbl db) r [] (store d) = (y, s')"
    by (cases "t_delete (tcp_routes_tbl db) r [] (store d)")
  show ?thesis
  proof (cases y)
    case (Ok n)
    with assms s T.delete_by_key [OF s [unfolded Ok] assms(2)] T.delete_result [OF s] show ?thesis
      by (auto simp: then_emit client_defs emitEvent_apply)
  qed (use assms s T.delete_result [OF s] in \<open>auto simp: then_emit client_defs\<close>)
qed

end

lemma world_uuids:
  "keeps (\<lambda>w. uuids w = u) time_Now" "keeps (\<lambda>w. uuids w = u) uuid_NewV4"
  by (simp_all add: keeps_def time_Now_def uuid_NewV4_def)

lemma models_uuids:
  "keeps (\<lambda>w. uuids w = u) (updateRoute old route)" "keeps (\<lambda>w. uuids w = u) (NewRouteWithModel route)"
  "keeps (\<lambda>w. uuids w = u) (updateTcpRouteMapping told m)"
  "keeps (\<lambda>w. uuids w = u) (NewTcpRouteMappingWithModel m)"
  "keeps (\<lambda>w. uuids w = u) NewModificationTag"
  unfolding updateRoute_def NewRouteWithModel_def updateTcpRouteMapping_def NewTcpRouteMappingWithModel_def
    NewModificationTag_def Let_def
  by (intro keeps_intros world_uuids)+

lemma zooms_uuids:
  "keeps (\<lambda>d. uuids (env d) = u) (sql m)"
  "keeps (\<lambda>w. uuids w = u) m' \<Longrightarrow> keeps (\<lambda>d. uuids (env d) = u) (outside m')"
  "keeps (\<lambda>d. uuids (env d) = u) (emitEvent ty obj)"
proof -
  show "keeps (\<lambda>d. uuids (env d) = u) (sql m)"
    by (rule keeps_zoom) simp
  show "keeps (\<lambda>d. uuids (env d) = u) (outside m')" if k: "keeps (\<lambda>w. uuids w = u) m'"
    by (rule keeps_zoom) (simp, rule keepsD [OF k])
  show "keeps (\<lambda>d. uuids (env d) = u) (emitEvent ty obj)"
    unfolding emitEvent_def by (cases obj) (simp_all add: keeps_bindE keeps_return keeps_modifyE)
qed

lemma writes_uuids:
  "SaveRoute_write c r old d = (x, d') \<Longrightarrow> uuids (env d') = uuids (env d)"
  "SaveTcpRouteMapping_write c m told d = (x, d') \<Longrightarrow> uuids (env d') = uuids (env d)"
proof -
  have "keeps (\<lambda>d. uuids (env d) = uuids (env e)) (SaveRoute_write c r old)" for e :: "'a SqlDB"
    unfolding SaveRoute_write_def Let_def by (intro keeps_intros zooms_uuids models_uuids)
  then show "SaveRoute_write c r old d = (x, d') \<Longrightarrow> uuids (env d') = uuids (env d)"
    by (rule keepsD) (rule refl)
  have "keeps (\<lambda>d. uuids (env d) = uuids (env e)) (SaveTcpRouteMapping_write c m told)" for e :: "'a SqlDB"
    unfolding SaveTcpRouteMapping_write_def Let_def by (intro keeps_intros zooms_uuids models_uuids)
  then show "SaveTcpRouteMapping_write c m told d = (x, d') \<Longrightarrow> uuids (env d') = uuids (env d)"
    by (rule keepsD) (rule refl)
qed

sublocale sql_store \<subseteq> http: route_repository
  "\<lambda>d. rrows (store d)" httpEventHub "\<lambda>d. (trows (store d), grows (store d), tcpEventHub d, locker d)"
  env route_key route_guid zero_Route rstored Route_json "\<lambda>r. reTTL (rEntity r)"
  renewed_route fresh_route "readRoute (NewGormClient db)" "SaveRoute_write (NewGormClient db)"
  "\<lambda>r. bindE (sql (Client_Delete (NewGormClient db) routes_tbl r []))
     (\<lambda>_. emitEvent DeleteEvent (RouteObj r))"
  by unfold_locales
    (use readRoute_result route_update_result route_create_result route_remove_result writes_uuids(1) in
      \<open>simp_all add: zero_Route_def zero_Model_def\<close>)

sublocale sql_store \<subseteq> tcp: route_repository
  "\<lambda>d. trows (store d)" tcpEventHub "\<lambda>d. (rrows (store d), grows (store d), httpEventHub d, locker d)"
  env tcp_key tcp_guid zero_TcpRouteMapping tstored TcpRouteMapping_json "\<lambda>t. teTTL (tEntity t)"
  renewed_tcp fresh_tcp "FindExistingTcpRouteMapping (NewGormClient db)"
  "SaveTcpRouteMapping_write (NewGormClient db)"
  "\<lambda>t. bindE (sql (Client_Delete (NewGormClient db) tcp_routes_tbl t []))
     (\<lambda>_. emitEvent DeleteEvent (TcpObj t))"
  by unfold_locales
    (use FindExistingTcpRouteMapping_result tcp_update_result tcp_create_result tcp_remove_result
        writes_uuids(2) in
      \<open>simp_all add: zero_TcpRouteMapping_def zero_Model_def\<close>)

section \<open>Saving and deleting\<close>

context sql_store
begin

lemmas http_save_result = http.save_result
lemmas http_delete_result = http.delete_result
lemmas tcp_save_result = tcp.save_result
lemmas tcp_delete_result = tcp.delete_result
lemmas http_saves_result = http.saves_result
lemmas tcp_saves_result = tcp.saves_result

end

text \<open>
  (C1) Saving an HTTP route refines the update of a map. On a table without duplicates, whatever
  \<open>SaveRoute\<close> ends with, the table stays free of duplicates and the other tables, the TCP hub and
  the backup lock are untouched. If it succeeds, exactly the entry of the route's key (route, IP,
  port, route service URL) changes: a new route gets a fresh row with modification index 0 that
  expires after its TTL; an existing one keeps its identity, has its index incremented, its TTL and
  log identifier replaced if given, and its expiry renewed; and exactly one event with the row
  goes to the HTTP hub. If it fails or panics, nothing changes, and it panics only on a route
  without a TTL.
\<close>

theorem SaveRoute_updates_table:
  assumes "sql_store db rrows trows grows rstored tstored gstored"
    and "table_wf route_key route_guid (rrows (store d))"
    and "good_uuids (env d)"
    and "SaveRoute (NewGormClient db) route d = (x, d')"
    and "before = table_of route_key (rrows (store d))"
    and "now = clock (env d) (ticks (env d))"
  shows "trows (store d') = trows (store d) \<and> grows (store d') = grows (store d) \<and>
    tcpEventHub d' = tcpEventHub d \<and> locker d' = locker d \<and>
    table_wf route_key route_guid (rrows (store d')) \<and>
    (case x of
       Ok _ \<Rightarrow> \<exists>new.
         (case before (route_key route) of
            Some old \<Rightarrow> new = renewed_route old route now
          | None \<Rightarrow> \<exists>guid tag. new = fresh_route route now guid tag) \<and>
         table_of route_key (rrows (store d')) = before(route_key route \<mapsto> rstored new) \<and>
         httpEventHub d' = Emit
           \<lparr>evType = if before (route_key route) = None then CreateEvent else UpdateEvent,
            evValue = Marshal (Route_json new)\<rparr> (httpEventHub d)
     | Fail e \<Rightarrow> rrows (store d') = rrows (store d) \<and> httpEventHub d' = httpEventHub d
     | Panic p \<Rightarrow> rrows (store d') = rrows (store d) \<and> httpEventHub d' = httpEventHub d \<and>
         reTTL (rEntity route) = None)"
  unfolding assms(5,6)
  using sql_store.http_save_result [OF assms(1,2,3) assms(4) [unfolded SaveRoute_def]]
  by simp

lemma ex_tables:
  "mroutes (store ex_db) = []" "mtcp (store ex_db) = []" "mrgs (store ex_db) = []"
  "mroutes (store ex_full) = [ex_row]" "mtcp (store ex_full) = [ex_tcp_row]"
  "mrgs (store ex_full) = [NewRouterGroupDB ex_rg]"
  "route_key ex_row = route_key ex_route" "tcp_key ex_tcp_row = tcp_key ex_tcp"
  "route_guid ex_row = ''r''" "tcp_guid ex_tcp_row = ''t''"
  by (simp_all add: ex_defs route_key_def tcp_key_def)

lemma small_tables:
  "table_wf key guid []" "table_of key [] = Map.empty"
  "table_wf key guid [r] \<longleftrightarrow> guid r \<noteq> []" "table_of key [r] = [key r \<mapsto> r]"
  by (auto simp: table_wf_def table_of_def)

lemma ex_stored:
  "rExpiresAt (fresh_route ex_route 1700000000500000000 g t) = 1700000060500000000"
  "tExpiresAt (fresh_tcp ex_tcp 1700000000500000000 g t) = 1700000060500000000"
  "to_second 1700000060500000000 = 1700000060000000000"
  by (simp_all add: fresh_route_def fresh_tcp_def ex_defs seconds_def int64_def second_def to_second_def)

theorem SaveRoute_updates_table_witness:
  "fst (SaveRoute (NewGormClient mem_db) ex_route ex_db) = Ok () \<and>
   (\<exists>guid tag. table_of route_key (mroutes (store (snd (SaveRoute (NewGormClient mem_db) ex_route ex_db)))) =
      [route_key ex_route \<mapsto>
         (fresh_route ex_route 1700000000500000000 guid tag)\<lparr>rExpiresAt := 1700000060000000000\<rparr>])"
  using SaveRoute_updates_table [OF mem.sql_store_axioms _ ex_uuids(1) prod.collapse [symmetric] refl refl,
      of ex_route] ex_saves(1)
  by (simp add: ex_tables small_tables ex_clock) (metis ex_stored)



text \<open>
  (C3) Deleting an HTTP route refines the removal of a key. It succeeds only if the key has a row,
  and then exactly this row is gone and announced, as it was, in one \<open>Delete\<close> event; a failure
  changes nothing, and it never panics.
\<close>

theorem DeleteRoute_updates_table:
  assumes "sql_store db rrows trows grows rstored tstored gstored"
    and "table_wf route_key route_guid (rrows (store d))"
    and "DeleteRoute (NewGormClient db) route d = (x, d')"
    and "before = table_of route_key (rrows (store d))"
  shows "trows (store d') = trows (store d) \<and> grows (store d') = grows (store d) \<and>
    tcpEventHub d' = tcpEventHub d \<and> locker d' = locker d \<and>
    table_wf route_key route_guid (rrows (store d')) \<and>
    (case x of
       Ok _ \<Rightarrow> \<exists>old. before (route_key route) = Some old \<and>
         table_of route_key (rrows (store d')) = before(route_key route := None) \<and>
         httpEventHub d' =
           Emit \<lparr>evType = DeleteEvent, evValue = Marshal (Route_json old)\<rparr> (httpEventHub d)
     | Fail e \<Rightarrow> rrows (store d') = rrows (store d) \<and> httpEventHub d' = httpEventHub d
     | Panic p \<Rightarrow> False)"
  unfolding assms(4)
  using sql_store.http_delete_result [OF assms(1,2) assms(3) [unfolded DeleteRoute_def]] by simp

theorem DeleteRoute_updates_table_witness:
  "fst (DeleteRoute (NewGormClient mem_db) ex_route ex_full) = Ok () \<and>
   table_of route_key (mroutes (store (snd (DeleteRoute (NewGormClient mem_db) ex_route ex_full)))) = Map.empty"
  using DeleteRoute_updates_table [OF mem.sql_store_axioms _ prod.collapse [symmetric] refl,
      of ex_full ex_route] ex_deletes(1)
  by (auto simp: ex_tables small_tables)

text \<open>
  Deleting a TCP route mapping refines the removal of a key in the same way.
\<close>

theorem DeleteTcpRouteMapping_updates_table:
  assumes "sql_store db rrows trows grows rstored tstored gstored"
    and "table_wf tcp_key tcp_guid (trows (store d))"
    and "DeleteTcpRouteMapping (NewGormClient db) m d = (x, d')"
    and "before = table_of tcp_key (trows (store d))"
  shows "rrows (store d') = rrows (store d) \<and> grows (store d') = grows (store d) \<and>
    httpEventHub d' = httpEventHub d \<and> locker d' = locker d \<and>
    table_wf tcp_key tcp_guid (trows (store d')) \<and>
    (case x of
       Ok _ \<Rightarrow> \<exists>old. before (tcp_key m) = Some old \<and>
         table_of tcp_key (trows (store d')) = before(tcp_key m := None) \<and>
         tcpEventHub d' =
           Emit \<lparr>evType = DeleteEvent, evValue = Marshal (TcpRouteMapping_json old)\<rparr> (tcpEventHub d)
     | Fail e \<Rightarrow> trows (store d') = trows (store d) \<and> tcpEventHub d' = tcpEventHub d
     | Panic p \<Rightarrow> False)"
  unfolding assms(4)
  using sql_store.tcp_delete_result [OF assms(1,2) assms(3) [unfolded DeleteTcpRouteMapping_def]] by simp

theorem DeleteTcpRouteMapping_updates_table_witness:
  "fst (DeleteTcpRouteMapping (NewGormClient mem_db) ex_tcp ex_full) = Ok () \<and>
   table_of tcp_key (mtcp (store (snd (DeleteTcpRouteMapping (NewGormClient mem_db) ex_tcp ex_full)))) = Map.empty"
  using DeleteTcpRouteMapping_updates_table [OF mem.sql_store_axioms _ prod.collapse [symmetric] refl,
      of ex_full ex_tcp] ex_deletes(2)
  by (auto simp: ex_tables small_tables)

end
