(* ===== verification/Router_Group_Store.thy ===== *)
theory Router_Group_Store
  imports Route_Store
begin

text \<open>
  What saving, deleting and reading router groups does (\<open>db/db_sql.go\<close>): the table is a map from
  identifiers to names, types and reservable ports, and the backup lock freezes it.
\<close>


section \<open>Router groups as a map\<close>

text \<open>A router group as clients see it, by its identifier.\<close>

definition rg_content :: "RouterGroupDB \<Rightarrow> string \<times> string \<times> string" where
  "rg_content g = (dbName g, dbType g, dbReservablePorts g)"

definition rg_table :: "RouterGroupDB list \<Rightarrow> string \<rightharpoonup> string \<times> string \<times> string" where
  "rg_table rows guid = map_option rg_content (table_of rg_guid rows guid)"

text \<open>An update keeps the name and the type if the new ones are empty, and replaces the ports.\<close>

definition rg_merge :: "(string \<times> string \<times> string) option \<Rightarrow> RouterGroup \<Rightarrow> string \<times> string \<times> string" where
  "rg_merge old g =
     (case old of
        None \<Rightarrow> (rgName g, rgType g, rgReservablePorts g)
      | Some (name, ty, ports) \<Rightarrow>
          (if rgName g = [] then name else rgName g, if rgType g = [] then ty else rgType g,
           rgReservablePorts g))"

lemma rg_table_upd:
  "table_of rg_guid rows' = (table_of rg_guid rows)(k \<mapsto> g) \<Longrightarrow>
   rg_table rows' = (rg_table rows)(k \<mapsto> rg_content g)"
  by (auto simp: rg_table_def fun_eq_iff)

lemma rg_table_remove:
  "table_of rg_guid rows' = (table_of rg_guid rows)(k := None) \<Longrightarrow>
   rg_table rows' = (rg_table rows)(k := None)"
  by (auto simp: rg_table_def fun_eq_iff)

lemma ToRouterGroup_zero: "mGuid (dbModel g) \<noteq> [] \<Longrightarrow> ToRouterGroup g \<noteq> zero_RouterGroup"
  by (simp add: ToRouterGroup_def zero_RouterGroup_def)

lemma sat_rg_guid: "sat rg_col [CEq ''guid'' (VStr guid)] = (\<lambda>g. rg_guid g = guid)"
  by (auto simp: fun_eq_iff rg_col_def)

lemma update_content:
  assumes "rg_guid old \<noteq> []"
  shows "rg_guid (NewRouterGroupDB (updateRouterGroup (ToRouterGroup old) g)) = rg_guid old"
    and "rg_content (NewRouterGroupDB (updateRouterGroup (ToRouterGroup old) g)) =
      rg_merge (Some (rg_content old)) g"
  using assms
  by (simp_all add: NewRouterGroupDB_def updateRouterGroup_def ToRouterGroup_def rg_content_def rg_merge_def Let_def)

context sql_store
begin

abbreviation rg_rest where
  "rg_rest d \<equiv> (rrows (store d), trows (store d), tcpEventHub d, httpEventHub d, locker d, env d)"

abbreviation rgs_wf where
  "rgs_wf d \<equiv> table_wf rg_guid rg_guid (grows (store d))"

lemma gstored_content: "rg_content (gstored g) = rg_content g" "rg_guid (gstored g) = rg_guid g"
  using gstored_fields by (simp_all add: rg_content_def G.stored_key)

lemma ReadRouterGroup_locked:
  "isReadLocked (locker d) \<Longrightarrow> ReadRouterGroup c guid d = (Fail backupError, d)"
  by (simp add: ReadRouterGroup_def)

lemma ReadRouterGroup_result:
  assumes wf: "rgs_wf d" and run: "ReadRouterGroup cl guid d = (x, d')"
  shows "grows (store d') = grows (store d) \<and> rg_rest d' = rg_rest d \<and>
    (case x of
       Ok g \<Rightarrow> \<not> isReadLocked (locker d) \<and>
         (case table_of rg_guid (grows (store d)) guid of
            Some row \<Rightarrow> g = ToRouterGroup row \<and> rg_guid row = guid \<and> row \<in> set (grows (store d))
          | None \<Rightarrow> g = zero_RouterGroup)
     | Fail e \<Rightarrow> True | Panic p \<Rightarrow> False)"
proof (cases "isReadLocked (locker d)")
  case True
  with run show ?thesis by (auto simp: ReadRouterGroup_locked)
next
  case False
  obtain y s' where f: "t_first (router_groups_tbl db) [CEq ''guid'' (VStr guid)] (store d) = (y, s')"
    by (cases "t_first (router_groups_tbl db) [CEq ''guid'' (VStr guid)] (store d)")
  have keys: "distinct (map rg_guid (grows (store d)))"
    using wf by (simp add: table_wf_def)
  have step: "(x, d') = (case y of
      Ok g \<Rightarrow> (Ok (ToRouterGroup g), d\<lparr>store := s'\<rparr>)
    | Fail e \<Rightarrow> (if recordNotFound e then Ok zero_RouterGroup else Fail e, d\<lparr>store := s'\<rparr>)
    | Panic p \<Rightarrow> (Panic p, d\<lparr>store := s'\<rparr>))"
    using run False f
    by (cases y) (auto simp: ReadRouterGroup_def client_defs tryE_def zoom_def split: if_splits)
  show ?thesis
  proof (cases y)
    case (Ok row)
    with G.first_result [OF f] have "table_of rg_guid (grows (store d)) guid = Some row"
      by (simp add: table_of_iff [OF keys] sat_rg_guid)
    with Ok step G.first_result [OF f] False show ?thesis
      by (simp add: sat_rg_guid)
  next
    case (Fail e)
    with G.first_result [OF f] have "e = ErrRecordNotFound \<Longrightarrow> table_of rg_guid (grows (store d)) guid = None"
      by (simp add: filter_key_table(2) [OF keys] sat_rg_guid)
    with Fail step G.first_result [OF f] False show ?thesis
      by (auto simp: recordNotFound_def)
  qed (use G.first_result [OF f] in simp)
qed

text \<open>\<open>SaveRouterGroup\<close> and \<open>DeleteRouterGroup\<close> after a successful lookup.\<close>

lemma save_row_result:
  assumes wf: "rgs_wf d" and old: "table_of rg_guid (grows (store d)) (rg_guid g) = Some old"
    and run: "sql (Client_Save cl router_groups_tbl g) d = (x, d')"
  shows "rg_rest d' = rg_rest d \<and> rgs_wf d' \<and>
    (case x of
       Ok _ \<Rightarrow> rg_table (grows (store d')) = (rg_table (grows (store d)))(rg_guid g \<mapsto> rg_content g)
     | Fail e \<Rightarrow> grows (store d') = grows (store d) | Panic p \<Rightarrow> False)"
proof -
  obtain y s' where s: "t_save (router_groups_tbl db) g (store d) = (y, s')"
    by (cases "t_save (router_groups_tbl db) g (store d)")
  have d': "x = y" "d' = d\<lparr>store := s'\<rparr>"
    using run s by (auto simp: client_defs zoom_def)
  have row: "old \<in> set (grows (store d))" "rg_guid old = rg_guid g"
    using table_of_Some [OF old] by auto
  show ?thesis
  proof (cases y)
    case (Ok n)
    have "grows s' = map (\<lambda>y. if rg_guid y = rg_guid old then gstored g else y) (grows (store d))"
      using G.save_existing [OF s [unfolded Ok] row] row by simp
    with Ok d' row G.save_result [OF s] table_wf_replace [OF wf row(1), of "gstored g"]
      table_of_replace [OF wf row(1), of "gstored g"]
    show ?thesis
      by (auto simp: gstored_content dest: rg_table_upd)
  qed (use d' G.save_result [OF s] wf in auto)
qed

lemma create_row_result:
  assumes wf: "rgs_wf d" and guid: "rg_guid g \<noteq> []"
    and run: "sql (Client_Create cl router_groups_tbl g) d = (x, d')"
  shows "rg_rest d' = rg_rest d \<and> rgs_wf d' \<and>
    (case x of
       Ok _ \<Rightarrow> rg_table (grows (store d')) = (rg_table (grows (store d)))(rg_guid g \<mapsto> rg_content g)
     | Fail e \<Rightarrow> grows (store d') = grows (store d) | Panic p \<Rightarrow> False)"
proof -
  obtain y s' where s: "t_create (router_groups_tbl db) g (store d) = (y, s')"
    by (cases "t_create (router_groups_tbl db) g (store d)")
  have d': "x = y" "d' = d\<lparr>store := s'\<rparr>"
    using run s by (auto simp: client_defs zoom_def)
  show ?thesis
  proof (cases y)
    case (Ok n)
    note c = G.create_Ok [OF s [unfolded Ok]]
    with Ok d' guid wf G.create_result [OF s] table_wf_append [OF wf, of "gstored g"]
      table_of_append [of rg_guid "gstored g" "grows (store d)"]
    show ?thesis
      by (auto simp: gstored_content dest: rg_table_upd)
  qed (use d' G.create_result [OF s] wf in auto)
qed

lemma SaveRouterGroup_result:
  assumes wf: "rgs_wf d" and guid: "rgGuid g \<noteq> []" "mGuid (rgModel g) = [] \<or> mGuid (rgModel g) = rgGuid g"
    and run: "SaveRouterGroup cl g d = (x, d')"
  shows "rg_rest d' = rg_rest d \<and> rgs_wf d' \<and>
    (case x of
       Ok _ \<Rightarrow> \<not> isReadLocked (locker d) \<and> \<not> isWriteLocked (locker d) \<and>
         rg_table (grows (store d')) =
           (rg_table (grows (store d)))(rgGuid g \<mapsto> rg_merge (rg_table (grows (store d)) (rgGuid g)) g)
     | Fail e \<Rightarrow> grows (store d') = grows (store d) | Panic p \<Rightarrow> False)"
proof (cases "isWriteLocked (locker d)")
  case True
  with run wf show ?thesis by (auto simp: SaveRouterGroup_def)
next
  case False
  obtain y d1 where r: "ReadRouterGroup cl (rgGuid g) d = (y, d1)"
    by (cases "ReadRouterGroup cl (rgGuid g) d")
  note rr = ReadRouterGroup_result [OF wf r]
  then have d1: "rg_rest d1 = rg_rest d" "grows (store d1) = grows (store d)" "rgs_wf d1"
    using wf by simp_all
  show ?thesis
  proof (cases y)
    case (Ok existing)
    show ?thesis
    proof (cases "table_of rg_guid (grows (store d)) (rgGuid g)")
      case None
      let ?g = "NewRouterGroupDB g"
      have g: "rg_guid ?g = rgGuid g" "rg_content ?g = rg_merge (rg_table (grows (store d)) (rgGuid g)) g"
        using guid None by (auto simp: NewRouterGroupDB_def rg_content_def rg_merge_def rg_table_def Let_def)
      have "existing = zero_RouterGroup"
        using rr Ok None by simp
      with run r Ok False guid have "bindE (sql (Client_Create cl router_groups_tbl ?g)) (\<lambda>_. returnE ()) d1 = (x, d')"
        by (simp add: SaveRouterGroup_def bindE_simps zero_RouterGroup_def)
      then obtain z where z: "sql (Client_Create cl router_groups_tbl ?g) d1 = (z, d')" "x = map_go (\<lambda>_. ()) z"
        by (auto simp: bindE_unit prod_eq_iff)
      show ?thesis
        using create_row_result [OF d1(3) _ z(1)] g guid d1 rr Ok False z(2) by (cases z) auto
    next
      case (Some old)
      let ?g = "NewRouterGroupDB (updateRouterGroup existing g)"
      have e: "existing = ToRouterGroup old" "rg_guid old = rgGuid g"
        using rr Ok Some by simp_all
      have g: "rg_guid ?g = rgGuid g" "rg_content ?g = rg_merge (rg_table (grows (store d)) (rgGuid g)) g"
        using update_content [of old g] e guid Some by (simp_all add: rg_table_def)
      have "rgGuid existing = rgGuid g"
        using e by (simp add: ToRouterGroup_def)
      with run r Ok False guid have "bindE (sql (Client_Save cl router_groups_tbl ?g)) (\<lambda>_. returnE ()) d1 = (x, d')"
        by (simp add: SaveRouterGroup_def bindE_simps)
      then obtain z where z: "sql (Client_Save cl router_groups_tbl ?g) d1 = (z, d')" "x = map_go (\<lambda>_. ()) z"
        by (auto simp: bindE_unit prod_eq_iff)
      show ?thesis
        using save_row_result [OF d1(3) _ z(1)] g guid d1 rr Ok False Some z(2) by (cases z) auto
    qed
  qed (use run r rr False wf in \<open>auto simp: SaveRouterGroup_def bindE_simps\<close>)
qed

lemma DeleteRouterGroup_result:
  assumes wf: "rgs_wf d" and run: "DeleteRouterGroup cl guid d = (x, d')"
  shows "rg_rest d' = rg_rest d \<and> rgs_wf d' \<and>
    (case x of
       Ok _ \<Rightarrow> \<not> isReadLocked (locker d) \<and> \<not> isWriteLocked (locker d) \<and>
         guid \<in> dom (rg_table (grows (store d))) \<and>
         rg_table (grows (store d')) = (rg_table (grows (store d)))(guid := None)
     | Fail e \<Rightarrow> grows (store d') = grows (store d) | Panic p \<Rightarrow> False)"
proof (cases "isWriteLocked (locker d)")
  case True
  with run wf show ?thesis by (auto simp: DeleteRouterGroup_def)
next
  case False
  obtain y d1 where r: "ReadRouterGroup cl guid d = (y, d1)"
    by (cases "ReadRouterGroup cl guid d")
  note rr = ReadRouterGroup_result [OF wf r]
  then have d1: "rg_rest d1 = rg_rest d" "grows (store d1) = grows (store d)" "rgs_wf d1"
    using wf by simp_all
  show ?thesis
  proof (cases y)
    case (Ok existing)
    show ?thesis
    proof (cases "table_of rg_guid (grows (store d)) guid")
      case None
      with rr Ok run r False wf show ?thesis
        by (auto simp: DeleteRouterGroup_def bindE_simps)
    next
      case (Some old)
      with rr Ok have e: "existing = ToRouterGroup old" "rg_guid old = guid" "old \<in> set (grows (store d))"
        by auto
      then have "rg_guid old \<noteq> []"
        using wf by (auto simp: table_wf_def image_iff)
      with e have nz: "existing \<noteq> zero_RouterGroup"
        using ToRouterGroup_zero by simp
      obtain z s' where s: "t_delete (router_groups_tbl db) zero_RouterGroupDB [CEq ''guid'' (VStr guid)] (store d1) = (z, s')"
        by (cases "t_delete (router_groups_tbl db) zero_RouterGroupDB [CEq ''guid'' (VStr guid)] (store d1)")
      with run r Ok False nz have step: "(map_go (\<lambda>_. ()) z, d1\<lparr>store := s'\<rparr>) = (x, d')"
        by (cases z) (simp_all add: DeleteRouterGroup_def bindE_def zoom_def client_defs)
      have pk: "pk_cond (rg_guid zero_RouterGroupDB) = []"
        by (simp add: pk_cond_def zero_RouterGroupDB_def zero_Model_def)
      note del = G.delete_result [OF s, unfolded pk append_Nil sat_rg_guid]
      show ?thesis
      proof (cases z)
        case (Ok n)
        have "rg_table (grows s') = (rg_table (grows (store d)))(guid := None)"
          using del Ok table_of_remove [OF wf e(3)] e d1 by (intro rg_table_remove) simp
        with Ok step del d1 e rr \<open>y = Ok existing\<close> Some False table_wf_filter [OF wf] show ?thesis
          by (auto simp: rg_table_def domIff)
      qed (use step del d1 in auto)
    qed
  qed (use run r rr False wf in \<open>auto simp: DeleteRouterGroup_def bindE_simps\<close>)
qed

end

section \<open>The backup lock\<close>

lemma router_groups_frozen:
  "isWriteLocked (locker d) \<Longrightarrow> SaveRouterGroup c g d = (Fail backupError, d)"
  "isWriteLocked (locker d) \<Longrightarrow> DeleteRouterGroup c guid d = (Fail backupError, d)"
  "isReadLocked (locker d) \<Longrightarrow> ReadRouterGroups c d = (Fail backupError, d)"
  "isReadLocked (locker d) \<Longrightarrow> ReadRouterGroup c guid d = (Fail backupError, d)"
  "isReadLocked (locker d) \<Longrightarrow> ReadRouterGroupByName c name d = (Fail backupError, d)"
  by (simp_all add: SaveRouterGroup_def DeleteRouterGroup_def ReadRouterGroups_def
      ReadRouterGroup_def ReadRouterGroupByName_def)

lemma lock_state [simp]:
  "isReadLocked (lockReads l)" "\<not> isReadLocked (unlockReads l)"
  "isWriteLocked (lockWrites l)" "\<not> isWriteLocked (unlockWrites l)"
  "isReadLocked (lockWrites l) = isReadLocked l" "isReadLocked (unlockWrites l) = isReadLocked l"
  "isWriteLocked (lockReads l) = isWriteLocked l" "isWriteLocked (unlockReads l) = isWriteLocked l"
  by (simp_all add: isReadLocked_def isWriteLocked_def lockReads_def unlockReads_def lockWrites_def
      unlockWrites_def)

section \<open>Saving and deleting router groups\<close>

text \<open>
  (C4) Saving a router group with a non-empty identifier refines the update of a map from identifiers to
  names, types and ports (the identifier in the embedded model is empty or the same): a new group is entered as it is, an existing one keeps its name or type if the new one is empty.
  It succeeds only while neither lock is held; a failure changes nothing, it never panics, and
  routes, hubs and locks are untouched.
\<close>

theorem SaveRouterGroup_updates_table:
  assumes "sql_store db rrows trows grows rstored tstored gstored"
    and "table_wf rg_guid rg_guid (grows (store d))"
    and "rgGuid g \<noteq> []" and "mGuid (rgModel g) = [] \<or> mGuid (rgModel g) = rgGuid g"
    and "SaveRouterGroup (NewGormClient db) g d = (x, d')"
    and "before = rg_table (grows (store d))"
  shows "rrows (store d') = rrows (store d) \<and> trows (store d') = trows (store d) \<and>
    tcpEventHub d' = tcpEventHub d \<and> httpEventHub d' = httpEventHub d \<and> locker d' = locker d \<and>
    table_wf rg_guid rg_guid (grows (store d')) \<and>
    (case x of
       Ok _ \<Rightarrow> \<not> isReadLocked (locker d) \<and> \<not> isWriteLocked (locker d) \<and>
         rg_table (grows (store d')) = before(rgGuid g \<mapsto> rg_merge (before (rgGuid g)) g)
     | Fail e \<Rightarrow> grows (store d') = grows (store d)
     | Panic p \<Rightarrow> False)"
  unfolding assms(6) using sql_store.SaveRouterGroup_result [OF assms(1-5)] by simp

lemma ex_rg_values:
  "rgGuid ex_rg = ''rg''" "mGuid (rgModel ex_rg) = []" "rg_guid (NewRouterGroupDB ex_rg) = ''rg''"
  "rg_merge None ex_rg = (''default-tcp'', ''tcp'', ''1024-2048'')"
  by (simp_all add: ex_rg_def zero_RouterGroup_def zero_Model_def rg_merge_def NewRouterGroupDB_def)

lemma small_rg_tables: "rg_table [] = Map.empty" "rg_table [g] = [rg_guid g \<mapsto> rg_content g]"
  by (auto simp: rg_table_def small_tables)

theorem SaveRouterGroup_updates_table_witness:
  "fst (SaveRouterGroup (NewGormClient mem_db) ex_rg ex_db) = Ok () \<and>
   rg_table (mrgs (store (snd (SaveRouterGroup (NewGormClient mem_db) ex_rg ex_db)))) =
     [''rg'' \<mapsto> (''default-tcp'', ''tcp'', ''1024-2048'')]"
proof -
  have "table_wf rg_guid rg_guid (mrgs (store ex_db))" and "rgGuid ex_rg \<noteq> []"
    by (simp_all only: ex_tables small_tables ex_rg_values list.distinct simp_thms)
  from SaveRouterGroup_updates_table [OF mem.sql_store_axioms this disjI1 [OF ex_rg_values(2)]
      prod.collapse [symmetric] refl]
  show ?thesis
    by (simp only: ex_saves ex_rg_values small_rg_tables ex_tables go.case simp_thms)
qed

text \<open>
  (C5) Deleting a router group refines the removal of a key: it succeeds only for an identifier of
  the table while neither lock is held, and then removes exactly this entry; a failure changes
  nothing, and it never panics.
\<close>

theorem DeleteRouterGroup_updates_table:
  assumes "sql_store db rrows trows grows rstored tstored gstored"
    and "table_wf rg_guid rg_guid (grows (store d))"
    and "DeleteRouterGroup (NewGormClient db) guid d = (x, d')"
    and "before = rg_table (grows (store d))"
  shows "rrows (store d') = rrows (store d) \<and> trows (store d') = trows (store d) \<and>
    tcpEventHub d' = tcpEventHub d \<and> httpEventHub d' = httpEventHub d \<and> locker d' = locker d \<and>
    table_wf rg_guid rg_guid (grows (store d')) \<and>
    (case x of
       Ok _ \<Rightarrow> \<not> isReadLocked (locker d) \<and> \<not> isWriteLocked (locker d) \<and> guid \<in> dom before \<and>
         rg_table (grows (store d')) = before(guid := None)
     | Fail e \<Rightarrow> grows (store d') = grows (store d)
     | Panic p \<Rightarrow> False)"
  unfolding assms(4) using sql_store.DeleteRouterGroup_result [OF assms(1-3)] by simp

theorem DeleteRouterGroup_updates_table_witness:
  "fst (DeleteRouterGroup (NewGormClient mem_db) ''rg'' ex_full) = Ok () \<and>
   rg_table (mrgs (store (snd (DeleteRouterGroup (NewGormClient mem_db) ''rg'' ex_full)))) = Map.empty"
proof -
  have "table_wf rg_guid rg_guid (mrgs (store ex_full))"
    by (simp only: ex_tables small_tables ex_rg_values list.distinct simp_thms)
  from DeleteRouterGroup_updates_table [OF mem.sql_store_axioms this prod.collapse [symmetric] refl,
      of "''rg''"]
  show ?thesis
    by (simp add: ex_deletes ex_rg_values small_rg_tables ex_tables)
qed

section \<open>Backups\<close>

text \<open>The requests on router groups that arrive while a backup or restore script runs.\<close>

datatype rg_request =
    ReadAllReq | ReadReq string | ReadByNameReq string | SaveReq RouterGroup | DeleteReq string
  | LockReadsReq | LockWritesReq | UnlockReadsReq | UnlockWritesReq

definition rg_serve :: "'s gormClient \<Rightarrow> rg_request \<Rightarrow> 's SqlDB \<Rightarrow> 's SqlDB" where
  "rg_serve c req d =
     (case req of
        ReadAllReq \<Rightarrow> snd (ReadRouterGroups c d)
      | ReadReq guid \<Rightarrow> snd (ReadRouterGroup c guid d)
      | ReadByNameReq name \<Rightarrow> snd (ReadRouterGroupByName c name d)
      | SaveReq g \<Rightarrow> snd (SaveRouterGroup c g d)
      | DeleteReq guid \<Rightarrow> snd (DeleteRouterGroup c guid d)
      | LockReadsReq \<Rightarrow> snd (LockRouterGroupReads d)
      | LockWritesReq \<Rightarrow> snd (LockRouterGroupWrites d)
      | UnlockReadsReq \<Rightarrow> snd (UnlockRouterGroupReads d)
      | UnlockWritesReq \<Rightarrow> snd (UnlockRouterGroupWrites d))"

context sql_store
begin

lemma first_keeps:
  "keeps (\<lambda>d. grows (store d) = gs \<and> isWriteLocked (locker d)) (sql (Client_First (Client_Where cl q) router_groups_tbl []))"
  by (rule keeps_zoom) (auto simp: client_defs dest!: G.first_result)

lemma find_keeps:
  "keeps (\<lambda>d. grows (store d) = gs \<and> isWriteLocked (locker d)) (sql (Client_Find cl router_groups_tbl []))"
  by (rule keeps_zoom) (auto simp: client_defs dest!: G.find_result)

lemma reads_keep:
  "keeps (\<lambda>d. grows (store d) = gs \<and> isWriteLocked (locker d)) (ReadRouterGroups cl)"
  "keeps (\<lambda>d. grows (store d) = gs \<and> isWriteLocked (locker d)) (ReadRouterGroup cl guid)"
  "keeps (\<lambda>d. grows (store d) = gs \<and> isWriteLocked (locker d)) (ReadRouterGroupByName cl name)"
  unfolding ReadRouterGroups_def ReadRouterGroup_def ReadRouterGroupByName_def
  by (auto intro!: keeps_intros first_keeps find_keeps split: sum.split)

lemma rg_serve_frozen:
  assumes "grows (store d) = gs" and "isWriteLocked (locker d)" and "req \<noteq> UnlockWritesReq"
  shows "grows (store (rg_serve cl req d)) = gs \<and> isWriteLocked (locker (rg_serve cl req d))"
proof -
  note reads = reads_keep [of gs, THEN keeps_snd, OF conjI [OF assms(1,2)]]
  note frozen = router_groups_frozen(1,2) [OF assms(2), of cl]
  show ?thesis
    using assms
    by (cases req) (simp_all add: rg_serve_def reads frozen LockRouterGroupReads_def
        LockRouterGroupWrites_def UnlockRouterGroupReads_def)
qed

lemma rg_serves_frozen:
  assumes "isWriteLocked (locker d)" and "UnlockWritesReq \<notin> set reqs"
  shows "grows (store (fold (rg_serve cl) reqs d)) = grows (store d)"
  using assms
proof (induction reqs arbitrary: d)
  case (Cons req reqs)
  then show ?case
    using rg_serve_frozen [OF refl, of d req] by auto
qed simp

end

text \<open>
  (C14) From the moment the write lock for backups is taken until it is released, no sequence of
  requests, reads and changes of the other lock included, changes the router groups.
\<close>

theorem write_lock_freezes_router_groups:
  assumes "sql_store db rrows trows grows rstored tstored gstored"
    and "UnlockWritesReq \<notin> set reqs"
  shows "grows (store (fold (rg_serve (NewGormClient db)) (LockWritesReq # reqs) d)) = grows (store d)"
  using sql_store.rg_serves_frozen [OF assms(1) _ assms(2), of "rg_serve (NewGormClient db) LockWritesReq d"]
  by (simp add: rg_serve_def LockRouterGroupWrites_def)

theorem write_lock_freezes_router_groups_witness:
  "mrgs (store (fold (rg_serve (NewGormClient mem_db))
     [LockWritesReq, DeleteReq ''rg'', LockReadsReq, SaveReq ex_rg, UnlockReadsReq] ex_full)) =
   [NewRouterGroupDB ex_rg]"
proof -
  have "UnlockWritesReq \<notin> set [DeleteReq ''rg'', LockReadsReq, SaveReq ex_rg, UnlockReadsReq]"
    by simp
  from write_lock_freezes_router_groups [OF mem.sql_store_axioms this, of ex_full] show ?thesis
    by (simp only: ex_tables)
qed

end
