(* ===== verification/Watching.thy ===== *)
theory Watching
  imports Sql_Db
begin

text \<open>
  Watching the routing table: \<open>WatchChanges\<close>, \<open>dispatchWatchEvents\<close> and \<open>CancelWatches\<close> of
  \<open>db/db_sql.go\<close>. A watch is a source of one of the two hubs; its events channel is unbuffered, so
  a round of the dispatching goroutine ends when the reader has taken the event.
\<close>

datatype watch_hub = TcpHub | HttpHub

definition hub_of :: "watch_hub \<Rightarrow> 's SqlDB \<Rightarrow> Event hub" where
  "hub_of h d = (case h of TcpHub \<Rightarrow> tcpEventHub d | HttpHub \<Rightarrow> httpEventHub d)"

definition set_hub :: "watch_hub \<Rightarrow> (Event hub \<Rightarrow> Event hub) \<Rightarrow> 's SqlDB \<Rightarrow> 's SqlDB" where
  "set_hub h f d = (case h of TcpHub \<Rightarrow> tcpEventHub_update f d | HttpHub \<Rightarrow> httpEventHub_update f d)"

abbreviation on_hub :: "watch_hub \<Rightarrow> (Event hub, 'a) action \<Rightarrow> ('s SqlDB, 'a) action" where
  "on_hub h m \<equiv> zoom (hub_of h) (set_hub h) m"

text \<open>
  The three results of \<open>WatchChanges\<close>: either the errors channel holds an error, both channels are
  closed and cancelling does nothing, or a goroutine dispatches the events of a source.
\<close>

datatype watch = WatchError go_error | Watching watch_hub nat

definition watch_hub_type :: "watch_hub \<Rightarrow> ('s SqlDB, watch) action" where
  "watch_hub_type h =
     tryE (on_hub h Subscribe) (\<lambda>result. case result of
        Inl err \<Rightarrow> returnE (WatchError err)
      | Inr sub \<Rightarrow> returnE (Watching h sub))"

definition WatchChanges :: "string \<Rightarrow> ('s SqlDB, watch) action" where
  "WatchChanges watchType =
     (if watchType = ''tcp-watch'' then watch_hub_type TcpHub
      else if watchType = ''http-watch'' then watch_hub_type HttpHub
      else returnE (WatchError (ErrorString (''invalid watch type: '' @ watchType))))"

definition watch_cancelFunc :: "watch \<Rightarrow> ('s SqlDB, unit) action" where
  "watch_cancelFunc w =
     (case w of
        WatchError _ \<Rightarrow> returnE ()
      | Watching h sub \<Rightarrow> tryE (on_hub h (Source_Close sub)) (\<lambda>_. returnE ()))"

definition CancelWatches :: "('s SqlDB, unit) action" where
  "CancelWatches =
     tryE (on_hub TcpHub Hub_Close) (\<lambda>_. tryE (on_hub HttpHub Hub_Close) (\<lambda>_. returnE ()))"

text \<open>
  A round of the loop of \<open>dispatchWatchEvents\<close>: an event is sent, or both channels are closed, with
  or without an error before. \<open>None\<close>: \<open>sub.Next()\<close> blocks. The hubs hold values of type \<open>Event\<close>
  only, so the type assertion does not fail.
\<close>

datatype dispatched = Sent Event | Closed | Errored go_error

definition dispatch_round :: "watch_hub \<Rightarrow> nat \<Rightarrow> 's SqlDB \<Rightarrow> (dispatched \<times> 's SqlDB) option" where
  "dispatch_round h sub d =
     (case Source_Next sub (hub_of h d) of
        None \<Rightarrow> None
      | Some (Inl err, hub) \<Rightarrow>
          Some (if err = ErrReadFromClosedSource then Closed else Errored (HubError err),
                set_hub h (\<lambda>_. hub) d)
      | Some (Inr event, hub) \<Rightarrow> Some (Sent event, set_hub h (\<lambda>_. hub) d))"

lemma hub_of_set_hub [simp]: "hub_of h (set_hub h f d) = f (hub_of h d)"
  by (cases h) (simp_all add: hub_of_def set_hub_def)

lemma hub_of_set_other [simp]: "h \<noteq> h' \<Longrightarrow> hub_of h (set_hub h' f d) = hub_of h d"
  by (cases h; cases h') (simp_all add: hub_of_def set_hub_def)

definition without_first :: "nat \<Rightarrow> 'e hub \<Rightarrow> 'e hub" where
  "without_first sub hub =
     hub\<lparr>sources := (sources hub)(sub := (sources hub sub)\<lparr>sevents := tl (sevents (sources hub sub))\<rparr>)\<rparr>"

lemma dispatch_round_eq:
  "dispatch_round h sub d =
     (case hub_pending (hub_of h d) sub of
        e # es \<Rightarrow> Some (Sent e, set_hub h (\<lambda>_. without_first sub (hub_of h d)) d)
      | [] \<Rightarrow> if sclosed (sources (hub_of h d) sub)
              then Some (Closed, set_hub h (\<lambda>_. hub_of h d) d) else None)"
  by (simp add: dispatch_round_def Source_Next_def source_Next_def hub_pending_def without_first_def
      split: list.splits)

lemma without_first_simps [simp]:
  "hub_pending (without_first sub hub) sub = tl (hub_pending hub sub)"
  "sclosed (sources (without_first sub hub) i) = sclosed (sources hub i)"
  by (simp_all add: without_first_def hub_pending_def)

text \<open>
  The loop, run until it ends or blocks: the events it sends, and how the channels end (\<open>None\<close>: they
  are still open).
\<close>

function dispatchWatchEvents ::
    "watch_hub \<Rightarrow> nat \<Rightarrow> 's SqlDB \<Rightarrow> Event list \<times> dispatched option \<times> 's SqlDB" where
  "dispatchWatchEvents h sub d =
     (case dispatch_round h sub d of
        None \<Rightarrow> ([], None, d)
      | Some (Sent e, d') \<Rightarrow>
          (case dispatchWatchEvents h sub d' of (es, r, d'') \<Rightarrow> (e # es, r, d''))
      | Some (Closed, d') \<Rightarrow> ([], Some Closed, d')
      | Some (Errored err, d') \<Rightarrow> ([], Some (Errored err), d'))"
  by pat_completeness auto
termination
  by (relation "measure (\<lambda>(h, sub, d). length (hub_pending (hub_of h d) sub))")
    (auto simp: dispatch_round_eq split: list.splits if_splits)

declare dispatchWatchEvents.simps [simp del]

section \<open>What a watcher sees\<close>

lemma dispatch_all:
  "hub_pending (hub_of h d) sub = es \<Longrightarrow>
   fst (dispatchWatchEvents h sub d) = es \<and>
   fst (snd (dispatchWatchEvents h sub d)) =
     (if sclosed (sources (hub_of h d) sub) then Some Closed else None)"
proof (induction es arbitrary: d)
  case Nil
  then show ?case
    by (simp add: dispatchWatchEvents.simps [of h sub d] dispatch_round_eq)
next
  case (Cons e es)
  let ?d = "set_hub h (\<lambda>_. without_first sub (hub_of h d)) d"
  have "hub_pending (hub_of h ?d) sub = es"
    using Cons.prems by simp
  note IH = Cons.IH [OF this]
  have "dispatch_round h sub d = Some (Sent e, ?d)"
    using Cons.prems by (simp add: dispatch_round_eq)
  then have "dispatchWatchEvents h sub d =
      (e # fst (dispatchWatchEvents h sub ?d), snd (dispatchWatchEvents h sub ?d))"
    by (subst dispatchWatchEvents.simps) (simp add: case_prod_beta)
  with IH show ?case by simp
qed

lemma Hub_Close_simps [simp]:
  "hclosed (snd (Hub_Close h))"
  "hub_pending (snd (Hub_Close h)) i = hub_pending h i"
  by (simp_all add: Hub_Close_def closeSubscribers_def close_each_result hub_pending_def)

lemma Hub_Close_closes:
  assumes "hub_inv h" and "i < nextSource h"
  shows "sclosed (sources (snd (Hub_Close h)) i)"
proof -
  have "\<not> sclosed (sources h i) \<longrightarrow> i \<in> set (subscribers h)" and "hclosed h \<longrightarrow> subscribers h = []"
    using assms unfolding hub_inv_def by blast+
  then show ?thesis
    by (cases "sclosed (sources h i)"; cases "hclosed h")
      (simp_all add: Hub_Close_def closeSubscribers_def close_each_result)
qed

lemma on_hub_Close:
  "tryE (on_hub h Hub_Close) (\<lambda>_. f) d = f (set_hub h (\<lambda>_. snd (Hub_Close (hub_of h d))) d)"
  by (cases "hclosed (hub_of h d)") (simp_all add: tryE_def zoom_def Hub_Close_def)

lemma CancelWatches_hub_of: "hub_of h (snd (CancelWatches d)) = snd (Hub_Close (hub_of h d))"
  by (cases h) (simp_all add: CancelWatches_def on_hub_Close)

text \<open>
  (C15) \<open>CancelWatches\<close>, which the server runs on shutdown, ends every event stream cleanly: each
  watcher still gets what is pending for it, then its channels are closed without an error, and
  every later watch of either type fails because the hub is closed.
\<close>

theorem CancelWatches_drains_and_closes:
  assumes "hub_inv (hub_of h d)" and "i < nextSource (hub_of h d)"
    and "watchType = (case h of TcpHub \<Rightarrow> ''tcp-watch'' | HttpHub \<Rightarrow> ''http-watch'')"
  shows "fst (dispatchWatchEvents h i (snd (CancelWatches d))) = hub_pending (hub_of h d) i \<and>
    fst (snd (dispatchWatchEvents h i (snd (CancelWatches d)))) = Some Closed \<and>
    fst (WatchChanges watchType (snd (CancelWatches d))) =
      Ok (WatchError (HubError ErrSubscribedToClosedHub))"
proof -
  let ?d = "snd (CancelWatches d)"
  have hub: "hub_pending (hub_of h ?d) i = hub_pending (hub_of h d) i" "sclosed (sources (hub_of h ?d) i)"
      "hclosed (hub_of h ?d)"
    using Hub_Close_closes [OF assms(1,2)] by (simp_all add: CancelWatches_hub_of)
  have "fst (WatchChanges watchType ?d) = Ok (WatchError (HubError ErrSubscribedToClosedHub))"
    using hub(3) assms(3)
    by (cases h) (simp_all add: WatchChanges_def watch_hub_type_def tryE_def zoom_def Subscribe_def)
  with hub dispatch_all [OF hub(1)] show ?thesis by simp
qed

theorem CancelWatches_drains_and_closes_witness:
  "let d = snd (emitEvent CreateEvent (RouteObj ex_row) (snd (WatchChanges ''http-watch'' ex_full)))
   in length (fst (dispatchWatchEvents HttpHub 0 (snd (CancelWatches d)))) = 1 \<and>
      fst (snd (dispatchWatchEvents HttpHub 0 (snd (CancelWatches d)))) = Some Closed"
proof -
  let ?d = "snd (emitEvent CreateEvent (RouteObj ex_row) (snd (WatchChanges ''http-watch'' ex_full)))"
  let ?h = "Emit \<lparr>evType = CreateEvent, evValue = Marshal (Route_json ex_row)\<rparr>
    (snd (Subscribe (NewNonBlocking 1024)))"
  have hub: "hub_of HttpHub ?d = ?h"
    by (simp add: hub_of_def set_hub_def emitEvent_def NewEventFromInterface_def bindE_def ex_full_def
        NewSqlDB_value_def WatchChanges_def watch_hub_type_def tryE_def zoom_def Subscribe_def NewNonBlocking_def)
  have "hub_inv (snd (Subscribe (NewNonBlocking 1024)))"
    by (rule hub_inv_Subscribe [OF hub_inv_New prod.collapse [symmetric]])
  then have "hub_inv ?h" by (rule hub_inv_Emit)
  moreover have "0 < nextSource ?h" "length (hub_pending ?h 0) = 1"
    by (simp_all add: Subscribe_def NewNonBlocking_def Emit_def hub_pending_def source_send_def newSource_def)
  ultimately show ?thesis
    using CancelWatches_drains_and_closes [of HttpHub ?d 0, OF _ _ refl] unfolding Let_def hub by simp
qed

end
