(* ===== verification/Validator.thy ===== *)
theory Validator
  imports Router_Groups
begin

text \<open>
  The request validation of \<open>handlers/validator.go\<close>. An error of type \<open>*routing_api.Error\<close> is an
  outcome: \<open>Ok ()\<close> is nil, \<open>Fail (ApiError ty msg)\<close> an error. \<open>urlParse\<close> stands for \<open>url.Parse\<close>
  followed by \<open>String\<close>: the error, or the text of the parsed URL.
\<close>

section \<open>HTTP routes\<close>

text \<open>\<open>if err := m; err != nil { return err }; k\<close>.\<close>

primrec andThen :: "unit go \<Rightarrow> unit go \<Rightarrow> unit go" where
  "andThen (Ok u) k = k"
| "andThen (Fail e) k = Fail e"
| "andThen (Panic p) k = Panic p"

lemma andThen_Ok [simp]: "andThen m k = Ok () \<longleftrightarrow> m = Ok () \<and> k = Ok ()"
  by (cases m) simp_all

lemma andThen_panic [simp]: "is_panic (andThen m k) \<longleftrightarrow> is_panic m \<or> m = Ok () \<and> is_panic k"
  by (cases m) simp_all

definition error_if :: "bool \<Rightarrow> string \<Rightarrow> string \<Rightarrow> unit go" where
  "error_if b ty msg = (if b then Fail (ApiError ty msg) else Ok ())"

lemma error_if_simps [simp]: "error_if b ty msg = Ok () \<longleftrightarrow> \<not> b" "\<not> is_panic (error_if b ty msg)"
  by (simp_all add: error_if_def)

primrec for_each :: "('a \<Rightarrow> unit go) \<Rightarrow> 'a list \<Rightarrow> unit go" where
  "for_each f [] = Ok ()"
| "for_each f (x # xs) = andThen (f x) (for_each f xs)"

lemma for_each_Ok: "for_each f xs = Ok () \<longleftrightarrow> (\<forall>x\<in>set xs. f x = Ok ())"
  by (induction xs) auto

lemma for_each_panic: "is_panic (for_each f xs) \<Longrightarrow> \<exists>x\<in>set xs. is_panic (f x)"
  by (induction xs) auto

definition validateUrl :: "(string \<Rightarrow> go_error + string) \<Rightarrow> string \<Rightarrow> go_error option" where
  "validateUrl urlParse urlToValidate =
     (if ContainsAny urlToValidate ''?#'' then Some (ErrorString ''url cannot contain any of [?, #]'')
      else case urlParse urlToValidate of
             Inl err \<Rightarrow> Some err
           | Inr parsedURL \<Rightarrow>
               if parsedURL \<noteq> urlToValidate
               then Some (ErrorString ''url cannot contain invalid characters'') else None)"

definition validateRouteUrl :: "(string \<Rightarrow> go_error + string) \<Rightarrow> string \<Rightarrow> unit go" where
  "validateRouteUrl urlParse route =
     (case validateUrl urlParse route of
        Some err \<Rightarrow> Fail (ApiError ''RouteInvalidError'' (error_text err)) | None \<Rightarrow> Ok ())"

definition validateRouteServiceUrl :: "(string \<Rightarrow> go_error + string) \<Rightarrow> string \<Rightarrow> unit go" where
  "validateRouteServiceUrl urlParse routeService =
     (if routeService = [] then Ok ()
      else if \<not> HasPrefix routeService ''https://''
      then Fail (ApiError ''RouteServiceUrlInvalidError'' ''Route service url must use HTTPS.'')
      else case validateUrl urlParse routeService of
             Some err \<Rightarrow> Fail (ApiError ''RouteServiceUrlInvalidError'' (error_text err))
           | None \<Rightarrow> Ok ())"

definition requiredValidation :: "(string \<Rightarrow> go_error + string) \<Rightarrow> Route \<Rightarrow> unit go" where
  "requiredValidation urlParse route =
     (let e = rEntity route
      in andThen (validateRouteUrl urlParse (reRoute e))
         (andThen (validateRouteServiceUrl urlParse (reRouteServiceUrl e))
         (andThen (error_if (rePort e \<le> 0) ''RouteInvalidError''
                     ''Each route request requires a port greater than 0'')
         (andThen (error_if (reRoute e = []) ''RouteInvalidError''
                     ''Each route request requires a valid route'')
                  (error_if (reIP e = []) ''RouteInvalidError''
                     ''Each route request requires an IP'')))))"

definition ValidateCreate :: "(string \<Rightarrow> go_error + string) \<Rightarrow> Route list \<Rightarrow> int \<Rightarrow> unit go" where
  "ValidateCreate urlParse routes maxTTL =
     for_each (\<lambda>route.
       andThen (requiredValidation urlParse route)
         (case deref (reTTL (rEntity route)) of
            Ok ttl \<Rightarrow>
              andThen (error_if (ttl > maxTTL) ''RouteInvalidError'' (''Max ttl is '' @ Itoa maxTTL))
                      (error_if (ttl \<le> 0) ''RouteInvalidError''
                         ''Request requires a ttl greater than 0'')
          | Fail err \<Rightarrow> Fail err
          | Panic p \<Rightarrow> Panic p)) routes"

definition ValidateDelete :: "(string \<Rightarrow> go_error + string) \<Rightarrow> Route list \<Rightarrow> unit go" where
  "ValidateDelete urlParse routes = for_each (requiredValidation urlParse) routes"

section \<open>TCP route mappings\<close>

definition describe_mapping :: "string \<Rightarrow> TcpRouteMapping \<Rightarrow> string" where
  "describe_mapping msg m = msg @ '' RouteMapping=['' @ TcpRouteMapping_String m @ '']''"

text \<open>The pointer \<open>TTL\<close> is read only if \<open>checkTTL\<close> is set.\<close>

definition validateTcpRouteMapping :: "TcpRouteMapping \<Rightarrow> bool \<Rightarrow> int \<Rightarrow> unit go" where
  "validateTcpRouteMapping m checkTTL maxTTL =
     (let e = tEntity m; invalid = ''TcpRouteMappingInvalidError''
      in andThen (error_if (teRouterGroupGuid e = []) invalid
                    (describe_mapping ''Each tcp mapping requires a non empty router group guid.'' m))
         (andThen (error_if (teExternalPort e \<le> 0) invalid
                    (describe_mapping ''Each tcp mapping requires a positive external port.'' m))
         (andThen (error_if (teHostIP e = []) invalid
                    (describe_mapping ''Each tcp mapping requires a non empty backend ip.'' m))
         (andThen (error_if (teHostPort e \<le> 0 \<and> teHostTLSPort e \<le> 0) invalid
                    (describe_mapping ''Each tcp mapping requires a positive backend port.'' m))
         (andThen (error_if (teHostTLSPort e > 65535) invalid
                    (describe_mapping (''Each tcp mapping with a backend TLS port requires '' @
                       ''that port to be less than or equal to 65535.'') m))
         (andThen (if checkTTL
                   then case deref (teTTL e) of
                     Ok ttl \<Rightarrow>
                       andThen (error_if (ttl > maxTTL) invalid
                         (describe_mapping (''Each tcp mapping requires TTL to be less than or equal to '' @
                            Itoa maxTTL @ ''.'') m))
                       (error_if (ttl \<le> 0) invalid
                         ''Each tcp route mapping requires a ttl greater than 0'')
                   | Fail err \<Rightarrow> Fail err
                   | Panic p \<Rightarrow> Panic p
                   else Ok ())
         (error_if (teALPNs e \<noteq> [] \<and> \<not> teTerminateFrontendTLS e) invalid
            (describe_mapping
               ''Each tcp mapping can define ALPNs only when TerminateFrontendTLS is enabled.'' m))))))))"

definition ValidateCreateTcpRouteMapping ::
    "TcpRouteMapping \<Rightarrow> TcpRouteMapping list \<Rightarrow> RouterGroup list \<Rightarrow> int \<Rightarrow> unit go" where
  "ValidateCreateTcpRouteMapping m similar routerGroups maxTTL =
     andThen (validateTcpRouteMapping m True maxTTL)
     (andThen (error_if (\<not> list_ex (\<lambda>g. teRouterGroupGuid (tEntity m) = rgGuid g) routerGroups)
                ''TcpRouteMappingInvalidError''
                (''router_group_guid: '' @ teRouterGroupGuid (tEntity m) @ '' not found''))
     (for_each (\<lambda>s. error_if (teTerminateFrontendTLS (tEntity m) \<noteq> teTerminateFrontendTLS (tEntity s))
                ''TcpRouteMappingInvalidError''
                (''terminate_frontend_tls: '' @ format_bool (teTerminateFrontendTLS (tEntity m)) @
                 '' not allowed'')) similar))"

definition ValidateCreateTcpRouteMappings ::
    "TcpRouteMapping list \<Rightarrow> RouterGroup list \<Rightarrow> int \<Rightarrow> unit go" where
  "ValidateCreateTcpRouteMappings ms routerGroups maxTTL =
     for_each (\<lambda>m. ValidateCreateTcpRouteMapping m [] routerGroups maxTTL) ms"

definition ValidateDeleteTcpRouteMapping :: "TcpRouteMapping list \<Rightarrow> unit go" where
  "ValidateDeleteTcpRouteMapping ms = for_each (\<lambda>m. validateTcpRouteMapping m False 0) ms"

section \<open>What is accepted\<close>

text \<open>A URL that is accepted: it has no query and no fragment, and parsing it changes nothing.\<close>

definition clean_url :: "(string \<Rightarrow> go_error + string) \<Rightarrow> string \<Rightarrow> bool" where
  "clean_url urlParse u \<longleftrightarrow> CHR ''?'' \<notin> set u \<and> CHR ''#'' \<notin> set u \<and> urlParse u = Inr u"

definition valid_route :: "(string \<Rightarrow> go_error + string) \<Rightarrow> Route \<Rightarrow> bool" where
  "valid_route urlParse r \<longleftrightarrow>
     reRoute (rEntity r) \<noteq> [] \<and> clean_url urlParse (reRoute (rEntity r)) \<and>
     (reRouteServiceUrl (rEntity r) = [] \<or>
      HasPrefix (reRouteServiceUrl (rEntity r)) ''https://'' \<and>
      clean_url urlParse (reRouteServiceUrl (rEntity r))) \<and>
     rePort (rEntity r) \<noteq> 0 \<and> reIP (rEntity r) \<noteq> []"

definition valid_tcp :: "TcpRouteMapping \<Rightarrow> bool" where
  "valid_tcp m \<longleftrightarrow>
     teRouterGroupGuid (tEntity m) \<noteq> [] \<and> teExternalPort (tEntity m) \<noteq> 0 \<and>
     teHostIP (tEntity m) \<noteq> [] \<and> (teHostPort (tEntity m) \<noteq> 0 \<or> 0 < teHostTLSPort (tEntity m)) \<and>
     teHostTLSPort (tEntity m) \<le> 65535 \<and>
     (teALPNs (tEntity m) = [] \<or> teTerminateFrontendTLS (tEntity m))"

lemma validateUrl_None: "validateUrl p u = None \<longleftrightarrow> clean_url p u"
  by (auto simp: validateUrl_def clean_url_def ContainsAny_def list_ex_iff split: sum.splits if_splits)

lemma requiredValidation_Ok: "requiredValidation p r = Ok () \<longleftrightarrow> valid_route p r"
  by (auto simp: requiredValidation_def valid_route_def validateRouteUrl_def
      validateRouteServiceUrl_def Let_def simp flip: validateUrl_None split: option.splits)

lemma requiredValidation_no_panic: "\<not> is_panic (requiredValidation p r)"
  by (auto simp: requiredValidation_def validateRouteUrl_def validateRouteServiceUrl_def Let_def
      split: option.splits)

lemma ValidateCreate_Ok:
  "ValidateCreate p routes maxTTL = Ok () \<longleftrightarrow>
   (\<forall>r\<in>set routes. valid_route p r \<and>
      (\<exists>ttl. reTTL (rEntity r) = Some ttl \<and> 0 < ttl \<and> ttl \<le> maxTTL))"
  by (auto simp: ValidateCreate_def for_each_Ok requiredValidation_Ok deref_def split: option.splits)

lemma ValidateCreate_no_panic:
  "(\<And>r. r \<in> set routes \<Longrightarrow> reTTL (rEntity r) \<noteq> None) \<Longrightarrow> \<not> is_panic (ValidateCreate p routes maxTTL)"
  by (fastforce simp: ValidateCreate_def deref_def requiredValidation_no_panic dest!: for_each_panic
      split: option.splits)

lemma ValidateDelete_Ok: "ValidateDelete p routes = Ok () \<longleftrightarrow> (\<forall>r\<in>set routes. valid_route p r)"
  by (simp add: ValidateDelete_def for_each_Ok requiredValidation_Ok)

lemma ValidateDelete_no_panic: "\<not> is_panic (ValidateDelete p routes)"
  using for_each_panic requiredValidation_no_panic by (fastforce simp: ValidateDelete_def)

lemma validateTcpRouteMapping_Ok:
  "validateTcpRouteMapping m checkTTL maxTTL = Ok () \<longleftrightarrow>
   valid_tcp m \<and> (checkTTL \<longrightarrow> (\<exists>ttl. teTTL (tEntity m) = Some ttl \<and> 0 < ttl \<and> ttl \<le> maxTTL))"
  by (auto simp: validateTcpRouteMapping_def valid_tcp_def Let_def deref_def split: option.splits)

lemma validateTcpRouteMapping_panic:
  "is_panic (validateTcpRouteMapping m checkTTL maxTTL) \<Longrightarrow> checkTTL \<and> teTTL (tEntity m) = None"
  by (auto simp: validateTcpRouteMapping_def Let_def deref_def split: option.splits if_splits)

lemma ValidateCreateTcpRouteMapping_Ok:
  "ValidateCreateTcpRouteMapping m similar rgs maxTTL = Ok () \<longleftrightarrow>
   valid_tcp m \<and> (\<exists>ttl. teTTL (tEntity m) = Some ttl \<and> 0 < ttl \<and> ttl \<le> maxTTL) \<and>
   (\<exists>g\<in>set rgs. teRouterGroupGuid (tEntity m) = rgGuid g) \<and>
   (\<forall>s\<in>set similar. teTerminateFrontendTLS (tEntity s) = teTerminateFrontendTLS (tEntity m))"
  by (auto simp: ValidateCreateTcpRouteMapping_def validateTcpRouteMapping_Ok for_each_Ok list_ex_iff)

lemma ValidateCreateTcpRouteMapping_no_panic:
  "teTTL (tEntity m) \<noteq> None \<Longrightarrow> \<not> is_panic (ValidateCreateTcpRouteMapping m similar rgs maxTTL)"
  by (auto simp: ValidateCreateTcpRouteMapping_def dest!: validateTcpRouteMapping_panic for_each_panic)

lemma ValidateDeleteTcp_Ok: "ValidateDeleteTcpRouteMapping ms = Ok () \<longleftrightarrow> (\<forall>m\<in>set ms. valid_tcp m)"
  by (simp add: ValidateDeleteTcpRouteMapping_def for_each_Ok validateTcpRouteMapping_Ok)

lemma ValidateDeleteTcp_no_panic: "\<not> is_panic (ValidateDeleteTcpRouteMapping ms)"
  by (auto simp: ValidateDeleteTcpRouteMapping_def dest!: for_each_panic validateTcpRouteMapping_panic)

text \<open>
  (C36) The validation of a request to register HTTP routes accepts exactly the requests all of whose
  routes have a clean non-empty route URL, an empty or clean \<open>https\<close> route service URL, a positive
  port, an address, and a positive TTL of at most \<open>maxTTL\<close> (the limit is allowed, where
  \<open>docs/02-api-docs.md\<close> says that the TTL must be less than it); and it never panics on routes that have
  been given their defaults.
\<close>

theorem ValidateCreate_accepts:
  "(ValidateCreate urlParse routes maxTTL = Ok () \<longleftrightarrow>
      (\<forall>r\<in>set routes. valid_route urlParse r \<and>
         (\<exists>ttl. reTTL (rEntity r) = Some ttl \<and> 0 < ttl \<and> ttl \<le> maxTTL))) \<and>
   \<not> is_panic (ValidateCreate urlParse (map (Route_SetDefaults maxTTL) routes) maxTTL)"
  by (auto simp: ValidateCreate_Ok Route_SetDefaults_def intro!: ValidateCreate_no_panic)

theorem ValidateCreate_accepts_witness:
  "ValidateCreate Inr [NewRoute ''example.com'' 8080 ''10.0.0.1'' [] [] 60] 120 = Ok () \<and>
   ValidateCreate Inr [NewRoute ''example.com'' 8080 ''10.0.0.1'' [] [] 121] 120 \<noteq> Ok ()"
  using ValidateCreate_accepts [of Inr "[NewRoute ''example.com'' 8080 ''10.0.0.1'' [] [] 60]" 120]
    ValidateCreate_accepts [of Inr "[NewRoute ''example.com'' 8080 ''10.0.0.1'' [] [] 121]" 120]
  by (simp add: NewRoute_def valid_route_def clean_url_def)

text \<open>
  The validation of a TCP route mapping accepts exactly the mappings with a router group that
  exists, an external port, a backend address and port, a backend TLS port of at most 65535, a
  positive TTL of at most \<open>maxTTL\<close>, ALPNs only with frontend TLS termination, and the same frontend
  TLS setting as every similar mapping; and it never panics on a mapping with its defaults.
\<close>

theorem ValidateCreateTcpRouteMapping_accepts:
  "(ValidateCreateTcpRouteMapping m similar rgs maxTTL = Ok () \<longleftrightarrow>
      valid_tcp m \<and> (\<exists>ttl. teTTL (tEntity m) = Some ttl \<and> 0 < ttl \<and> ttl \<le> maxTTL) \<and>
      teRouterGroupGuid (tEntity m) \<in> rgGuid ` set rgs \<and>
      (\<forall>s\<in>set similar. teTerminateFrontendTLS (tEntity s) = teTerminateFrontendTLS (tEntity m))) \<and>
   \<not> is_panic (ValidateCreateTcpRouteMapping (Tcp_SetDefaults maxTTL m) similar rgs maxTTL)"
  by (auto simp: ValidateCreateTcpRouteMapping_Ok Tcp_SetDefaults_def
      intro!: ValidateCreateTcpRouteMapping_no_panic)

theorem ValidateCreateTcpRouteMapping_accepts_witness:
  "let m = NewTcpRouteMapping ''rg'' 1024 ''10.0.0.2'' 8080 0 ''id'' None None 60 zero_ModificationTag False [];
       rg = zero_RouterGroup\<lparr>rgGuid := ''rg''\<rparr>
   in ValidateCreateTcpRouteMapping m [] [rg] 120 = Ok () \<and>
      ValidateCreateTcpRouteMapping m [] [] 120 \<noteq> Ok ()"
proof -
  let ?m = "NewTcpRouteMapping ''rg'' 1024 ''10.0.0.2'' 8080 0 ''id'' None None 60 zero_ModificationTag False []"
  show ?thesis
    using ValidateCreateTcpRouteMapping_accepts [of ?m "[]" "[zero_RouterGroup\<lparr>rgGuid := ''rg''\<rparr>]" 120]
      ValidateCreateTcpRouteMapping_accepts [of ?m "[]" "[]" 120]
    by (simp add: NewTcpRouteMapping_def valid_tcp_def zero_TcpMappingEntity_def)
qed

end
