(* ===== verification/Handlers.thy ===== *)
theory Handlers
  imports Router_Group_Store Watching Validator
begin

text \<open>
  The HTTP handlers of \<open>handlers/\<close> and \<open>admin/\<close>. A handler gets a request and a server state and
  gives a response; it reaches the database, the token validator and the route validator through
  the records that stand for the Go interfaces \<open>db.DB\<close>, \<open>uaaclient.TokenValidator\<close> and
  \<open>RouteValidator\<close>. Decoding a request body is a parameter.
\<close>

section \<open>Interfaces\<close>

record 'd DB =
  db_ReadRoutes :: "('d, Route list) action"
  db_SaveRoute :: "Route \<Rightarrow> ('d, unit) action"
  db_DeleteRoute :: "Route \<Rightarrow> ('d, unit) action"
  db_ReadTcpRouteMappings :: "('d, TcpRouteMapping list) action"
  db_ReadFilteredTcpRouteMappings :: "string \<Rightarrow> string list \<Rightarrow> ('d, TcpRouteMapping list) action"
  db_FindSimilarTcpRouteMappings :: "string \<Rightarrow> uint16 \<Rightarrow> ('d, TcpRouteMapping list) action"
  db_SaveTcpRouteMapping :: "TcpRouteMapping \<Rightarrow> ('d, unit) action"
  db_DeleteTcpRouteMapping :: "TcpRouteMapping \<Rightarrow> ('d, unit) action"
  db_ReadRouterGroups :: "('d, RouterGroup list) action"
  db_ReadRouterGroup :: "string \<Rightarrow> ('d, RouterGroup) action"
  db_DeleteRouterGroup :: "string \<Rightarrow> ('d, unit) action"
  db_ReadRouterGroupByName :: "string \<Rightarrow> ('d, RouterGroup) action"
  db_SaveRouterGroup :: "RouterGroup \<Rightarrow> ('d, unit) action"
  db_CancelWatches :: "('d, unit) action"
  db_WatchChanges :: "string \<Rightarrow> ('d, watch) action"
  db_cancelFunc :: "watch \<Rightarrow> ('d, unit) action"
  db_LockRouterGroupReads :: "('d, unit) action"
  db_LockRouterGroupWrites :: "('d, unit) action"
  db_UnlockRouterGroupReads :: "('d, unit) action"
  db_UnlockRouterGroupWrites :: "('d, unit) action"

text \<open>
  \<open>SqlDB\<close> implements the interface. \<open>db_cancelFunc\<close> is the function that \<open>WatchChanges\<close> returns with
  a watch.
\<close>

definition SqlDB_DB :: "'s gormClient \<Rightarrow> 's SqlDB DB" where
  "SqlDB_DB c =
     \<lparr>db_ReadRoutes = ReadRoutes c, db_SaveRoute = SaveRoute c, db_DeleteRoute = DeleteRoute c,
      db_ReadTcpRouteMappings = ReadTcpRouteMappings c,
      db_ReadFilteredTcpRouteMappings = ReadFilteredTcpRouteMappings c,
      db_FindSimilarTcpRouteMappings = FindSimilarTcpRouteMappings c,
      db_SaveTcpRouteMapping = SaveTcpRouteMapping c,
      db_DeleteTcpRouteMapping = DeleteTcpRouteMapping c,
      db_ReadRouterGroups = ReadRouterGroups c, db_ReadRouterGroup = ReadRouterGroup c,
      db_DeleteRouterGroup = DeleteRouterGroup c,
      db_ReadRouterGroupByName = ReadRouterGroupByName c, db_SaveRouterGroup = SaveRouterGroup c,
      db_CancelWatches = CancelWatches, db_WatchChanges = WatchChanges,
      db_cancelFunc = watch_cancelFunc,
      db_LockRouterGroupReads = LockRouterGroupReads,
      db_LockRouterGroupWrites = LockRouterGroupWrites,
      db_UnlockRouterGroupReads = UnlockRouterGroupReads,
      db_UnlockRouterGroupWrites = UnlockRouterGroupWrites\<rparr>"

record RouteValidator =
  rv_ValidateCreate :: "Route list \<Rightarrow> int \<Rightarrow> unit go"
  rv_ValidateDelete :: "Route list \<Rightarrow> unit go"
  rv_ValidateCreateTcpRouteMapping ::
    "TcpRouteMapping \<Rightarrow> TcpRouteMapping list \<Rightarrow> RouterGroup list \<Rightarrow> int \<Rightarrow> unit go"
  rv_ValidateDeleteTcpRouteMapping :: "TcpRouteMapping list \<Rightarrow> unit go"

definition NewValidator :: "(string \<Rightarrow> go_error + string) \<Rightarrow> RouteValidator" where
  "NewValidator urlParse =
     \<lparr>rv_ValidateCreate = ValidateCreate urlParse, rv_ValidateDelete = ValidateDelete urlParse,
      rv_ValidateCreateTcpRouteMapping = ValidateCreateTcpRouteMapping,
      rv_ValidateDeleteTcpRouteMapping = ValidateDeleteTcpRouteMapping\<rparr>"

section \<open>Requests, responses and the server\<close>

record request =
  rqAuthorization :: string
  rqBody :: string
  rqQuery :: "string \<Rightarrow> string list"
  rqGuid :: string

record response =
  rsStatus :: nat
  rsBody :: string
  rsHeaders :: "(string \<times> string) list"

text \<open>
  The server state: that of the token validator, of the database, the counter of token errors of
  \<open>metrics/metrics.go\<close>, the random source of the handlers, and the changes of gauges that were sent
  to the statistics daemon, in order.
\<close>

record ('u, 'd) server =
  srvUaa :: 'u
  srvDb :: 'd
  totalTokenErrors :: int
  srvEnv :: world
  gaugeDeltas :: "(string \<times> int) list"

text \<open>
  What the handlers are made with: \<open>hDecode*\<close> decode a request body, \<open>hPorts\<close> are the settings of
  the port validation.
\<close>

record ('u, 'd) handler =
  hUaa :: "string \<Rightarrow> string list \<Rightarrow> ('u, unit) action"
  hDb :: "'d DB"
  hValidator :: RouteValidator
  hMaxTTL :: int
  hPorts :: port_settings
  hDecodeRoutes :: "string \<Rightarrow> go_error + Route list"
  hDecodeTcp :: "string \<Rightarrow> go_error + TcpRouteMapping list"
  hDecodeRouterGroup :: "string \<Rightarrow> go_error + RouterGroup"

abbreviation onDb :: "('d, 'a) action \<Rightarrow> (('u, 'd) server, 'a) action" where
  "onDb m \<equiv> zoom srvDb srvDb_update m"

abbreviation onUaa :: "('u, 'a) action \<Rightarrow> (('u, 'd) server, 'a) action" where
  "onUaa m \<equiv> zoom srvUaa srvUaa_update m"

abbreviation onEnv :: "(world, 'a) action \<Rightarrow> (('u, 'd) server, 'a) action" where
  "onEnv m \<equiv> zoom srvEnv srvEnv_update m"

text \<open>\<open>x, err := m; if err != nil { h(err); return }; k(x)\<close>.\<close>

definition orElse ::
    "('d, 'a) action \<Rightarrow> (go_error \<Rightarrow> ('d, 'b) action) \<Rightarrow> ('a \<Rightarrow> ('d, 'b) action) \<Rightarrow> ('d, 'b) action" where
  "orElse m h k = tryE m (\<lambda>r. case r of Inl err \<Rightarrow> h err | Inr x \<Rightarrow> k x)"

primrec sum_go :: "go_error + 'a \<Rightarrow> 'a go" where
  "sum_go (Inl e) = Fail e"
| "sum_go (Inr x) = Ok x"

section \<open>Error responses\<close>

definition respond :: "nat \<Rightarrow> string \<Rightarrow> response" where
  "respond status body = \<lparr>rsStatus = status, rsBody = body, rsHeaders = []\<rparr>"

definition marshalRoutingApiError :: "string \<times> string \<Rightarrow> string" where
  "marshalRoutingApiError err = Marshal (Error_json err)"

definition handleProcessRequestError :: "go_error \<Rightarrow> response" where
  "handleProcessRequestError procErr =
     respond 400 (marshalRoutingApiError
       (''ProcessRequestError'', ''Cannot process request: '' @ error_text procErr))"

definition handleNotFoundError :: "go_error \<Rightarrow> response" where
  "handleNotFoundError err =
     respond 404 (marshalRoutingApiError (''ResourceNotFoundError'', error_text err))"

text \<open>The error given to \<open>handleApiError\<close> is a \<open>routing_api.Error\<close>.\<close>

definition handleApiError :: "go_error \<Rightarrow> response" where
  "handleApiError apiErr =
     respond 400 (marshalRoutingApiError
       (case apiErr of ApiError ty msg \<Rightarrow> (ty, msg) | _ \<Rightarrow> ([], error_text apiErr)))"

definition handleDBCommunicationError :: "go_error \<Rightarrow> response" where
  "handleDBCommunicationError err =
     respond 503 (marshalRoutingApiError (''DBCommunicationError'', error_text err))"

definition handleGuidGenerationError :: "go_error \<Rightarrow> response" where
  "handleGuidGenerationError err =
     respond 500 (marshalRoutingApiError (''GuidGenerationError'', error_text err))"

text \<open>
  \<open>bytes.Contains\<close>, and \<open>ReplaceAll\<close> of the pattern \<open>Token does not have .* scope\<close>: the leftmost match
  starts at the first occurrence of the words before the dot, and, since the repetition is greedy
  and a marshalled text has no line break, extends to the last occurrence of the word after it.
\<close>

fun Contains :: "string \<Rightarrow> string \<Rightarrow> bool" where
  "Contains [] sub = (sub = [])"
| "Contains (c # s) sub = (HasPrefix (c # s) sub \<or> Contains s sub)"

fun after_last_scope :: "string \<Rightarrow> string option" where
  "after_last_scope [] = None"
| "after_last_scope (c # s) =
     (case after_last_scope s of
        Some r \<Rightarrow> Some r
      | None \<Rightarrow> if HasPrefix (c # s) '' scope'' then Some (drop 6 (c # s)) else None)"

fun hide_scope :: "string \<Rightarrow> string" where
  "hide_scope [] = []"
| "hide_scope (c # s) =
     (if HasPrefix (c # s) ''Token does not have ''
      then (case after_last_scope (drop 20 (c # s)) of
              Some r \<Rightarrow> ''You are not authorized to perform the requested action'' @ r
            | None \<Rightarrow> c # s)
      else c # hide_scope s)"

definition handleUnauthorizedError :: "go_error \<Rightarrow> (('u, 'd) server, response) action" where
  "handleUnauthorizedError err =
     (let retErr = marshalRoutingApiError (''UnauthorizedError'', error_text err)
      in bindE (modifyE (\<lambda>v. v\<lparr>totalTokenErrors := int64 (totalTokenErrors v + 1)\<rparr>)) (\<lambda>_.
         returnE (respond 401
           (if Contains retErr ''Token does not have '' then hide_scope retErr else retErr))))"

definition authorized ::
    "('u, 'd) handler \<Rightarrow> request \<Rightarrow> string \<Rightarrow> (('u, 'd) server, response) action \<Rightarrow>
     (('u, 'd) server, response) action" where
  "authorized h req scope k =
     orElse (onUaa (hUaa h (rqAuthorization req) [scope])) handleUnauthorizedError (\<lambda>_. k)"

definition RouterGroupsReadScope :: string where
  "RouterGroupsReadScope = ''routing.router_groups.read''"
definition RouterGroupsWriteScope :: string where
  "RouterGroupsWriteScope = ''routing.router_groups.write''"
definition RoutingRoutesReadScope :: string where
  "RoutingRoutesReadScope = ''routing.routes.read''"
definition RoutingRoutesWriteScope :: string where
  "RoutingRoutesWriteScope = ''routing.routes.write''"

text \<open>\<open>encoder.Encode\<close> writes the marshalled value and a line break, with the default status.\<close>

definition encode_response :: "json \<Rightarrow> response" where
  "encode_response j = respond 200 (Marshal j @ [CHR 0x0A])"

section \<open>HTTP routes\<close>

definition Routes_List :: "('u, 'd) handler \<Rightarrow> request \<Rightarrow> (('u, 'd) server, response) action" where
  "Routes_List h req =
     authorized h req RoutingRoutesReadScope
     (orElse (onDb (db_ReadRoutes (hDb h))) (\<lambda>err. returnE (handleDBCommunicationError err)) (\<lambda>routes.
      returnE (encode_response (JArr (map Route_json routes)))))"

definition Routes_Upsert :: "('u, 'd) handler \<Rightarrow> request \<Rightarrow> (('u, 'd) server, response) action" where
  "Routes_Upsert h req =
     authorized h req RoutingRoutesWriteScope
     (orElse (liftE (sum_go (hDecodeRoutes h (rqBody req))))
        (\<lambda>err. returnE (handleProcessRequestError err)) (\<lambda>decoded.
      let routes = map (Route_SetDefaults (hMaxTTL h)) decoded
      in orElse (liftE (rv_ValidateCreate (hValidator h) routes (hMaxTTL h)))
           (\<lambda>apiErr. returnE (handleApiError apiErr)) (\<lambda>_.
         orElse (onDb (forE (db_SaveRoute (hDb h)) routes))
           (\<lambda>err. returnE (handleDBCommunicationError err)) (\<lambda>_.
         returnE (respond 201 [])))))"

text \<open>A route that is not there is skipped; any other error ends the loop.\<close>

definition isKeyNotFound :: "go_error \<Rightarrow> bool" where
  "isKeyNotFound err = (case err of DBError ty _ \<Rightarrow> ty = ''KeyNotFound'' | _ \<Rightarrow> False)"

definition skipMissing :: "('d, unit) action \<Rightarrow> ('d, unit) action" where
  "skipMissing m =
     tryE m (\<lambda>r. case r of
       Inl err \<Rightarrow> if isKeyNotFound err then returnE () else failE err
     | Inr _ \<Rightarrow> returnE ())"

definition Routes_Delete :: "('u, 'd) handler \<Rightarrow> request \<Rightarrow> (('u, 'd) server, response) action" where
  "Routes_Delete h req =
     authorized h req RoutingRoutesWriteScope
     (orElse (liftE (sum_go (hDecodeRoutes h (rqBody req))))
        (\<lambda>err. returnE (handleProcessRequestError err)) (\<lambda>routes.
      orElse (liftE (rv_ValidateDelete (hValidator h) routes))
        (\<lambda>apiErr. returnE (handleApiError apiErr)) (\<lambda>_.
      orElse (onDb (forE (\<lambda>route. skipMissing (db_DeleteRoute (hDb h) route)) routes))
        (\<lambda>err. returnE (handleDBCommunicationError err)) (\<lambda>_.
      returnE (respond 204 [])))))"

section \<open>TCP route mappings\<close>

definition Tcp_List :: "('u, 'd) handler \<Rightarrow> request \<Rightarrow> (('u, 'd) server, response) action" where
  "Tcp_List h req =
     authorized h req RoutingRoutesReadScope
     (orElse
        (onDb (if length (rqQuery req ''isolation_segment'') > 0
               then db_ReadFilteredTcpRouteMappings (hDb h) ''isolation_segment''
                      (rqQuery req ''isolation_segment'')
               else db_ReadTcpRouteMappings (hDb h)))
        (\<lambda>err. returnE (handleDBCommunicationError err)) (\<lambda>routes.
      returnE (encode_response (JArr (map TcpRouteMapping_json routes)))))"

text \<open>The first loop of \<open>Upsert\<close>: every mapping is checked against the stored ones before any is saved.\<close>

primrec check_mappings ::
    "('u, 'd) handler \<Rightarrow> RouterGroup list \<Rightarrow> TcpRouteMapping list \<Rightarrow>
     (('u, 'd) server, response option) action" where
  "check_mappings h routerGroups [] = returnE None"
| "check_mappings h routerGroups (m # ms) =
     (let sniHostName = (case teSniHostname (tEntity m) of None \<Rightarrow> [] | Some s \<Rightarrow> s)
      in orElse (onDb (db_FindSimilarTcpRouteMappings (hDb h) sniHostName (teExternalPort (tEntity m))))
           (\<lambda>err. returnE (Some (handleDBCommunicationError err))) (\<lambda>similar.
         orElse (liftE (rv_ValidateCreateTcpRouteMapping (hValidator h) m similar routerGroups (hMaxTTL h)))
           (\<lambda>apiErr. returnE (Some (handleProcessRequestError apiErr))) (\<lambda>_.
         check_mappings h routerGroups ms)))"

definition Tcp_Upsert :: "('u, 'd) handler \<Rightarrow> request \<Rightarrow> (('u, 'd) server, response) action" where
  "Tcp_Upsert h req =
     authorized h req RoutingRoutesWriteScope
     (orElse (liftE (sum_go (hDecodeTcp h (rqBody req))))
        (\<lambda>err. returnE (handleProcessRequestError err)) (\<lambda>decoded.
      let tcpMappings = map (Tcp_SetDefaults (hMaxTTL h)) decoded
      in orElse (onDb (db_ReadRouterGroups (hDb h)))
           (\<lambda>err. returnE (handleDBCommunicationError err)) (\<lambda>routerGroups.
         bindE (check_mappings h routerGroups tcpMappings) (\<lambda>refused. case refused of
           Some resp \<Rightarrow> returnE resp
         | None \<Rightarrow>
             orElse (onDb (forE (db_SaveTcpRouteMapping (hDb h)) tcpMappings))
               (\<lambda>err. returnE (handleDBCommunicationError err)) (\<lambda>_.
             returnE (respond 201 []))))))"

definition Tcp_Delete :: "('u, 'd) handler \<Rightarrow> request \<Rightarrow> (('u, 'd) server, response) action" where
  "Tcp_Delete h req =
     authorized h req RoutingRoutesWriteScope
     (orElse (liftE (sum_go (hDecodeTcp h (rqBody req))))
        (\<lambda>err. returnE (handleProcessRequestError err)) (\<lambda>tcpMappings.
      orElse (liftE (rv_ValidateDeleteTcpRouteMapping (hValidator h) tcpMappings))
        (\<lambda>apiErr. returnE (handleProcessRequestError apiErr)) (\<lambda>_.
      orElse (onDb (forE (\<lambda>m. skipMissing (db_DeleteTcpRouteMapping (hDb h) m)) tcpMappings))
        (\<lambda>err. returnE (handleDBCommunicationError err)) (\<lambda>_.
      returnE (respond 204 [])))))"

section \<open>Router groups\<close>

definition json_response :: "nat \<Rightarrow> (string \<times> string) list \<Rightarrow> json \<Rightarrow> response" where
  "json_response status headers j =
     \<lparr>rsStatus = status, rsBody = Marshal j,
      rsHeaders = headers @ [(''Content-Type'', ''application/json'')]\<rparr>"

text \<open>
  With a name, the result is looked at before the error: a failed lookup gives the zero group.
\<close>

definition ListRouterGroups :: "('u, 'd) handler \<Rightarrow> request \<Rightarrow> (('u, 'd) server, response) action" where
  "ListRouterGroups h req =
     authorized h req RouterGroupsReadScope
     (let routerGroupName = (case rqQuery req ''name'' of [] \<Rightarrow> [] | n # _ \<Rightarrow> n);
          notFound = handleNotFoundError (ErrorString (''router group '' @ [CHR 0x27] @
                       routerGroupName @ [CHR 0x27] @ '' not found''))
      in if routerGroupName \<noteq> []
         then tryE (onDb (db_ReadRouterGroupByName (hDb h) routerGroupName)) (\<lambda>r. case r of
                Inl err \<Rightarrow> returnE notFound
              | Inr rg \<Rightarrow>
                  if rg = zero_RouterGroup then returnE notFound
                  else returnE (json_response 200 [] (JArr [RouterGroup_json rg])))
         else orElse (onDb (db_ReadRouterGroups (hDb h)))
                (\<lambda>err. returnE (handleDBCommunicationError err)) (\<lambda>routerGroups.
              returnE (json_response 200 [] (JArr (map RouterGroup_json routerGroups)))))"

definition portWarning :: string where
  "portWarning = ''Warning: if routes are registered for ports that are not '' @
     ''in the new range, modifying your load balancer to remove these ports will '' @
     ''result in backends for those routes becoming inaccessible.''"

text \<open>\<open>url.QueryEscape\<close> on the bytes of this text: letters and the dot stay, a space becomes a plus.\<close>

definition QueryEscape_char :: "char \<Rightarrow> string" where
  "QueryEscape_char c =
     (let n = (of_char c :: nat)
      in if is_digit c \<or> (65 \<le> n \<and> n \<le> 90) \<or> (97 \<le> n \<and> n \<le> 122) \<or> c \<in> set ''-_.~'' then [c]
         else if n = 32 then ''+''
         else let h = (\<lambda>d. (''0123456789ABCDEF'' :: string) ! d)
              in [CHR ''%'', h (n div 16), h (n mod 16)])"

definition addWarningsHeader :: "(string \<times> string) list" where
  "addWarningsHeader = [(''X-Cf-Warnings'', concat (map QueryEscape_char portWarning))]"

definition UpdateRouterGroup :: "('u, 'd) handler \<Rightarrow> request \<Rightarrow> (('u, 'd) server, response) action" where
  "UpdateRouterGroup h req =
     authorized h req RouterGroupsWriteScope
     (orElse (liftE (sum_go (hDecodeRouterGroup h (rqBody req))))
        (\<lambda>err. returnE (handleProcessRequestError err)) (\<lambda>updatedGroup.
      orElse (onDb (db_ReadRouterGroup (hDb h) (rqGuid req)))
        (\<lambda>err. returnE (handleDBCommunicationError err)) (\<lambda>rg.
      if rg = zero_RouterGroup
      then returnE (handleNotFoundError (ErrorString (''router group '' @ [CHR 0x27] @ rqGuid req @
             [CHR 0x27] @ '' does not exist'')))
      else if rgReservablePorts rg \<noteq> rgReservablePorts updatedGroup
      then let rg' = rg\<lparr>rgReservablePorts := rgReservablePorts updatedGroup\<rparr>
           in (case RouterGroup_Validate (hPorts h) rg' of
                 Some err \<Rightarrow> returnE (handleProcessRequestError err)
               | None \<Rightarrow>
                   orElse (onDb (db_SaveRouterGroup (hDb h) rg'))
                     (\<lambda>err. returnE (handleDBCommunicationError err)) (\<lambda>_.
                   returnE (json_response 200 addWarningsHeader (RouterGroup_json rg'))))
      else returnE (json_response 200 addWarningsHeader (RouterGroup_json rg)))))"

definition DeleteRouterGroup_handler ::
    "('u, 'd) handler \<Rightarrow> request \<Rightarrow> (('u, 'd) server, response) action" where
  "DeleteRouterGroup_handler h req =
     authorized h req RouterGroupsWriteScope
     (orElse (onDb (db_DeleteRouterGroup (hDb h) (rqGuid req)))
        (\<lambda>err. returnE (if isKeyNotFound err then respond 404 [] else handleDBCommunicationError err))
        (\<lambda>_. returnE (respond 204 [])))"

definition routerGroupExist :: "RouterGroup list \<Rightarrow> RouterGroup \<Rightarrow> RouterGroup option" where
  "routerGroupExist rgs rg = List.find (\<lambda>r. rgName r = rgName rg \<and> rgType r = rgType rg) rgs"

definition writeRouterGroupResponse :: "nat \<Rightarrow> RouterGroup \<Rightarrow> response" where
  "writeRouterGroupResponse status rg = json_response status [] (RouterGroup_json rg)"

definition CreateRouterGroup :: "('u, 'd) handler \<Rightarrow> request \<Rightarrow> (('u, 'd) server, response) action" where
  "CreateRouterGroup h req =
     authorized h req RouterGroupsWriteScope
     (orElse (liftE (sum_go (hDecodeRouterGroup h (rqBody req))))
        (\<lambda>err. returnE (handleProcessRequestError err)) (\<lambda>rg.
      orElse (onDb (db_ReadRouterGroups (hDb h)))
        (\<lambda>err. returnE (handleDBCommunicationError err)) (\<lambda>routerGroups.
      case routerGroupExist routerGroups rg of
        Some existingRg \<Rightarrow> returnE (writeRouterGroupResponse 200 existingRg)
      | None \<Rightarrow>
          orElse (onEnv uuid_NewV4) (\<lambda>err. returnE (handleGuidGenerationError err)) (\<lambda>guid.
          let rg' = rg\<lparr>rgGuid := guid\<rparr>
          in (case RouterGroups_Validate (hPorts h) (routerGroups @ [rg']) of
                Some err \<Rightarrow> returnE (handleProcessRequestError err)
              | None \<Rightarrow>
                  orElse (onDb (db_SaveRouterGroup (hDb h) rg'))
                    (\<lambda>err. returnE (handleDBCommunicationError err)) (\<lambda>_.
                  returnE (writeRouterGroupResponse 201 rg')))))))"

section \<open>The backup locks\<close>

definition Admin_LockReads :: "('u, 'd) handler \<Rightarrow> (('u, 'd) server, response) action" where
  "Admin_LockReads h = bindE (onDb (db_LockRouterGroupReads (hDb h))) (\<lambda>_. returnE (respond 200 []))"

definition Admin_LockWrites :: "('u, 'd) handler \<Rightarrow> (('u, 'd) server, response) action" where
  "Admin_LockWrites h = bindE (onDb (db_LockRouterGroupWrites (hDb h))) (\<lambda>_. returnE (respond 200 []))"

definition Admin_UnlockReads :: "('u, 'd) handler \<Rightarrow> (('u, 'd) server, response) action" where
  "Admin_UnlockReads h = bindE (onDb (db_UnlockRouterGroupReads (hDb h))) (\<lambda>_. returnE (respond 200 []))"

definition Admin_UnlockWrites :: "('u, 'd) handler \<Rightarrow> (('u, 'd) server, response) action" where
  "Admin_UnlockWrites h = bindE (onDb (db_UnlockRouterGroupWrites (hDb h))) (\<lambda>_. returnE (respond 200 []))"

section \<open>An example\<close>

text \<open>
  A server over the engine in memory. Its token validator accepts the tokens that \<open>accepts\<close> does,
  and every request body decodes to the same example values.
\<close>

definition ex_handler :: "(string \<Rightarrow> bool) \<Rightarrow> (unit, mem SqlDB) handler" where
  "ex_handler accepts =
     \<lparr>hUaa = (\<lambda>token scopes. if accepts token then returnE () else failE (ErrorString ''refused'')),
      hDb = SqlDB_DB (NewGormClient mem_db), hValidator = NewValidator Inr, hMaxTTL = 120,
      hPorts = default_port_settings, hDecodeRoutes = (\<lambda>_. Inr [ex_route]),
      hDecodeTcp = (\<lambda>_. Inr [ex_tcp]), hDecodeRouterGroup = (\<lambda>_. Inr ex_rg)\<rparr>"

definition ex_server :: "mem SqlDB \<Rightarrow> (unit, mem SqlDB) server" where
  "ex_server d = \<lparr>srvUaa = (), srvDb = d, totalTokenErrors = 0, srvEnv = ex_world, gaugeDeltas = []\<rparr>"

definition ex_request :: "string \<Rightarrow> request" where
  "ex_request token = \<lparr>rqAuthorization = token, rqBody = [], rqQuery = (\<lambda>_. []), rqGuid = ''rg''\<rparr>"

end
