(* ===== verification/Sse.thy ===== *)
theory Sse
  imports Json
begin

text \<open>
  Server-sent events: the encoder the event stream handler writes with and the decoder the client
  reads with, from \<open>vendor/github.com/vito/go-sse/sse\<close>, and the proof that what is written is what
  is read. A connection carries the bytes of all events in order.
\<close>

section \<open>Writing\<close>

record sse_event =
  sseID :: string
  sseName :: string
  sseData :: string
  sseRetry :: int

abbreviation LF :: char where "LF \<equiv> CHR 0x0A"
abbreviation CR :: char where "CR \<equiv> CHR 0x0D"

definition data_line :: "string \<Rightarrow> string" where
  "data_line line = (if length line = 0 then ''data'' else ''data: '' @ line) @ [LF]"

text \<open>The bytes of \<open>Event.Write\<close>; a retry interval is written in milliseconds.\<close>

definition sse_Write :: "sse_event \<Rightarrow> string" where
  "sse_Write event =
     ''id: '' @ sseID event @ [LF] @
     ''event: '' @ sseName event @ [LF] @
     (if sseRetry event \<noteq> 0
      then ''retry: '' @ Itoa (sgn (sseRetry event) * (\<bar>sseRetry event\<bar> div 1000 div 1000)) @ [LF] else []) @
     concat (map data_line (Split (sseData event) LF)) @ [LF]"

section \<open>Reading\<close>

text \<open>
  The lines \<open>ReadLine\<close> returns: a line ends at a line feed, a carriage return before it is dropped,
  and the bytes after the last line feed are a line if there are any.
\<close>

definition strip_cr :: "string \<Rightarrow> string" where
  "strip_cr l = (if l \<noteq> [] \<and> last l = CR then butlast l else l)"

definition read_lines :: "string \<Rightarrow> string list" where
  "read_lines s =
     (let ps = Split s LF
      in map strip_cr (butlast ps) @ (if last ps = [] then [] else [last ps]))"

text \<open>\<open>bytes.SplitN(line, ":", 2)\<close>, and the value without one leading space.\<close>

definition field_of :: "string \<Rightarrow> string \<times> string" where
  "field_of line =
     (let field = takeWhile (\<lambda>c. c \<noteq> CHR '':'') line;
          value' = drop (Suc (length field)) line
      in (field, if HasPrefix value' '' '' then tl value' else value'))"

text \<open>
  \<open>ReadCloser.Next\<close> on the lines that are left, with the event so far and whether an identifier was
  given; \<open>lastID\<close> is the identifier of the last event that gave one. \<open>None\<close> is the end of input.
\<close>

fun Next_loop ::
    "string list \<Rightarrow> sse_event \<Rightarrow> bool \<Rightarrow> string \<Rightarrow> (sse_event \<times> string \<times> string list) option" where
  "Next_loop [] event idPresent lastID = None"
| "Next_loop (line # rest) event idPresent lastID =
     (if line = [] then
        (if sseData event = [] then Next_loop rest event idPresent lastID
         else Some (event\<lparr>sseData := butlast (sseData event)\<rparr>,
                    if idPresent then sseID event else lastID, rest))
      else if hd line = CHR '':'' then Next_loop rest event idPresent lastID
      else
        (case field_of line of (field, value') \<Rightarrow>
          if field = ''id'' then Next_loop rest (event\<lparr>sseID := value'\<rparr>) True lastID
          else if field = ''event'' then Next_loop rest (event\<lparr>sseName := value'\<rparr>) idPresent lastID
          else if field = ''data''
            then Next_loop rest (event\<lparr>sseData := sseData event @ value' @ [LF]\<rparr>) idPresent lastID
          else if field = ''retry''
            then Next_loop rest
                   (case Atoi value' of
                      Some n \<Rightarrow> event\<lparr>sseRetry := int64 (n * 1000000)\<rparr> | None \<Rightarrow> event) idPresent lastID
          else Next_loop rest event idPresent lastID))"

definition Sse_Next :: "string \<times> string list \<Rightarrow> (sse_event \<times> string \<times> string list) option" where
  "Sse_Next rc =
     Next_loop (snd rc) \<lparr>sseID = fst rc, sseName = [], sseData = [], sseRetry = 0\<rparr> False (fst rc)"

lemma Next_loop_shorter:
  "Next_loop ls ev b i = Some (e, j, rest) \<Longrightarrow> length rest < length ls"
  by (induction ls ev b i rule: Next_loop.induct)
    (force split: if_splits prod.splits option.splits)+

text \<open>Calling \<open>Next\<close> until the input ends.\<close>

function read_events :: "string \<times> string list \<Rightarrow> sse_event list" where
  "read_events rc =
     (case Sse_Next rc of None \<Rightarrow> [] | Some (e, i, rest) \<Rightarrow> e # read_events (i, rest))"
  by pat_completeness auto
termination
  by (relation "measure (\<lambda>rc. length (snd rc))")
    (auto simp: Sse_Next_def dest: Next_loop_shorter)

declare read_events.simps [simp del]

definition sse_decode :: "string \<Rightarrow> sse_event list" where
  "sse_decode s = read_events ([], read_lines s)"


section \<open>What is written is what is read\<close>

text \<open>
  Events that the stream can carry: no line break in the identifier and in the name, no carriage
  return at all, and no retry interval, as the handler writes them.
\<close>

definition plain_event :: "sse_event \<Rightarrow> bool" where
  "plain_event e \<longleftrightarrow>
     LF \<notin> set (sseID e) \<and> LF \<notin> set (sseName e) \<and>
     CR \<notin> set (sseID e) \<union> set (sseName e) \<union> set (sseData e) \<and> sseRetry e = 0"

lemma read_lines_Cons:
  "LF \<notin> set l \<Longrightarrow> CR \<notin> set l \<Longrightarrow> read_lines (l @ LF # s) = l # read_lines s"
  by (auto simp: read_lines_def Split_append Let_def strip_cr_def dest: last_in_set)

lemma read_lines_Nil [simp]: "read_lines [] = []"
  by (simp add: read_lines_def)

definition data_text :: "string \<Rightarrow> string" where
  "data_text p = (if p = [] then ''data'' else ''data: '' @ p)"

lemma read_lines_data:
  "(\<And>p. p \<in> set ps \<Longrightarrow> LF \<notin> set p \<and> CR \<notin> set p) \<Longrightarrow>
   read_lines (concat (map data_line ps) @ s) = map data_text ps @ read_lines s"
proof (induction ps)
  case (Cons p ps)
  have "data_line p = data_text p @ [LF]"
    by (simp add: data_line_def data_text_def)
  moreover have "LF \<notin> set (data_text p)" "CR \<notin> set (data_text p)"
    using Cons.prems [of p] by (auto simp: data_text_def)
  ultimately show ?case
    using Cons by (simp add: read_lines_Cons)
qed simp

lemma read_lines_Write:
  assumes "plain_event e"
  shows "read_lines (sse_Write e @ s) =
    (''id: '' @ sseID e) # (''event: '' @ sseName e) #
    map data_text (Split (sseData e) LF) @ [] # read_lines s"
proof -
  have pieces: "LF \<notin> set p \<and> CR \<notin> set p" if "p \<in> set (Split (sseData e) LF)" for p
    using assms Split_pieces [OF that] Split_subset [OF that] by (auto simp: plain_event_def)
  define A B where ab: "A = ''id: '' @ sseID e" "B = ''event: '' @ sseName e"
  have lines: "LF \<notin> set A" "CR \<notin> set A" "LF \<notin> set B" "CR \<notin> set B"
    using assms by (auto simp: ab plain_event_def)
  let ?data = "concat (map data_line (Split (sseData e) LF))"
  have bytes: "sse_Write e @ s = A @ LF # B @ LF # ?data @ [] @ LF # s"
    using assms by (simp add: ab sse_Write_def plain_event_def)
  note step = read_lines_Cons [OF lines(1,2)] read_lines_Cons [OF lines(3,4)]
    read_lines_data [OF pieces, of "Split (sseData e) LF" "[] @ LF # s"]
  have "read_lines ([] @ LF # s) = [] # read_lines s"
    by (rule read_lines_Cons) simp_all
  then show ?thesis
    unfolding bytes step ab [symmetric] by (simp only: step)
qed

lemma field_of_eq: "CHR '':'' \<notin> set f \<Longrightarrow> field_of (f @ '': '' @ v) = (f, v)"
  by (induction f) (auto simp: field_of_def Let_def)

lemma field_of_data: "field_of (data_text p) = (''data'', p)"
  using field_of_eq [of "''data''" p] by (auto simp: data_text_def field_of_def Let_def)

lemma data_text_head: "data_text p \<noteq> []" "hd (data_text p) \<noteq> CHR '':''"
  by (simp_all add: data_text_def)

text \<open>The data lines of an event up to the empty line that ends it.\<close>

lemma Next_loop_data:
  "sseData ev @ concat (map (\<lambda>p. p @ [LF]) ps) \<noteq> [] \<Longrightarrow>
   Next_loop (map data_text ps @ [] # rest) ev b i =
     Some (ev\<lparr>sseData := butlast (sseData ev @ concat (map (\<lambda>p. p @ [LF]) ps))\<rparr>,
           if b then sseID ev else i, rest)"
proof (induction ps arbitrary: ev)
  case (Cons p ps)
  then show ?case
    using data_text_head [of p] by (simp add: field_of_data)
qed simp

lemma butlast_lines: "ps \<noteq> [] \<Longrightarrow> butlast (concat (map (\<lambda>p. p @ [LF]) ps)) = Join ps [LF]"
proof (induction ps)
  case (Cons p ps)
  then show ?case
    by (cases "ps = []") (auto simp: Join_Cons butlast_append)
qed simp

lemma Sse_Next_Write:
  assumes "plain_event e"
  shows "Sse_Next (i, read_lines (sse_Write e @ s)) = Some (e, sseID e, read_lines s)"
proof -
  let ?ps = "Split (sseData e) LF"
  let ?ev = "\<lparr>sseID = sseID e, sseName = sseName e, sseData = [], sseRetry = 0\<rparr>"
  have id: "field_of (''id: '' @ sseID e) = (''id'', sseID e)"
    and ev: "field_of (''event: '' @ sseName e) = (''event'', sseName e)"
    using field_of_eq [of "''id''" "sseID e"] field_of_eq [of "''event''" "sseName e"] by simp_all
  have "Sse_Next (i, read_lines (sse_Write e @ s)) =
      Next_loop (map data_text ?ps @ [] # read_lines s) ?ev True i"
    using id ev by (simp add: read_lines_Write [OF assms] Sse_Next_def)
  also have "\<dots> = Some (?ev\<lparr>sseData := butlast (concat (map (\<lambda>p. p @ [LF]) ?ps))\<rparr>, sseID e, read_lines s)"
    by (subst Next_loop_data) simp_all
  also have "?ev\<lparr>sseData := butlast (concat (map (\<lambda>p. p @ [LF]) ?ps))\<rparr> = e"
    using assms by (cases e) (simp add: butlast_lines Join_Split plain_event_def)
  finally show ?thesis .
qed

lemma read_events_Some:
  "Sse_Next rc = Some (e, i, rest) \<Longrightarrow> read_events rc = e # read_events (i, rest)"
  "Sse_Next rc = None \<Longrightarrow> read_events rc = []"
  by (subst read_events.simps, simp)+

lemma sse_round_trip_from:
  "(\<And>e. e \<in> set es \<Longrightarrow> plain_event e) \<Longrightarrow>
   read_events (i, read_lines (concat (map sse_Write es))) = es"
proof (induction es arbitrary: i)
  case Nil
  then show ?case by (simp add: read_events_Some(2) Sse_Next_def)
next
  case (Cons e es)
  then have "Sse_Next (i, read_lines (concat (map sse_Write (e # es)))) =
      Some (e, sseID e, read_lines (concat (map sse_Write es)))"
    by (simp add: Sse_Next_Write)
  then show ?case
    using Cons by (simp add: read_events_Some(1))
qed

end
