(* ===== verification/Event_Stream.thy ===== *)
theory Event_Stream
  imports Handlers Sse
begin

text \<open>
  The event streams: \<open>handlers/event_stream_handler.go\<close> on the server and \<open>event_source.go\<close> on the
  client. What the \<open>select\<close> of the handler's loop receives is a sequence of inputs; a write to the
  connection succeeds or fails.
\<close>

section \<open>The handler\<close>

text \<open>
  An event comes with what becomes of writing it: \<open>None\<close>, or the number of bytes that were written
  before the write failed.
\<close>

datatype stream_input =
    FromResult Event "nat option"
  | ResultClosed
  | FromErr "go_error option"
  | CloseNotified

datatype stream_end = InvalidEventEnd | WatchErrorEnd | ConnectionClosedEnd

text \<open>
  The loop: the bytes written and how it ended (\<open>None\<close>: it waits for the next input). A closed result
  channel delivers the zero event, whose type is invalid. After a failed write the \<open>break\<close> leaves the
  \<open>select\<close> only: the loop goes on with the same event number.
\<close>

fun event_loop :: "int \<Rightarrow> stream_input list \<Rightarrow> string \<times> stream_end option" where
  "event_loop eventID [] = ([], None)"
| "event_loop eventID (FromResult event failed # ins) =
     (if evType event = InvalidEvent then ([], Some InvalidEventEnd)
      else let bytes = sse_Write \<lparr>sseID = Itoa eventID, sseName = EventType_String (evType event),
                  sseData = evValue event, sseRetry = 0\<rparr>
           in case failed of
                None \<Rightarrow> (let (out, e) = event_loop (int64 (eventID + 1)) ins in (bytes @ out, e))
              | Some n \<Rightarrow> (let (out, e) = event_loop eventID ins in (take n bytes @ out, e)))"
| "event_loop eventID (ResultClosed # ins) = ([], Some InvalidEventEnd)"
| "event_loop eventID (FromErr err # ins) = ([], Some WatchErrorEnd)"
| "event_loop eventID (CloseNotified # ins) = ([], Some ConnectionClosedEnd)"

definition stream_headers :: "(string \<times> string) list" where
  "stream_headers =
     [(''Content-Type'', ''text/event-stream; charset=utf-8''),
      (''Cache-Control'', ''no-cache, no-store, must-revalidate''),
      (''Connection'', ''keep-alive'')]"

text \<open>The second result says whether the handler has returned.\<close>

definition handleEventStream ::
    "('u, 'd) handler \<Rightarrow> string \<Rightarrow> request \<Rightarrow> stream_input list \<Rightarrow>
     (('u, 'd) server, response \<times> bool) action" where
  "handleEventStream h filterKey req inputs =
     orElse (onUaa (hUaa h (rqAuthorization req) [RoutingRoutesReadScope]))
       (\<lambda>err. bindE (handleUnauthorizedError err) (\<lambda>resp. returnE (resp, True))) (\<lambda>_.
     bindE (onDb (db_WatchChanges (hDb h) filterKey)) (\<lambda>w.
     let (out, e) = event_loop 0 inputs;
         resp = \<lparr>rsStatus = 200, rsBody = out, rsHeaders = stream_headers\<rparr>
     in if e = Some ConnectionClosedEnd
        then bindE (onDb (db_cancelFunc (hDb h) w)) (\<lambda>_. returnE (resp, True))
        else returnE (resp, e \<noteq> None)))"

definition GaugeDelta :: "string \<Rightarrow> int \<Rightarrow> (('u, 'd) server, unit) action" where
  "GaugeDelta stat value' = modifyE (\<lambda>v. v\<lparr>gaugeDeltas := gaugeDeltas v @ [(stat, value')]\<rparr>)"

text \<open>The deferred call runs when the handler returns.\<close>

definition counted_stream ::
    "string \<Rightarrow> (('u, 'd) server, response \<times> bool) action \<Rightarrow> (('u, 'd) server, response) action" where
  "counted_stream stat m =
     bindE (GaugeDelta stat 1) (\<lambda>_.
     bindE m (\<lambda>(resp, returned).
     if returned then bindE (GaugeDelta stat (- 1)) (\<lambda>_. returnE resp) else returnE resp))"

definition EventStream ::
    "('u, 'd) handler \<Rightarrow> request \<Rightarrow> stream_input list \<Rightarrow> (('u, 'd) server, response) action" where
  "EventStream h req inputs =
     counted_stream ''total_http_subscriptions'' (handleEventStream h ''http-watch'' req inputs)"

definition TcpEventStream ::
    "('u, 'd) handler \<Rightarrow> request \<Rightarrow> stream_input list \<Rightarrow> (('u, 'd) server, response) action" where
  "TcpEventStream h req inputs =
     counted_stream ''total_tcp_subscriptions'' (handleEventStream h ''tcp-watch'' req inputs)"

section \<open>The client's events\<close>

text \<open>
  \<open>unmarshal\<close> decodes the data of an event, to a route or to a TCP route mapping.
\<close>

definition convertRawEvent :: "(string \<Rightarrow> go_error + 'r) \<Rightarrow> sse_event \<Rightarrow> go_error + string \<times> 'r" where
  "convertRawEvent unmarshal event =
     (case unmarshal (sseData event) of
        Inl err \<Rightarrow> Inl err | Inr route \<Rightarrow> Inr (sseName event, route))"

section \<open>The stream carries the events\<close>

text \<open>The event the client sees for the \<open>n\<close>-th event written.\<close>

definition streamed :: "int \<Rightarrow> Event \<Rightarrow> sse_event" where
  "streamed n e =
     \<lparr>sseID = Itoa n, sseName = EventType_String (evType e), sseData = evValue e, sseRetry = 0\<rparr>"

fun streamed_from :: "int \<Rightarrow> Event list \<Rightarrow> sse_event list" where
  "streamed_from n [] = []"
| "streamed_from n (e # es) = streamed n e # streamed_from (int64 (n + 1)) es"

lemma Itoa_no_break: "LF \<notin> set (Itoa n)" "CR \<notin> set (Itoa n)"
  using nat_digits_all_digits [of "nat n"] nat_digits_all_digits [of "nat (- n)"]
  by (auto simp: Itoa_def list_all_iff is_digit_def)

lemma printable_no_break: "list_all printable s \<Longrightarrow> LF \<notin> set s \<and> CR \<notin> set s"
  by (auto simp: list_all_iff printable_def)

lemma plain_streamed: "list_all printable (evValue e) \<Longrightarrow> plain_event (streamed n e)"
  using printable_no_break [of "evValue e"] Itoa_no_break [of n]
  by (cases "evType e") (auto simp: plain_event_def streamed_def EventType_String_def)

lemma event_loop_events:
  "(\<And>e. e \<in> set es \<Longrightarrow> evType e \<noteq> InvalidEvent) \<Longrightarrow>
   event_loop n (map (\<lambda>e. FromResult e None) es) = (concat (map sse_Write (streamed_from n es)), None)"
  by (induction es arbitrary: n) (simp_all add: streamed_def Let_def)

lemma plain_streamed_from:
  "(\<And>e. e \<in> set es \<Longrightarrow> list_all printable (evValue e)) \<Longrightarrow> s \<in> set (streamed_from n es) \<Longrightarrow>
   plain_event s"
  by (induction es arbitrary: n) (auto simp: plain_streamed)

text \<open>
  The events of the database arrive at the subscriber as they were emitted: what the handler
  writes for a sequence of events (all writes succeeding) is decoded by the client's reader into
  exactly these events, in order, with their numbers, their names and their JSON text.
\<close>

theorem event_stream_round_trip:
  assumes "list_all (\<lambda>e. evType e \<noteq> InvalidEvent \<and> (\<exists>j. evValue e = Marshal j)) es"
    and "event_loop 0 (map (\<lambda>e. FromResult e None) es) = (out, end)"
  shows "sse_decode out = streamed_from 0 es \<and> end = None"
proof -
  have "list_all printable (evValue e)" if "e \<in> set es" for e
    using assms(1) that json_text_printable by (fastforce simp: list_all_iff Marshal_def)
  then have "read_events ([], read_lines (concat (map sse_Write (streamed_from 0 es)))) = streamed_from 0 es"
    by (intro sse_round_trip_from plain_streamed_from)
  then show ?thesis
    using assms event_loop_events [of es 0] by (simp add: sse_decode_def list_all_iff)
qed

theorem event_stream_round_trip_witness:
  "\<exists>out. event_loop 0 [FromResult \<lparr>evType = CreateEvent, evValue = Marshal (JArr [])\<rparr> None,
                       FromResult \<lparr>evType = ExpireEvent, evValue = Marshal (JArr [])\<rparr> None] = (out, None) \<and>
     map (\<lambda>e. (sseID e, sseName e)) (sse_decode out) = [(''0'', ''Upsert''), (''1'', ''Delete'')]"
proof -
  let ?es = "[\<lparr>evType = CreateEvent, evValue = Marshal (JArr [])\<rparr>, \<lparr>evType = ExpireEvent, evValue = Marshal (JArr [])\<rparr>]"
  let ?out = "fst (event_loop 0 (map (\<lambda>e. FromResult e None) ?es))"
  have rt: "sse_decode ?out = streamed_from 0 ?es \<and> snd (event_loop 0 (map (\<lambda>e. FromResult e None) ?es)) = None"
    by (rule event_stream_round_trip [OF _ prod.collapse [symmetric]]) auto
  have names: "map (\<lambda>e. (sseID e, sseName e)) (streamed_from 0 ?es) = [(''0'', ''Upsert''), (''1'', ''Delete'')]"
    by (simp add: streamed_def EventType_String_def Itoa_def int64_def nat_digits.simps digit_char_def
        char_of_def bit_Suc_0_iff)
  show ?thesis
  proof (intro exI conjI)
    show "event_loop 0 [FromResult \<lparr>evType = CreateEvent, evValue = Marshal (JArr [])\<rparr> None,
        FromResult \<lparr>evType = ExpireEvent, evValue = Marshal (JArr [])\<rparr> None] = (?out, None)"
      using rt by (metis (no_types, lifting) list.map prod.collapse)
    show "map (\<lambda>e. (sseID e, sseName e)) (sse_decode ?out) = [(''0'', ''Upsert''), (''1'', ''Delete'')]"
      using rt names by metis
  qed
qed

end
