(* ===== verification/Api_Client.thy ===== *)
theory Api_Client
  imports Json
begin

text \<open>
  The Go client of the API: \<open>client.go\<close>, \<open>routes.go\<close> and \<open>errors.go\<close>. The HTTP transport and the
  decoding of response bodies are parameters, and so are the parsing of URLs (\<open>url_String\<close>: parsing a
  path and printing it) and the checks of \<open>http.NewRequest\<close> on a method and a URL (\<open>http_NewRequest\<close>).
  The query stays a structured value: it is not rendered into the URL.
\<close>

section \<open>Requests\<close>

record api_request =
  aqMethod :: string
  aqURL :: string
  aqQuery :: "(string \<times> string list) list"
  aqBody :: string
  aqAuthorization :: string

text \<open>A body that cannot be read to its end is an error.\<close>

record api_response =
  arStatus :: nat
  arBody :: "go_error + string"

record 'w client =
  authToken :: string
  reqHost :: string
  url_String :: "string \<Rightarrow> go_error + string"
  http_NewRequest :: "string \<Rightarrow> string \<Rightarrow> go_error option"
  httpClient_Do :: "api_request \<Rightarrow> ('w, api_response) action"
  unmarshalError :: "string \<Rightarrow> go_error + string \<times> string"
  decodeRoutes :: "string \<Rightarrow> go_error + Route list"
  decodeTcpMappings :: "string \<Rightarrow> go_error + TcpRouteMapping list"
  decodeRouterGroups :: "string \<Rightarrow> go_error + RouterGroup list"

text \<open>Methods and path patterns by the names of the routes.\<close>

definition RoutesMap :: "(string \<times> string \<times> string) list" where
  "RoutesMap =
     [(''UpsertRoute'', ''POST'', ''/routing/v1/routes''),
      (''Delete'', ''DELETE'', ''/routing/v1/routes''),
      (''List'', ''GET'', ''/routing/v1/routes''),
      (''EventStream'', ''GET'', ''/routing/v1/events''),
      (''CreateRouterGroup'', ''POST'', ''/routing/v1/router_groups''),
      (''DeleteRouterGroup'', ''DELETE'', ''/routing/v1/router_groups/:guid''),
      (''ListRouterGroups'', ''GET'', ''/routing/v1/router_groups''),
      (''UpdateRouterGroup'', ''PUT'', ''/routing/v1/router_groups/:guid''),
      (''UpsertTcpRouteMapping'', ''POST'', ''/routing/v1/tcp_routes/create''),
      (''DeleteTcpRouteMapping'', ''POST'', ''/routing/v1/tcp_routes/delete''),
      (''ListTcpRouteMapping'', ''GET'', ''/routing/v1/tcp_routes''),
      (''TcpRouteEventStream'', ''GET'', ''/routing/v1/tcp_routes/events'')]"

text \<open>\<open>CreatePath\<close>: the components that start with a colon are filled in.\<close>

primrec fill_components :: "(string \<rightharpoonup> string) \<Rightarrow> string list \<Rightarrow> go_error + string list" where
  "fill_components params [] = Inr []"
| "fill_components params (c # cs) =
     (if c \<noteq> [] \<and> hd c = CHR '':''
      then (case params (tl c) of
              None \<Rightarrow> Inl (ErrorString (''missing param '' @ c))
            | Some val \<Rightarrow> map_sum id (\<lambda>r. val # r) (fill_components params cs))
      else map_sum id (\<lambda>r. c # r) (fill_components params cs))"

definition CreatePath :: "(string \<Rightarrow> go_error + string) \<Rightarrow> string \<Rightarrow> (string \<rightharpoonup> string) \<Rightarrow> go_error + string" where
  "CreatePath urlString path params =
     (case fill_components params (Split path (CHR ''/'')) of
        Inl err \<Rightarrow> Inl err
      | Inr components \<Rightarrow> urlString (Join components ''/''))"

text \<open>The request generator of \<open>rata\<close>: the method and the URL of a named route.\<close>

definition CreateRequest ::
    "'w client \<Rightarrow> string \<Rightarrow> (string \<rightharpoonup> string) \<Rightarrow> go_error + string \<times> string" where
  "CreateRequest c name params =
     (case map_of RoutesMap name of
        None \<Rightarrow> Inl (ErrorString (''No route exists with the name '' @ name))
      | Some (meth, pattern) \<Rightarrow>
          (case CreatePath (url_String c) pattern params of
             Inl err \<Rightarrow> Inl err
           | Inr path \<Rightarrow>
               let url = reqHost c @ ''/'' @ dropWhile (\<lambda>ch. ch = CHR ''/'') path
               in case http_NewRequest c meth url of
                    Some err \<Rightarrow> Inl err
                  | None \<Rightarrow> Inr (meth, url)))"

definition createRequest ::
    "'w client \<Rightarrow> string \<Rightarrow> (string \<rightharpoonup> string) \<Rightarrow> (string \<times> string list) list \<Rightarrow> json option \<Rightarrow>
     go_error + api_request" where
  "createRequest c requestName params queryParams request =
     (let bodyBytes = (case request of None \<Rightarrow> [] | Some j \<Rightarrow> Marshal j)
      in case CreateRequest c requestName params of
           Inl err \<Rightarrow> Inl err
         | Inr (meth, url) \<Rightarrow>
             Inr \<lparr>aqMethod = meth, aqURL = url, aqQuery = queryParams,
                  aqBody = bodyBytes, aqAuthorization = ''bearer '' @ authToken c\<rparr>)"

definition transformResponseError :: "'w client \<Rightarrow> api_response \<Rightarrow> go_error" where
  "transformResponseError c res =
     (case arBody res of
        Inl err \<Rightarrow> ApiError ''ResponseError'' ''failed to read response body''
      | Inr data \<Rightarrow>
          (case unmarshalError c data of
             Inl err \<Rightarrow> ApiError ''ResponseError'' data
           | Inr (ty, msg) \<Rightarrow> if ty = [] then ApiError ''ResponseError'' data else ApiError ty msg))"

text \<open>\<open>decode\<close> reads the response; for a call without a response it accepts everything.\<close>

definition client_do ::
    "'w client \<Rightarrow> (string \<Rightarrow> go_error + 'a) \<Rightarrow> bool \<Rightarrow> 'a \<Rightarrow> api_request \<Rightarrow> ('w, 'a) action" where
  "client_do c decode hasResponse nothing req =
     bindE (httpClient_Do c req) (\<lambda>res.
     if arStatus res = 401 then failE (ApiError ''UnauthorizedError'' ''unauthorized'')
     else if arStatus res > 299 then failE (transformResponseError c res)
     else if hasResponse
     then (case arBody res of
             Inl err \<Rightarrow> failE err
           | Inr data \<Rightarrow> (case decode data of Inl err \<Rightarrow> failE err | Inr x \<Rightarrow> returnE x))
     else returnE nothing)"

definition doRequest ::
    "'w client \<Rightarrow> string \<Rightarrow> (string \<rightharpoonup> string) \<Rightarrow> (string \<times> string list) list \<Rightarrow> json option \<Rightarrow>
     ('w, unit) action" where
  "doRequest c requestName params queryParams request =
     (case createRequest c requestName params queryParams request of
        Inl err \<Rightarrow> failE err
      | Inr req \<Rightarrow> client_do c (\<lambda>_. Inr ()) False () req)"

definition doRequestFor ::
    "'w client \<Rightarrow> (string \<Rightarrow> go_error + 'a list) \<Rightarrow> string \<Rightarrow> (string \<times> string list) list \<Rightarrow>
     ('w, 'a list) action" where
  "doRequestFor c decode requestName queryParams =
     (case createRequest c requestName Map.empty queryParams None of
        Inl err \<Rightarrow> failE err
      | Inr req \<Rightarrow> client_do c decode True [] req)"

section \<open>The operations\<close>

definition SetToken :: "string \<Rightarrow> 'w client \<Rightarrow> 'w client" where
  "SetToken token c = c\<lparr>authToken := token\<rparr>"

definition UpsertRoutes :: "'w client \<Rightarrow> Route list \<Rightarrow> ('w, unit) action" where
  "UpsertRoutes c routes = doRequest c ''UpsertRoute'' Map.empty [] (Some (JArr (map Route_json routes)))"

definition client_Routes :: "'w client \<Rightarrow> ('w, Route list) action" where
  "client_Routes c = doRequestFor c (decodeRoutes c) ''List'' []"

definition DeleteRoutes :: "'w client \<Rightarrow> Route list \<Rightarrow> ('w, unit) action" where
  "DeleteRoutes c routes = doRequest c ''Delete'' Map.empty [] (Some (JArr (map Route_json routes)))"

definition client_UpdateRouterGroup :: "'w client \<Rightarrow> RouterGroup \<Rightarrow> ('w, unit) action" where
  "client_UpdateRouterGroup c rg =
     doRequest c ''UpdateRouterGroup'' [''guid'' \<mapsto> rgGuid rg] [] (Some (RouterGroup_json rg))"

definition client_CreateRouterGroup :: "'w client \<Rightarrow> RouterGroup \<Rightarrow> ('w, unit) action" where
  "client_CreateRouterGroup c rg =
     doRequest c ''CreateRouterGroup'' Map.empty [] (Some (RouterGroup_json rg))"

definition client_DeleteRouterGroup :: "'w client \<Rightarrow> RouterGroup \<Rightarrow> ('w, unit) action" where
  "client_DeleteRouterGroup c rg = doRequest c ''DeleteRouterGroup'' [''guid'' \<mapsto> rgGuid rg] [] None"

definition client_RouterGroups :: "'w client \<Rightarrow> ('w, RouterGroup list) action" where
  "client_RouterGroups c = doRequestFor c (decodeRouterGroups c) ''ListRouterGroups'' []"

definition RouterGroupWithName :: "'w client \<Rightarrow> string \<Rightarrow> ('w, RouterGroup) action" where
  "RouterGroupWithName c name =
     bindE (doRequestFor c (decodeRouterGroups c) ''ListRouterGroups'' [(''name'', [name])])
       (\<lambda>routerGroups. case routerGroups of
          [] \<Rightarrow> panicE ''index out of range [0] with length 0''
        | g # _ \<Rightarrow> returnE g)"

definition UpsertTcpRouteMappings :: "'w client \<Rightarrow> TcpRouteMapping list \<Rightarrow> ('w, unit) action" where
  "UpsertTcpRouteMappings c ms =
     doRequest c ''UpsertTcpRouteMapping'' Map.empty [] (Some (JArr (map TcpRouteMapping_json ms)))"

definition client_TcpRouteMappings :: "'w client \<Rightarrow> ('w, TcpRouteMapping list) action" where
  "client_TcpRouteMappings c = doRequestFor c (decodeTcpMappings c) ''ListTcpRouteMapping'' []"

definition FilteredTcpRouteMappings :: "'w client \<Rightarrow> string list \<Rightarrow> ('w, TcpRouteMapping list) action" where
  "FilteredTcpRouteMappings c isolationSegments =
     doRequestFor c (decodeTcpMappings c) ''ListTcpRouteMapping''
       [(''isolation_segment'', isolationSegments)]"

definition DeleteTcpRouteMappings :: "'w client \<Rightarrow> TcpRouteMapping list \<Rightarrow> ('w, unit) action" where
  "DeleteTcpRouteMappings c ms =
     doRequest c ''DeleteTcpRouteMapping'' Map.empty [] (Some (JArr (map TcpRouteMapping_json ms)))"

section \<open>Reserving a port\<close>

text \<open>
  The two loops of \<open>getNextAvailablePort\<close> count in 16 bits: \<open>p++\<close> wraps. A loop that does not end is
  \<open>None\<close>. The map of ports is the set of its keys.
\<close>

partial_function (option) mark_ports :: "uint16 \<Rightarrow> uint16 \<Rightarrow> uint16 set \<Rightarrow> uint16 set option" where
  "mark_ports p groupEnd portSet =
     (if p \<le> groupEnd then mark_ports (p + 1) groupEnd (insert p portSet) else Some portSet)"

primrec mark_ranges :: "Range list \<Rightarrow> uint16 set \<Rightarrow> uint16 set option" where
  "mark_ranges [] portSet = Some portSet"
| "mark_ranges (grp # grps) portSet =
     (case Endpoints grp of (groupStart, groupEnd) \<Rightarrow>
        Option.bind (mark_ports groupStart groupEnd portSet) (mark_ranges grps))"

primrec mark_groups :: "RouterGroup list \<Rightarrow> uint16 set \<Rightarrow> (go_error + uint16 set) option" where
  "mark_groups [] portSet = Some (Inr portSet)"
| "mark_groups (rg # rgs) portSet =
     (case Parse (rgReservablePorts rg) of
        Inl err \<Rightarrow> Some (Inl err)
      | Inr ranges \<Rightarrow> Option.bind (mark_ranges ranges portSet) (mark_groups rgs))"

partial_function (option) first_free :: "uint16 \<Rightarrow> uint16 \<Rightarrow> uint16 set \<Rightarrow> uint16 option option" where
  "first_free i end portSet =
     (if i \<le> end then if i \<notin> portSet then Some (Some i) else first_free (i + 1) end portSet
      else Some None)"

definition getNextAvailablePort :: "RouterGroup list \<Rightarrow> Range \<Rightarrow> (go_error + string) option" where
  "getNextAvailablePort groups portRange =
     Option.bind (mark_groups groups {}) (\<lambda>marked. case marked of
        Inl err \<Rightarrow> Some (Inl err)
      | Inr portSet \<Rightarrow>
          (case Endpoints portRange of (start, end) \<Rightarrow>
             Option.bind (first_free start end portSet) (\<lambda>free. case free of
                Some i \<Rightarrow> Some (Inr (utoa i))
              | None \<Rightarrow> Some (Inl (ApiError ''PortRangeExhaustedError''
                          (''There are no free ports in range: '' @ Range_String portRange))))))"

text \<open>The second half of \<open>ReservePort\<close>: the port is entered as the only one of the named group.\<close>

definition reserve_for ::
    "'w client \<Rightarrow> string \<Rightarrow> string \<Rightarrow> ('w, int) action" where
  "reserve_for c groupName reservablePort =
     (let create = client_CreateRouterGroup c
            (zero_RouterGroup\<lparr>rgName := groupName, rgType := RouterGroup_TCP,
               rgReservablePorts := reservablePort\<rparr>)
      in tryE (RouterGroupWithName c groupName) (\<lambda>found.
         bindE (case found of
             Inr existing \<Rightarrow>
               if existing \<noteq> zero_RouterGroup
               then client_UpdateRouterGroup c (existing\<lparr>rgReservablePorts := reservablePort\<rparr>)
               else create
           | Inl _ \<Rightarrow> create) (\<lambda>_.
         case Atoi reservablePort of
           Some n \<Rightarrow> returnE n
         | None \<Rightarrow> failE (ErrorString (''strconv.Atoi: parsing '' @ reservablePort)))))"

text \<open>The result of \<open>ReservePort\<close> and the state of the server after it, or \<open>None\<close> if it hangs.\<close>

definition ReservePort :: "'w client \<Rightarrow> string \<Rightarrow> string \<Rightarrow> 'w \<Rightarrow> (int go \<times> 'w) option" where
  "ReservePort c groupName portRange w =
     (case Parse portRange of
        Inl err \<Rightarrow> Some (Fail err, w)
      | Inr ranges \<Rightarrow>
          if length ranges > 1
          then Some (Fail (ApiError ''ProcessRequestError'' ''multiple port ranges are not supported''), w)
          else if r_start (ranges ! 0) = r_end (ranges ! 0)
          then Some (Fail (ApiError ''ProcessRequestError'' ''single port is not supported''), w)
          else (case client_RouterGroups c w of
                  (Fail err, w1) \<Rightarrow> Some (Fail err, w1)
                | (Panic p, w1) \<Rightarrow> Some (Panic p, w1)
                | (Ok routerGroups, w1) \<Rightarrow>
                    Option.bind (getNextAvailablePort routerGroups (ranges ! 0)) (\<lambda>next. case next of
                      Inl err \<Rightarrow> Some (Fail err, w1)
                    | Inr reservablePort \<Rightarrow> Some (reserve_for c groupName reservablePort w1))))"

section \<open>The loops\<close>

lemma word_plus_one_le: "(p :: uint16) \<noteq> - 1 \<Longrightarrow> p < q \<longleftrightarrow> p + 1 \<le> q"
  by (metis inc_le word_less_plus_one order_less_le_trans)

lemma mark_ports_ends:
  "groupEnd \<noteq> - 1 \<Longrightarrow> mark_ports p groupEnd portSet = Some (portSet \<union> {p..groupEnd})"
proof (induction "unat groupEnd + 1 - unat p" arbitrary: p portSet rule: less_induct)
  case less
  show ?case
  proof (cases "p \<le> groupEnd")
    case False
    then show ?thesis
      by (subst mark_ports.simps) (auto simp: not_le)
  next
    case True
    with less.prems have p: "p \<noteq> - 1"
      by (metis word_order.extremum_unique)
    then have u: "unat (p + 1) = unat p + 1"
      using unatSuc [of p] by (metis Suc_eq_plus1 add.commute add_eq_0_iff2)
    have "unat p \<le> unat groupEnd"
      using True by (simp add: word_le_nat_alt)
    with u have "unat groupEnd + 1 - unat (p + 1) < unat groupEnd + 1 - unat p"
      by linarith
    note IH = less.hyps [OF this less.prems, of "insert p portSet"]
    have split: "p \<le> x \<longleftrightarrow> x = p \<or> p + 1 \<le> x" for x
      using word_plus_one_le [OF p, of x] by (auto simp: order.order_iff_strict)
    have "x \<in> insert p portSet \<union> {p + 1..groupEnd} \<longleftrightarrow> x \<in> portSet \<union> {p..groupEnd}" for x
      using split [of x] True by auto
    then have "insert p portSet \<union> {p + 1..groupEnd} = portSet \<union> {p..groupEnd}"
      by blast
    with IH True show ?thesis
      by (subst mark_ports.simps) simp
  qed
qed


text \<open>A range that ends at the last port keeps the loop running for ever.\<close>

lemma mark_ports_bound: "mark_ports p groupEnd portSet = Some r \<Longrightarrow> groupEnd \<noteq> - 1"
  by (erule mark_ports.raw_induct [where P = "\<lambda>p groupEnd portSet r. groupEnd \<noteq> - 1", rotated])
    (auto split: if_splits)

lemma mark_ports_runs_on: "mark_ports p (- 1) portSet = None"
  using mark_ports_bound [of p "- 1" portSet] by (cases "mark_ports p (- 1) portSet") auto

lemma mark_ranges_ends:
  "(\<And>r. r \<in> set rs \<Longrightarrow> r_end r \<noteq> - 1) \<Longrightarrow>
   mark_ranges rs portSet = Some (portSet \<union> (\<Union>r\<in>set rs. range_ports r))"
  by (induction rs arbitrary: portSet)
    (auto simp: Endpoints_def mark_ports_ends range_ports_def Un_assoc)

lemma mark_ranges_runs_on: "r \<in> set rs \<Longrightarrow> r_end r = - 1 \<Longrightarrow> mark_ranges rs portSet = None"
proof (induction rs arbitrary: portSet)
  case (Cons r' rs)
  then show ?case
    by (cases "mark_ports (r_start r') (r_end r') portSet")
      (auto simp: Endpoints_def mark_ports_runs_on)
qed simp

text \<open>The ports that a list of router groups takes.\<close>

definition group_ports :: "RouterGroup list \<Rightarrow> uint16 set" where
  "group_ports groups =
     (\<Union>g\<in>set groups. case Parse (rgReservablePorts g) of Inr rs \<Rightarrow> (\<Union>r\<in>set rs. range_ports r) | Inl _ \<Rightarrow> {})"

lemma mark_groups_ends:
  "(\<And>g. g \<in> set groups \<Longrightarrow> \<exists>rs. Parse (rgReservablePorts g) = Inr rs \<and> (\<forall>r\<in>set rs. r_end r \<noteq> - 1)) \<Longrightarrow>
   mark_groups groups portSet = Some (Inr (portSet \<union> group_ports groups))"
proof (induction groups arbitrary: portSet)
  case (Cons g groups)
  from Cons.prems [of g] obtain rs where rs: "Parse (rgReservablePorts g) = Inr rs"
    "\<forall>r\<in>set rs. r_end r \<noteq> - 1"
    by auto
  have "mark_groups groups (portSet \<union> (\<Union>r\<in>set rs. range_ports r)) =
      Some (Inr (portSet \<union> (\<Union>r\<in>set rs. range_ports r) \<union> group_ports groups))"
    using Cons by (intro Cons.IH) auto
  with rs show ?case
    by (simp add: mark_ranges_ends group_ports_def Un_assoc)
qed (simp add: group_ports_def)

text \<open>
  The search for a free port ends, even if the range ends at the last port: no group that was
  marked has this port.
\<close>

lemma first_free_ends:
  assumes "- 1 \<notin> portSet"
  shows "first_free i end portSet =
    Some (if {i..end} \<subseteq> portSet then None else Some (Min ({i..end} - portSet)))"
proof (induction "unat end + 1 - unat i" arbitrary: i rule: less_induct)
  case less
  consider (out) "\<not> i \<le> end" | (taken) "i \<le> end" "i \<in> portSet" | (free) "i \<le> end" "i \<notin> portSet"
    by blast
  then show ?case
  proof cases
    case out
    then show ?thesis
      by (subst first_free.simps) (auto simp: not_le)
  next
    case taken
    with assms have i: "i \<noteq> - 1" by blast
    then have "unat (i + 1) = unat i + 1"
      using unatSuc [of i] by (metis Suc_eq_plus1 add.commute add_eq_0_iff2)
    moreover have "unat i \<le> unat end"
      using taken by (simp add: word_le_nat_alt)
    ultimately have "unat end + 1 - unat (i + 1) < unat end + 1 - unat i"
      by linarith
    note IH = less.hyps [OF this]
    have split: "i \<le> x \<longleftrightarrow> x = i \<or> i + 1 \<le> x" for x
      using word_plus_one_le [OF i, of x] by (auto simp: order.order_iff_strict)
    have "x \<in> {i..end} \<longleftrightarrow> x \<in> insert i {i + 1..end}" for x
      using split [of x] taken by auto
    then have "{i..end} = insert i {i + 1..end}"
      by blast
    moreover from this taken have "{i..end} - portSet = {i + 1..end} - portSet"
      by auto
    ultimately show ?thesis
      using taken IH by (subst first_free.simps) simp
  next
    case free
    then have "Min ({i..end} - portSet) = i"
      by (intro Min_eqI) auto
    with free show ?thesis
      by (subst first_free.simps) auto
  qed
qed

section \<open>Which port is reserved\<close>

lemma mark_ranges_Some:
  assumes "mark_ranges rs portSet = Some S"
  shows "S = portSet \<union> (\<Union>r\<in>set rs. range_ports r) \<and> - 1 \<notin> (\<Union>r\<in>set rs. range_ports r)"
proof -
  have e: "\<And>r. r \<in> set rs \<Longrightarrow> r_end r \<noteq> - 1"
    using assms mark_ranges_runs_on by fastforce
  then have "- 1 \<notin> range_ports r" if "r \<in> set rs" for r
    using that by (auto simp: range_ports_def word_order.extremum_unique)
  with mark_ranges_ends [OF e, of rs portSet] assms show ?thesis by auto
qed

lemma mark_groups_Some:
  "mark_groups groups portSet = Some (Inr S) \<Longrightarrow>
   S = portSet \<union> group_ports groups \<and> - 1 \<notin> group_ports groups"
proof (induction groups arbitrary: portSet)
  case (Cons g groups)
  from Cons.prems obtain rs S1 where rs: "Parse (rgReservablePorts g) = Inr rs"
    "mark_ranges rs portSet = Some S1" "mark_groups groups S1 = Some (Inr S)"
    by (auto split: sum.splits simp: bind_eq_Some_conv)
  from Cons.IH [OF rs(3)] mark_ranges_Some [OF rs(2)] rs(1) show ?case
    by (auto simp: group_ports_def)
qed (simp add: group_ports_def)

lemma first_free_range:
  "- 1 \<notin> S \<Longrightarrow> first_free (r_start r) (r_end r) S =
   Some (if range_ports r \<subseteq> S then None else Some (Min (range_ports r - S)))"
  by (simp add: first_free_ends range_ports_def atLeastAtMost_def atLeast_def atMost_def Int_def)

lemma last_port: "(65535 :: uint16) = - 1"
  by simp

lemma getNextAvailablePort_result:
  assumes "list_all (\<lambda>g. \<exists>rs. Parse (rgReservablePorts g) = Inr rs \<and> list_all (\<lambda>r. r_end r \<noteq> 65535) rs) groups"
    and "free = range_ports portRange - group_ports groups"
  shows "getNextAvailablePort groups portRange = Some
    (if free = {}
     then Inl (ApiError ''PortRangeExhaustedError'' (''There are no free ports in range: '' @ Range_String portRange))
     else Inr (utoa (Min free)))"
proof -
  have "\<exists>rs. Parse (rgReservablePorts g) = Inr rs \<and> (\<forall>r\<in>set rs. r_end r \<noteq> - 1)" if "g \<in> set groups" for g
    using assms(1) that unfolding list_all_iff last_port by blast
  then have m: "mark_groups groups {} = Some (Inr (group_ports groups))"
    using mark_groups_ends [of groups "{}"] by simp
  with mark_groups_Some [OF m] show ?thesis
    by (simp add: getNextAvailablePort_def Endpoints_def first_free_range assms(2))
qed

text \<open>
  (C31) If the ports of every router group parse and none of them ends at port 65535, the search for
  a free port ends: it gives the least port of the range that no group has, or the error that the
  range is exhausted.
\<close>

theorem getNextAvailablePort_least:
  assumes "list_all (\<lambda>g. \<exists>rs. Parse (rgReservablePorts g) = Inr rs \<and> list_all (\<lambda>r. r_end r \<noteq> 65535) rs) groups"
    and "free = range_ports portRange - group_ports groups"
  shows "getNextAvailablePort groups portRange = Some
    (if free = {}
     then Inl (ApiError ''PortRangeExhaustedError'' (''There are no free ports in range: '' @ Range_String portRange))
     else Inr (utoa (Min free)))"
  using getNextAvailablePort_result [OF assms] .

lemma ex_ports:
  "Parse ''1024-1026'' = Inr [\<lparr>r_start = 1024, r_end = 1026\<rparr>]"
  "Parse ''60000-65535'' = Inr [\<lparr>r_start = 60000, r_end = 65535\<rparr>]"
  by (simp_all add: Parse_def parseRange_def ParseUint16_def digits_value_def digit_value_def is_digit_def
      NewRange_def portIsInRange_def)

theorem getNextAvailablePort_least_witness:
  "getNextAvailablePort [zero_RouterGroup\<lparr>rgReservablePorts := ''1024-1026''\<rparr>]
     \<lparr>r_start = 1025, r_end = 1030\<rparr> = Some (Inr (utoa (1027 :: uint16)))"
proof -
  let ?gs = "[zero_RouterGroup\<lparr>rgReservablePorts := ''1024-1026''\<rparr>]"
  let ?free = "range_ports \<lparr>r_start = 1025, r_end = 1030\<rparr> - group_ports ?gs"
  have free: "?free = {p. 1027 \<le> p \<and> p \<le> (1030 :: uint16)}"
    by (auto simp: group_ports_def range_ports_def ex_ports word_le_nat_alt)
  have least: "Min ?free = 1027"
    unfolding free by (rule Min_eqI) simp_all
  have "1027 \<in> ?free"
    unfolding free by simp
  then have "?free \<noteq> {}" by blast
  moreover have "list_all (\<lambda>g. \<exists>rs. Parse (rgReservablePorts g) = Inr rs \<and> list_all (\<lambda>r. r_end r \<noteq> 65535) rs) ?gs"
    by (simp add: ex_ports)
  from getNextAvailablePort_least [OF this refl] show ?thesis
    by (simp only: calculation least if_False)
qed

text \<open>Groups whose marking ends are marked before the rest is looked at.\<close>

lemma mark_groups_append:
  "(\<And>g. g \<in> set pre \<Longrightarrow> \<exists>rs. Parse (rgReservablePorts g) = Inr rs \<and> (\<forall>r\<in>set rs. r_end r \<noteq> - 1)) \<Longrightarrow>
   mark_groups (pre @ groups) portSet = mark_groups groups (portSet \<union> group_ports pre)"
proof (induction pre arbitrary: portSet)
  case (Cons g pre)
  from Cons.prems [of g] obtain rs where "Parse (rgReservablePorts g) = Inr rs" "\<forall>r\<in>set rs. r_end r \<noteq> - 1"
    by auto
  moreover have "mark_groups (pre @ groups) S = mark_groups groups (S \<union> group_ports pre)" for S
    using Cons by (intro Cons.IH) auto
  ultimately show ?case
    by (simp add: mark_ranges_ends group_ports_def Un_assoc)
qed (simp add: group_ports_def)

text \<open>
  (C32) The router groups are looked at in the order of the list. Let the ports of the groups before
  the group \<open>g\<close> parse and end below 65535. If \<open>g\<close> reserves a range up to port 65535, the last port a
  group may have, the search never returns, whatever the groups after \<open>g\<close> are and whatever range is
  asked for, since the 16-bit loop counter wraps. If \<open>g\<close> has no ports, as \<open>http\<close> router groups do not,
  the search fails, however many ports of the range are free.
\<close>

theorem getNextAvailablePort_hangs:
  assumes "list_all (\<lambda>g. \<exists>rs. Parse (rgReservablePorts g) = Inr rs \<and> list_all (\<lambda>r. r_end r \<noteq> 65535) rs) pre"
  shows "((\<exists>rs r. Parse (rgReservablePorts g) = Inr rs \<and> r \<in> set rs \<and> r_end r = 65535) \<longrightarrow>
      getNextAvailablePort (pre @ g # post) portRange = None) \<and>
    (rgReservablePorts g = [] \<longrightarrow>
      getNextAvailablePort (pre @ g # post) portRange = Some (Inl ErrInvalidPort))"
proof -
  have "\<exists>rs. Parse (rgReservablePorts h) = Inr rs \<and> (\<forall>r\<in>set rs. r_end r \<noteq> - 1)" if "h \<in> set pre" for h
    using assms that unfolding list_all_iff last_port by blast
  note pre = mark_groups_append [OF this, where groups = "g # post" and portSet = "{}"]
  have "getNextAvailablePort (pre @ g # post) portRange = None"
    if "Parse (rgReservablePorts g) = Inr rs" "r \<in> set rs" "r_end r = - 1" for rs r
    using pre that by (simp add: getNextAvailablePort_def mark_ranges_runs_on)
  moreover have "getNextAvailablePort (pre @ g # post) portRange = Some (Inl ErrInvalidPort)"
    if "rgReservablePorts g = []"
    using pre that by (simp add: getNextAvailablePort_def Parse_empty)
  ultimately show ?thesis unfolding last_port by blast
qed

theorem getNextAvailablePort_hangs_witness:
  "getNextAvailablePort [zero_RouterGroup\<lparr>rgReservablePorts := ''1024-1026''\<rparr>,
     zero_RouterGroup\<lparr>rgReservablePorts := ''60000-65535''\<rparr>] \<lparr>r_start = 1025, r_end = 1030\<rparr> = None \<and>
   getNextAvailablePort [zero_RouterGroup\<lparr>rgReservablePorts := ''1024-1026''\<rparr>, zero_RouterGroup]
     \<lparr>r_start = 1025, r_end = 1030\<rparr> = Some (Inl ErrInvalidPort)"
proof -
  let ?pre = "[zero_RouterGroup\<lparr>rgReservablePorts := ''1024-1026''\<rparr>]"
  have "list_all (\<lambda>g. \<exists>rs. Parse (rgReservablePorts g) = Inr rs \<and> list_all (\<lambda>r. r_end r \<noteq> 65535) rs) ?pre"
    by (simp add: ex_ports)
  note h = getNextAvailablePort_hangs [OF this, of _ "[]" "\<lparr>r_start = 1025, r_end = 1030\<rparr>"]
  show ?thesis
    using h [of "zero_RouterGroup\<lparr>rgReservablePorts := ''60000-65535''\<rparr>"] h [of zero_RouterGroup]
    by (simp add: ex_ports zero_RouterGroup_def)
qed

lemma reserve_for_Ok: "reserve_for c groupName port w = (Ok n, w') \<Longrightarrow> Atoi port = Some n"
  by (auto simp: reserve_for_def Let_def tryE_def bindE_def
      split: prod.splits go.splits option.splits)

text \<open>
  A port that \<open>ReservePort\<close> returns lies in the requested range, which had more than one port,
  and was not in the ports of any router group that the server listed at that time.
\<close>

theorem ReservePort_in_range:
  assumes "ReservePort c groupName portRange w = Some (Ok n, w')"
    and "Parse portRange = Inr ranges"
  shows "\<exists>range groups w1 p. ranges = [range] \<and> r_start range \<noteq> r_end range \<and>
    client_RouterGroups c w = (Ok groups, w1) \<and> n = uint p \<and> p \<in> range_ports range \<and> p \<notin> group_ports groups"
proof -
  from assms obtain range where range: "ranges = [range]" "r_start range \<noteq> r_end range"
    using Parse_wf(1) [OF assms(2)]
    by (cases ranges) (auto simp: ReservePort_def split: if_splits)
  with assms obtain groups w1 y where g1: "client_RouterGroups c w = (Ok groups, w1)"
    "getNextAvailablePort groups range = Some y"
    "(case y of Inl err \<Rightarrow> Some (Fail err, w1) | Inr port \<Rightarrow> Some (reserve_for c groupName port w1)) =
       Some (Ok n, w')"
    by (auto simp: ReservePort_def bind_eq_Some_conv split: prod.splits go.splits)
  then obtain port where g: "client_RouterGroups c w = (Ok groups, w1)"
    "getNextAvailablePort groups range = Some (Inr port)" "Atoi port = Some n"
    by (cases y) (auto dest: reserve_for_Ok)
  from g(2) obtain marked where "mark_groups groups {} = Some marked"
    by (auto simp: getNextAvailablePort_def bind_eq_Some_conv)
  with g(2) obtain S where m: "mark_groups groups {} = Some (Inr S)"
    by (cases marked) (auto simp: getNextAvailablePort_def)
  note S = mark_groups_Some [OF m]
  with g(2) m have "\<not> range_ports range \<subseteq> S" and port: "port = utoa (Min (range_ports range - S))"
    by (auto simp: getNextAvailablePort_def Endpoints_def first_free_range split: if_splits)
  then have "Min (range_ports range - S) \<in> range_ports range - S"
    by (intro Min_in) auto
  with range g(1,3) port S show ?thesis
    by (auto simp: Atoi_utoa)
qed


text \<open>A server that has one router group and accepts every change.\<close>

definition ex_client :: "RouterGroup list \<Rightarrow> nat client" where
  "ex_client groups =
     \<lparr>authToken = [], reqHost = ''http://api'', url_String = Inr, http_NewRequest = (\<lambda>_ _. None),
      httpClient_Do = (\<lambda>req w. (Ok \<lparr>arStatus = 200, arBody = Inr []\<rparr>, Suc w)),
      unmarshalError = (\<lambda>s. Inr (s, s)), decodeRoutes = (\<lambda>_. Inr []), decodeTcpMappings = (\<lambda>_. Inr []),
      decodeRouterGroups = (\<lambda>_. Inr groups)\<rparr>"

theorem ReservePort_in_range_witness:
  "\<exists>n p. ReservePort (ex_client [zero_RouterGroup\<lparr>rgReservablePorts := ''60000''\<rparr>]) ''g'' ''1024-1026'' 0 = Some (Ok n, 3) \<and>
     n = uint p \<and> p \<in> range_ports \<lparr>r_start = 1024, r_end = 1026\<rparr>"
proof -
  let ?gs = "[zero_RouterGroup\<lparr>rgReservablePorts := ''60000''\<rparr>]"
  have p: "Parse ''60000'' = Inr [\<lparr>r_start = 60000, r_end = 60000\<rparr>]"
    by (simp add: Parse_def parseRange_def ParseUint16_def digits_value_def digit_value_def is_digit_def
        NewRange_def portIsInRange_def)
  have "1024 \<notin> group_ports ?gs"
    by (simp add: group_ports_def p range_ports_def)
  then have free: "range_ports \<lparr>r_start = 1024, r_end = 1026\<rparr> - group_ports ?gs \<noteq> {}"
    by (auto simp: range_ports_def)
  have found: "\<exists>q :: uint16. getNextAvailablePort ?gs \<lparr>r_start = 1024, r_end = 1026\<rparr> = Some (Inr (utoa q))"
    using getNextAvailablePort_result [OF _ refl, of ?gs "\<lparr>r_start = 1024, r_end = 1026\<rparr>"] free by (auto simp: p)
  then have "\<exists>n. ReservePort (ex_client ?gs) ''g'' ''1024-1026'' 0 = Some (Ok n, 3)"
    by (auto simp: ReservePort_def ex_ports reserve_for_def RouterGroupWithName_def client_UpdateRouterGroup_def
        client_RouterGroups_def doRequestFor_def doRequest_def createRequest_def CreateRequest_def
        CreatePath_def RoutesMap_def client_do_def
        ex_client_def bindE_def tryE_def Atoi_utoa Let_def zero_RouterGroup_def)
  then obtain n where n: "ReservePort (ex_client ?gs) ''g'' ''1024-1026'' 0 = Some (Ok n, 3)" ..
  from ReservePort_in_range [OF n ex_ports(1)] n show ?thesis by blast
qed

end
