(* ===== verification/Routing.thy ===== *)
theory Routing
  imports Event_Stream Api_Client
begin

text \<open>
  How requests reach handlers: the patterns of \<open>vendor/github.com/bmizerany/pat\<close>, the router and the
  paths of \<open>vendor/github.com/tedsuo/rata\<close>, and the tables of actions of \<open>cmd/routing-api/main.go\<close> and
  \<open>admin/server.go\<close>.
\<close>

section \<open>Patterns\<close>

definition isAlnum :: "char \<Rightarrow> bool" where
  "isAlnum c = (let n = (of_char c :: nat)
     in 97 \<le> n \<and> n \<le> 122 \<or> 65 \<le> n \<and> n \<le> 90 \<or> n = 95 \<or> 48 \<le> n \<and> n \<le> 57)"

definition unhex :: "char \<Rightarrow> nat option" where
  "unhex c = (let n = (of_char c :: nat)
     in if 48 \<le> n \<and> n \<le> 57 then Some (n - 48)
        else if 97 \<le> n \<and> n \<le> 102 then Some (n - 87)
        else if 65 \<le> n \<and> n \<le> 70 then Some (n - 55)
        else None)"

text \<open>\<open>url.QueryUnescape\<close>; \<open>None\<close>: a percent sign is not followed by two hexadecimal digits.\<close>

fun QueryUnescape :: "string \<Rightarrow> string option" where
  "QueryUnescape [] = Some []"
| "QueryUnescape (c # s) =
     (if c = CHR ''%''
      then (case s of
              a # b # s' \<Rightarrow>
                (case (unhex a, unhex b) of
                   (Some i, Some j) \<Rightarrow> map_option (\<lambda>r. char_of (16 * i + j) # r) (QueryUnescape s')
                 | _ \<Rightarrow> None)
            | _ \<Rightarrow> None)
      else map_option (\<lambda>r. (if c = CHR ''+'' then CHR '' '' else c) # r) (QueryUnescape s))"

text \<open>
  The loop of \<open>try\<close>, on what is left of the pattern and of the path; \<open>pat\<close> is the whole pattern. A
  capture ends at a slash or at the character that follows it in the pattern.
\<close>

function pat_try :: "string \<Rightarrow> string \<Rightarrow> string \<Rightarrow> (string \<times> string) list option" where
  "pat_try pat p [] = (if p = [] then Some [] else None)"
| "pat_try pat [] (c # path) =
     (if pat \<noteq> ''/'' \<and> pat \<noteq> [] \<and> last pat = CHR ''/'' then Some [] else None)"
| "pat_try pat (q # p) (c # path) =
     (if q = CHR '':''
      then let name = takeWhile isAlnum p;
               p' = dropWhile isAlnum p;
               nextc = (case p' of [] \<Rightarrow> CHR 0x00 | x # _ \<Rightarrow> x);
               part = (\<lambda>x. x \<noteq> nextc \<and> x \<noteq> CHR ''/'')
           in (case QueryUnescape (takeWhile part (c # path)) of
                 None \<Rightarrow> None
               | Some escval \<Rightarrow>
                   map_option (\<lambda>params. ('':'' @ name, escval) # params)
                     (pat_try pat p' (dropWhile part (c # path))))
      else if c = q then pat_try pat p path
      else None)"
  by pat_completeness auto
termination
  by (relation "measure (\<lambda>(pat, p, path). length p + length path)")
    (auto simp: le_imp_less_Suc add_le_mono length_dropWhile_le le_SucI)

text \<open>A pattern of literals only matches itself.\<close>

lemma pat_literal:
  "CHR '':'' \<notin> set p \<Longrightarrow> last pat \<noteq> CHR ''/'' \<Longrightarrow>
   pat_try pat p path = (if path = p then Some [] else None)"
  by (induction pat p path rule: pat_try.induct) auto

section \<open>Routers\<close>

type_synonym rata_route = "string \<times> string \<times> string"

datatype 'h target = Serve 'h | AddSlash

type_synonym 'h mux = "(string \<times> string \<times> 'h target) list"

text \<open>The registered patterns of all methods, in the order in which they were added.\<close>

function mux_add :: "string \<Rightarrow> string \<Rightarrow> 'h target \<Rightarrow> 'h mux \<Rightarrow> 'h mux" where
  "mux_add meth pat h mux =
     (if list_ex (\<lambda>(m, p, _). m = meth \<and> p = pat) mux then mux
      else if pat \<noteq> [] \<and> last pat = CHR ''/''
      then mux_add meth (butlast pat) AddSlash (mux @ [(meth, pat, h)])
      else mux @ [(meth, pat, h)])"
  by pat_completeness auto
termination
  by (relation "measure (\<lambda>(meth, pat, h, mux). length pat)") auto

declare mux_add.simps [simp del]

definition http_verbs :: "string list" where
  "http_verbs = [''GET'', ''HEAD'', ''POST'', ''PUT'', ''PATCH'', ''DELETE'', ''CONNECT'', ''OPTIONS'', ''TRACE'']"

text \<open>\<open>strings.ToUpper\<close>, on ASCII letters.\<close>

definition ToUpper :: "string \<Rightarrow> string" where
  "ToUpper s = map (\<lambda>c. let n = (of_char c :: nat) in if 97 \<le> n \<and> n \<le> 122 then char_of (n - 32) else c) s"

lemma ToUpper_verb: "meth \<in> set http_verbs \<Longrightarrow> ToUpper meth = meth"
proof -
  have "list_all (\<lambda>m. ToUpper m = m) http_verbs"
    by (simp add: http_verbs_def ToUpper_def)
  then show "meth \<in> set http_verbs \<Longrightarrow> ToUpper meth = meth" by (simp add: list_all_iff)
qed

primrec NewRouter_add :: "(string \<rightharpoonup> 'h) \<Rightarrow> rata_route list \<Rightarrow> 'h mux \<Rightarrow> go_error + 'h mux" where
  "NewRouter_add handlers [] mux = Inr mux"
| "NewRouter_add handlers (r # rs) mux =
     (case r of (name, meth, path) \<Rightarrow>
        (case handlers name of
           None \<Rightarrow> Inl (ErrorString (''missing handler '' @ name))
         | Some h \<Rightarrow>
             if ToUpper meth \<in> set http_verbs
             then NewRouter_add handlers rs (mux_add (ToUpper meth) path (Serve h) mux)
             else Inl (ErrorString (''invalid verb: '' @ meth))))"

definition NewRouter :: "rata_route list \<Rightarrow> (string \<rightharpoonup> 'h) \<Rightarrow> go_error + 'h mux" where
  "NewRouter routes handlers = NewRouter_add handlers routes []"

datatype 'h routed =
    Routed 'h "(string \<times> string) list"
  | SlashRedirect
  | MethodNotAllowed "string list"
  | PathNotFound

definition mux_serve :: "'h mux \<Rightarrow> string \<Rightarrow> string \<Rightarrow> 'h routed" where
  "mux_serve mux meth path =
     (case List.find (\<lambda>(m, p, _). m = meth \<and> pat_try p p path \<noteq> None) mux of
        Some (_, p, Serve h) \<Rightarrow> Routed h (the (pat_try p p path))
      | Some (_, _, AddSlash) \<Rightarrow> SlashRedirect
      | None \<Rightarrow>
          (case map fst (filter (\<lambda>(m, p, _). m \<noteq> meth \<and> pat_try p p path \<noteq> None) mux) of
             [] \<Rightarrow> PathNotFound
           | allowed \<Rightarrow> MethodNotAllowed allowed))"

section \<open>The actions of the API\<close>

type_synonym ('u, 'd) http_handler = "request \<Rightarrow> (('u, 'd) server, response) action"

text \<open>\<open>inputs\<close> is what an event stream is given while it is served.\<close>

definition api_actions ::
    "('u, 'd) handler \<Rightarrow> stream_input list \<Rightarrow> (string \<times> ('u, 'd) http_handler) list" where
  "api_actions h inputs =
     [(''UpsertRoute'', Routes_Upsert h),
      (''Delete'', Routes_Delete h),
      (''List'', Routes_List h),
      (''EventStream'', \<lambda>req. EventStream h req inputs),
      (''ListRouterGroups'', ListRouterGroups h),
      (''CreateRouterGroup'', CreateRouterGroup h),
      (''UpdateRouterGroup'', UpdateRouterGroup h),
      (''DeleteRouterGroup'', DeleteRouterGroup_handler h),
      (''UpsertTcpRouteMapping'', Tcp_Upsert h),
      (''DeleteTcpRouteMapping'', Tcp_Delete h),
      (''ListTcpRouteMapping'', Tcp_List h),
      (''TcpRouteEventStream'', \<lambda>req. TcpEventStream h req inputs)]"

text \<open>\<open>Routes()\<close> ranges over a map: the order of the routes is not fixed.\<close>

definition apiHandler ::
    "rata_route list \<Rightarrow> ('u, 'd) handler \<Rightarrow> stream_input list \<Rightarrow> go_error + ('u, 'd) http_handler mux" where
  "apiHandler routes h inputs = NewRouter routes (map_of (api_actions h inputs))"

definition AdminRoutesMap :: "rata_route list" where
  "AdminRoutesMap =
     [(''LockRouterGroupReads'', ''PUT'', ''/lock_router_group_reads''),
      (''UnlockRouterGroupReads'', ''PUT'', ''/unlock_router_group_reads''),
      (''LockRouterGroupWrites'', ''PUT'', ''/lock_router_group_writes''),
      (''UnlockRouterGroupWrites'', ''PUT'', ''/unlock_router_group_writes'')]"

definition admin_actions :: "('u, 'd) handler \<Rightarrow> (string \<times> (('u, 'd) server, response) action) list" where
  "admin_actions h =
     [(''LockRouterGroupReads'', Admin_LockReads h),
      (''UnlockRouterGroupReads'', Admin_UnlockReads h),
      (''LockRouterGroupWrites'', Admin_LockWrites h),
      (''UnlockRouterGroupWrites'', Admin_UnlockWrites h)]"

definition admin_handler ::
    "rata_route list \<Rightarrow> ('u, 'd) handler \<Rightarrow> go_error + (('u, 'd) server, response) action mux" where
  "admin_handler routes h = NewRouter routes (map_of (admin_actions h))"

section \<open>Every route has its handler\<close>

definition plain_pattern :: "rata_route \<Rightarrow> bool" where
  "plain_pattern r = (case r of (name, meth, path) \<Rightarrow>
     meth \<in> set http_verbs \<and> path \<noteq> [] \<and> last path \<noteq> CHR ''/'')"

lemma NewRouter_plain:
  assumes "list_all plain_pattern routes" and "list_all (\<lambda>r. handlers (fst r) \<noteq> None) routes"
    and "distinct (map snd routes)" and "list_all (\<lambda>r. list_all (\<lambda>(m, p, _). (m, p) \<noteq> snd r) mux) routes"
  shows "NewRouter_add handlers routes mux =
    Inr (mux @ map (\<lambda>(n, m, p). (m, p, Serve (the (handlers n)))) routes)"
  using assms
proof (induction routes arbitrary: mux)
  case (Cons r rs)
  obtain n m p where r: "r = (n, m, p)" by (cases r)
  then have *: "m \<in> set http_verbs" "p \<noteq> []" "last p \<noteq> CHR ''/''"
    using Cons.prems(1) by (simp_all add: plain_pattern_def)
  obtain h where h: "handlers n = Some h" using Cons.prems(2) r by auto
  have "\<not> list_ex (\<lambda>(m', p', _). m' = m \<and> p' = p) mux"
    using Cons.prems(4) r by (auto simp: list_ex_iff list_all_iff)
  then have add: "mux_add m p (Serve h) mux = mux @ [(m, p, Serve h)]"
    using * by (simp add: mux_add.simps)
  have "list_all (\<lambda>r. list_all (\<lambda>(m, p, _). (m, p) \<noteq> snd r) (mux @ [(m, p, Serve h)])) rs"
    using Cons.prems(3,4) r by (auto simp: list_all_iff)
  moreover have "list_all plain_pattern rs" "list_all (\<lambda>r. handlers (fst r) \<noteq> None) rs" "distinct (map snd rs)"
    using Cons.prems(1-3) by simp_all
  ultimately have "NewRouter_add handlers rs (mux @ [(m, p, Serve h)]) =
      Inr ((mux @ [(m, p, Serve h)]) @ map (\<lambda>(n, m, p). (m, p, Serve (the (handlers n)))) rs)"
    by (intro Cons.IH)
  then show ?case
    using *(1) by (simp only: r h add ToUpper_verb NewRouter_add.simps prod.case option.case if_True) (simp add: h)
qed simp

lemma find_unique:
  assumes "x \<in> set xs" and "P x" and "\<And>y. y \<in> set xs \<Longrightarrow> P y \<Longrightarrow> y = x"
  shows "List.find P xs = Some x"
proof (cases "List.find P xs")
  case None
  with assms(1,2) show ?thesis by (simp add: find_None_iff)
next
  case (Some y)
  then have "y \<in> set xs" "P y" by (auto simp: find_Some_iff)
  with assms(3) Some show ?thesis by simp
qed

text \<open>Of a path that is made from a pattern, only this pattern matches.\<close>

definition guid_char :: "char \<Rightarrow> bool" where
  "guid_char c \<longleftrightarrow> isAlnum c \<or> c = CHR ''-''"

definition route_path :: "string \<Rightarrow> string \<Rightarrow> string" where
  "route_path pat guid =
     (if pat = ''/routing/v1/router_groups/:guid'' then ''/routing/v1/router_groups/'' @ guid else pat)"

lemma guid_plain:
  assumes "list_all guid_char g"
  shows "QueryUnescape g = Some g" and "CHR ''/'' \<notin> set g" and "CHR 0x00 \<notin> set g" and "CHR '':'' \<notin> set g"
proof -
  have no: "\<not> guid_char (CHR ''%'')" "\<not> guid_char (CHR ''+'')" "\<not> guid_char (CHR ''/'')"
    "\<not> guid_char (CHR 0x00)" "\<not> guid_char (CHR '':'')"
    by (simp_all add: guid_char_def isAlnum_def)
  show "CHR ''/'' \<notin> set g" "CHR 0x00 \<notin> set g" "CHR '':'' \<notin> set g"
    using assms no unfolding list_all_iff by metis+
  show "QueryUnescape g = Some g"
    using assms
  proof (induction g)
    case (Cons c g)
    then have "c \<noteq> CHR ''%''" "c \<noteq> CHR ''+''" "QueryUnescape g = Some g"
      using no by auto
    then show ?case by simp
  qed simp
qed

lemma pat_guid:
  assumes "list_all guid_char g" and "g \<noteq> []"
  shows "pat_try ''/routing/v1/router_groups/:guid'' ''/routing/v1/router_groups/:guid''
    (''/routing/v1/router_groups/'' @ g) = Some [('':guid'', g)]"
proof -
  obtain c cs where g: "g = c # cs" using assms(2) by (cases g) auto
  have part: "takeWhile (\<lambda>x. x \<noteq> CHR 0x00 \<and> x \<noteq> CHR ''/'') g = g" "dropWhile (\<lambda>x. x \<noteq> CHR 0x00 \<and> x \<noteq> CHR ''/'') g = []"
    using guid_plain [OF assms(1)] by (auto simp: takeWhile_eq_all_conv)
  have "pat_try ''/routing/v1/router_groups/:guid'' '':guid'' g = Some [('':guid'', g)]"
    using part guid_plain(1) [OF assms(1)] unfolding g by (simp add: isAlnum_def)
  then show ?thesis by simp
qed

lemma routes_plain:
  "list_all plain_pattern RoutesMap" "distinct (map snd RoutesMap)"
  "list_all (\<lambda>r. map_of (api_actions h inputs) (fst r) \<noteq> None) RoutesMap"
  by (simp_all add: RoutesMap_def plain_pattern_def http_verbs_def api_actions_def)

abbreviation guid_pattern :: string where
  "guid_pattern \<equiv> ''/routing/v1/router_groups/:guid''"

lemma route_patterns:
  assumes "(n, m, p) \<in> set RoutesMap"
  shows "p = guid_pattern \<or> CHR '':'' \<notin> set p \<and> take 26 p \<noteq> ''/routing/v1/router_groups/'' \<and>
    last p \<noteq> CHR ''/'' \<and> pat_try guid_pattern guid_pattern p = None"
proof -
  have "list_all (\<lambda>(n, m, p). p = guid_pattern \<or> CHR '':'' \<notin> set p \<and>
      take 26 p \<noteq> ''/routing/v1/router_groups/'' \<and> last p \<noteq> CHR ''/'' \<and>
      pat_try guid_pattern guid_pattern p = None) RoutesMap"
    by (simp add: RoutesMap_def)
  with assms show ?thesis by (auto simp: list_all_iff)
qed

lemma route_matches:
  assumes "(n, m, p) \<in> set RoutesMap" and "list_all guid_char g" and "g \<noteq> []"
  shows "pat_try p p (route_path p g) = Some (if p = guid_pattern then [('':guid'', g)] else [])"
proof (cases "p = guid_pattern")
  case True
  then show ?thesis using pat_guid [OF assms(2,3)] by (simp add: route_path_def)
next
  case False
  with route_patterns [OF assms(1)] have "CHR '':'' \<notin> set p" "last p \<noteq> CHR ''/''" by blast+
  from pat_literal [OF this, of p] False show ?thesis by (simp del: pat_try.simps add: route_path_def)
qed

lemma only_route_matches:
  assumes "(n, m, p) \<in> set RoutesMap" and "(n', m, p') \<in> set RoutesMap"
    and "pat_try p' p' (route_path p g) \<noteq> None"
  shows "(n', p') = (n, p)"
proof -
  have "p' = p"
  proof (cases "p' = guid_pattern")
    case True
    have "p \<noteq> guid_pattern \<Longrightarrow> pat_try guid_pattern guid_pattern p \<noteq> None"
      using assms(3) unfolding True route_path_def by (simp only: if_False not_False_eq_True)
    with route_patterns [OF assms(1)] True show ?thesis by blast
  next
    case False
    with route_patterns [OF assms(2)] have p': "CHR '':'' \<notin> set p'" "last p' \<noteq> CHR ''/''"
        "take 26 p' \<noteq> ''/routing/v1/router_groups/''"
      by blast+
    from pat_literal [OF p'(1,2), of "route_path p g"] assms(3) have "route_path p g = p'"
      by (metis option.distinct(1))
    with p'(3) show ?thesis by (auto simp: route_path_def split: if_splits)
  qed
  moreover have "inj_on snd (set RoutesMap)"
    using routes_plain(2) by (simp add: distinct_map)
  ultimately show ?thesis
    using assms(1,2) inj_onD [of snd "set RoutesMap" "(n, m, p)" "(n', m, p)"] by simp
qed

lemma apiHandler_mux:
  assumes "mset routes = mset RoutesMap"
  shows "apiHandler routes h inputs =
    Inr (map (\<lambda>(n, m, p). (m, p, Serve (the (map_of (api_actions h inputs) n)))) routes)"
proof -
  have set: "set routes = set RoutesMap" using assms by (rule mset_eq_setD)
  have "mset (map snd routes) = mset (map snd RoutesMap)" using assms by (simp only: mset_map)
  then have "distinct (map snd routes)"
    by (rule mset_eq_imp_distinct_iff [THEN iffD2, OF _ routes_plain(2)])
  then have "NewRouter_add (map_of (api_actions h inputs)) routes [] =
      Inr ([] @ map (\<lambda>(n, m, p). (m, p, Serve (the (map_of (api_actions h inputs) n)))) routes)"
    using routes_plain(1,3) set by (intro NewRouter_plain) (simp_all add: list_all_iff)
  then show ?thesis by (simp add: apiHandler_def NewRouter_def)
qed

definition path_char :: "char \<Rightarrow> bool" where
  "path_char c \<longleftrightarrow> guid_char c \<or> c = CHR ''/''"

text \<open>Parsing and printing a URL keeps a path of unreserved characters below the root of the API.\<close>

definition url_keeps :: "(string \<Rightarrow> go_error + string) \<Rightarrow> bool" where
  "url_keeps urlString \<longleftrightarrow>
     (\<forall>s. list_all path_char s \<longrightarrow> urlString (''/routing/v1/'' @ s) = Inr (''/routing/v1/'' @ s))"

lemma all_routes: "list_all (\<lambda>(n, m, p). P p) RoutesMap \<Longrightarrow> (n, m, p) \<in> set RoutesMap \<Longrightarrow> P p"
  by (auto simp only: list_all_iff)

lemma CreatePath_route:
  assumes "(n, m, p) \<in> set RoutesMap" and "url_keeps urlString" and "list_all guid_char g"
  shows "CreatePath urlString p [''guid'' \<mapsto> g] = Inr (route_path p g)"
proof -
  have "list_all (\<lambda>(n, m, p). CreatePath urlString p [''guid'' \<mapsto> g] = urlString (route_path p g)) RoutesMap"
    by (simp add: RoutesMap_def CreatePath_def route_path_def)
  from all_routes [OF this assms(1)] have path: "CreatePath urlString p [''guid'' \<mapsto> g] = urlString (route_path p g)" .
  have "list_all (\<lambda>(n, m, p). p = guid_pattern \<or> take 12 p = ''/routing/v1/'' \<and> list_all path_char (drop 12 p)) RoutesMap"
    by (simp add: RoutesMap_def path_char_def guid_char_def isAlnum_def)
  from all_routes [OF this assms(1)]
  have p: "p = guid_pattern \<or> take 12 p = ''/routing/v1/'' \<and> list_all path_char (drop 12 p)" .
  have "\<exists>t. list_all path_char t \<and> route_path p g = ''/routing/v1/'' @ t"
  proof (cases "p = guid_pattern")
    case True
    have "list_all path_char g"
      using assms(3) by (rule list.pred_mono_strong) (simp add: path_char_def)
    then have "list_all path_char (''router_groups/'' @ g)"
      by (simp add: path_char_def guid_char_def isAlnum_def)
    moreover have "route_path p g = ''/routing/v1/'' @ ''router_groups/'' @ g"
      using True by (simp add: route_path_def)
    ultimately show ?thesis by blast
  next
    case False
    then have "list_all path_char (drop 12 p)" "route_path p g = ''/routing/v1/'' @ drop 12 p"
      using p append_take_drop_id [of 12 p] by (auto simp: route_path_def)
    then show ?thesis by blast
  qed
  with assms(2) path show ?thesis unfolding url_keeps_def by auto
qed

text \<open>
  (C20) Client and server agree on the routes: the path that the client makes for a named route, with
  any identifier where the pattern has one, is dispatched by the server to the action of the same
  name, and the handler gets this identifier; in whatever order Go ranges over the map of routes.
\<close>

theorem requests_reach_their_handlers:
  assumes "mset routes = mset RoutesMap" and "(name, meth, pat) \<in> set RoutesMap"
    and "url_keeps urlString" and "list_all guid_char guid" and "guid \<noteq> []"
  shows "\<exists>mux path action. apiHandler routes h inputs = Inr mux \<and>
    CreatePath urlString pat [''guid'' \<mapsto> guid] = Inr path \<and>
    map_of (api_actions h inputs) name = Some action \<and>
    mux_serve mux meth path = Routed action (if path = pat then [] else [('':guid'', guid)])"
proof -
  let ?action = "the (map_of (api_actions h inputs) name)"
  let ?mux = "map (\<lambda>(n, m, p). (m, p, Serve (the (map_of (api_actions h inputs) n)))) routes"
  have set: "set routes = set RoutesMap" using assms(1) by (rule mset_eq_setD)
  note m = route_matches [OF assms(2,4,5)]
  have "List.find (\<lambda>(m, p, _). m = meth \<and> pat_try p p (route_path pat guid) \<noteq> None) ?mux = Some (meth, pat, Serve ?action)"
  proof (rule find_unique)
    show "(meth, pat, Serve ?action) \<in> set ?mux"
      using assms(2) set by force
    show "case (meth, pat, Serve ?action) of (m, p, _) \<Rightarrow> m = meth \<and> pat_try p p (route_path pat guid) \<noteq> None"
      by (simp only: prod.case m) simp
    fix y assume y: "y \<in> set ?mux" "case y of (m, p, _) \<Rightarrow> m = meth \<and> pat_try p p (route_path pat guid) \<noteq> None"
    then obtain n p where "(n, meth, p) \<in> set RoutesMap" "y = (meth, p, Serve (the (map_of (api_actions h inputs) n)))"
      "pat_try p p (route_path pat guid) \<noteq> None"
      using set by force
    with only_route_matches [OF assms(2)] show "y = (meth, pat, Serve ?action)" by simp
  qed
  then have "mux_serve ?mux meth (route_path pat guid) = Routed ?action (the (pat_try pat pat (route_path pat guid)))"
    by (simp add: mux_serve_def)
  moreover have "(if pat = guid_pattern then [('':guid'', guid)] else []) =
      (if route_path pat guid = pat then [] else [('':guid'', guid)])"
    using guid_plain(4) [OF assms(4)] by (auto simp: route_path_def)
  moreover have "map_of (api_actions h inputs) name = Some ?action"
    using routes_plain(3) [of h inputs] assms(2) by (force simp: list_all_iff)
  ultimately show ?thesis
    using apiHandler_mux [OF assms(1), of h inputs] CreatePath_route [OF assms(2-4)] m
    by (intro exI [of _ ?mux] exI [of _ "route_path pat guid"] exI [of _ ?action]) (simp only: option.sel simp_thms)
qed

theorem requests_reach_their_handlers_witness:
  "\<forall>(h :: (unit, unit) handler) inputs. \<exists>mux path.
     apiHandler (rev RoutesMap) h inputs = Inr mux \<and>
     CreatePath Inr ''/routing/v1/router_groups/:guid'' [''guid'' \<mapsto> ''a1-b2''] = Inr path \<and>
     mux_serve mux ''DELETE'' path = Routed (DeleteRouterGroup_handler h) (if path = ''/routing/v1/router_groups/:guid'' then [] else [('':guid'', ''a1-b2'')])"
proof (intro allI)
  fix h :: "(unit, unit) handler" and inputs
  have "mset (rev RoutesMap) = mset RoutesMap"
    and "(''DeleteRouterGroup'', ''DELETE'', ''/routing/v1/router_groups/:guid'') \<in> set RoutesMap"
    and "url_keeps Inr" and "list_all guid_char ''a1-b2''" and "''a1-b2'' \<noteq> []"
    by (simp_all add: RoutesMap_def url_keeps_def guid_char_def isAlnum_def)
  from requests_reach_their_handlers [OF this, of h inputs]
  show "\<exists>mux path. apiHandler (rev RoutesMap) h inputs = Inr mux \<and>
     CreatePath Inr ''/routing/v1/router_groups/:guid'' [''guid'' \<mapsto> ''a1-b2''] = Inr path \<and>
     mux_serve mux ''DELETE'' path = Routed (DeleteRouterGroup_handler h) (if path = ''/routing/v1/router_groups/:guid'' then [] else [('':guid'', ''a1-b2'')])"
    by (auto simp: api_actions_def)
qed

section \<open>Authorization\<close>

text \<open>The scope that each action asks for.\<close>

definition required_scope :: "string \<Rightarrow> string" where
  "required_scope name =
     (if name \<in> {''List'', ''EventStream'', ''ListTcpRouteMapping'', ''TcpRouteEventStream''}
      then ''routing.routes.read''
      else if name \<in> {''UpsertRoute'', ''Delete'', ''UpsertTcpRouteMapping'', ''DeleteTcpRouteMapping''}
      then ''routing.routes.write''
      else if name = ''ListRouterGroups'' then ''routing.router_groups.read''
      else ''routing.router_groups.write'')"

definition refused :: "'u \<Rightarrow> ('u, 'd) server \<Rightarrow> response go \<times> ('u, 'd) server \<Rightarrow> bool" where
  "refused u s result \<longleftrightarrow> (\<exists>resp s'. result = (Ok resp, s') \<and> rsStatus resp = 401 \<and>
     srvDb s' = srvDb s \<and> srvEnv s' = srvEnv s \<and> srvUaa s' = u \<and>
     totalTokenErrors s' = int64 (totalTokenErrors s + 1))"

lemma authorized_refuses:
  assumes "hUaa h (rqAuthorization req) [scope] (srvUaa s) = (Fail err, u)"
  shows "refused u s (authorized h req scope k s)"
  using assms
  by (simp add: refused_def authorized_def orElse_def tryE_def zoom_def handleUnauthorizedError_def
      respond_def Let_def returnE_def)

lemma stream_refuses:
  assumes "hUaa h (rqAuthorization req) [RoutingRoutesReadScope] (srvUaa s) = (Fail err, u)"
  shows "refused u s (counted_stream stat (handleEventStream h filterKey req inputs) s)"
  using assms
  by (simp add: refused_def counted_stream_def handleEventStream_def GaugeDelta_def orElse_def tryE_def
      zoom_def handleUnauthorizedError_def bindE_def respond_def Let_def returnE_def)

lemmas handler_defs = Routes_Upsert_def Routes_Delete_def Routes_List_def EventStream_def
  ListRouterGroups_def CreateRouterGroup_def UpdateRouterGroup_def DeleteRouterGroup_handler_def
  Tcp_Upsert_def Tcp_Delete_def Tcp_List_def TcpEventStream_def

lemmas scope_defs = RoutingRoutesReadScope_def RoutingRoutesWriteScope_def RouterGroupsReadScope_def
  RouterGroupsWriteScope_def

text \<open>
  (C21) No action of the API does anything for a request whose token is refused: whichever of the
  twelve it is, if the validator does not accept the token for the scope of this action, the
  response has status 401, the database and the random source are untouched, and the counter of
  token errors goes up by one.
\<close>

theorem unauthorized_requests_are_refused:
  assumes "(name, serve) \<in> set (api_actions h inputs)"
    and "hUaa h (rqAuthorization req) [required_scope name] (srvUaa s) = (Fail err, u)"
  shows "\<exists>resp s'. serve req s = (Ok resp, s') \<and> rsStatus resp = 401 \<and>
    srvDb s' = srvDb s \<and> srvEnv s' = srvEnv s \<and> srvUaa s' = u \<and>
    totalTokenErrors s' = int64 (totalTokenErrors s + 1)"
proof -
  have "refused u s (serve req s)"
    using assms
    by (auto simp: api_actions_def handler_defs required_scope_def scope_defs
        intro: authorized_refuses stream_refuses [unfolded scope_defs])
  then show ?thesis by (simp add: refused_def)
qed

theorem unauthorized_requests_are_refused_witness:
  "\<exists>resp s'. Tcp_Delete (ex_handler (\<lambda>_. False)) (ex_request ''bearer x'') (ex_server ex_full) = (Ok resp, s') \<and>
     rsStatus resp = 401 \<and> srvDb s' = ex_full"
proof -
  have "(''DeleteTcpRouteMapping'', Tcp_Delete (ex_handler (\<lambda>_. False))) \<in> set (api_actions (ex_handler (\<lambda>_. False)) [])"
    by (simp add: api_actions_def)
  from unauthorized_requests_are_refused [OF this, of "ex_request ''bearer x''" "ex_server ex_full"]
  show ?thesis by (auto simp: ex_handler_def ex_server_def failE_def)
qed

end
