(* ===== verification/Requests.thy ===== *)
theory Requests
  imports Handlers
begin

text \<open>
  What requests do end to end: the handlers of \<open>handlers/\<close> over \<open>SqlDB\<close> and the validator, for any
  store with the laws of SQL.
\<close>

section \<open>Common steps\<close>

lemma authorized_lets_in:
  "hUaa h (rqAuthorization req) [scope] (srvUaa s) = (Ok (), u) \<Longrightarrow>
   authorized h req scope k s = k (s\<lparr>srvUaa := u\<rparr>)"
  by (simp add: authorized_def orElse_def tryE_def zoom_def)

lemma orElse_simps [simp]:
  "orElse (liftE (Ok x)) e k s = k x s"
  "orElse (liftE (Fail err)) e k s = e err s"
  "orElse (liftE (Panic p)) e k s = (Panic p, s)"
  by (simp_all add: orElse_def tryE_def liftE_def)

lemma orElse_onDb:
  "orElse (onDb m) e k s =
     (case m (srvDb s) of
        (Ok x, d) \<Rightarrow> k x (s\<lparr>srvDb := d\<rparr>)
      | (Fail err, d) \<Rightarrow> e err (s\<lparr>srvDb := d\<rparr>)
      | (Panic p, d) \<Rightarrow> (Panic p, s\<lparr>srvDb := d\<rparr>))"
  by (simp add: orElse_def tryE_def zoom_def split: prod.splits go.splits)

lemma SqlDB_DB_simps [simp]:
  "db_ReadRoutes (SqlDB_DB c) = ReadRoutes c" "db_SaveRoute (SqlDB_DB c) = SaveRoute c"
  "db_DeleteRoute (SqlDB_DB c) = DeleteRoute c"
  "db_ReadTcpRouteMappings (SqlDB_DB c) = ReadTcpRouteMappings c"
  "db_ReadFilteredTcpRouteMappings (SqlDB_DB c) = ReadFilteredTcpRouteMappings c"
  "db_FindSimilarTcpRouteMappings (SqlDB_DB c) = FindSimilarTcpRouteMappings c"
  "db_SaveTcpRouteMapping (SqlDB_DB c) = SaveTcpRouteMapping c"
  "db_DeleteTcpRouteMapping (SqlDB_DB c) = DeleteTcpRouteMapping c"
  "db_ReadRouterGroups (SqlDB_DB c) = ReadRouterGroups c"
  "db_ReadRouterGroup (SqlDB_DB c) = ReadRouterGroup c"
  "db_DeleteRouterGroup (SqlDB_DB c) = DeleteRouterGroup c"
  "db_SaveRouterGroup (SqlDB_DB c) = SaveRouterGroup c"
  by (simp_all add: SqlDB_DB_def)

lemma NewValidator_simps [simp]:
  "rv_ValidateCreate (NewValidator p) = ValidateCreate p"
  "rv_ValidateDelete (NewValidator p) = ValidateDelete p"
  "rv_ValidateCreateTcpRouteMapping (NewValidator p) = ValidateCreateTcpRouteMapping"
  "rv_ValidateDeleteTcpRouteMapping (NewValidator p) = ValidateDeleteTcpRouteMapping"
  by (simp_all add: NewValidator_def)

lemma respond_status [simp]: "rsStatus (respond n b) = n"
  by (simp add: respond_def)

lemma error_status [simp]:
  "rsStatus (handleProcessRequestError e) = 400" "rsStatus (handleApiError e) = 400"
  "rsStatus (handleDBCommunicationError e) = 503" "rsStatus (handleNotFoundError e) = 404"
  by (simp_all add: handleProcessRequestError_def handleApiError_def handleDBCommunicationError_def
      handleNotFoundError_def)

section \<open>Registering HTTP routes\<close>

definition acceptable_route :: "(string \<Rightarrow> go_error + string) \<Rightarrow> int \<Rightarrow> Route \<Rightarrow> bool" where
  "acceptable_route urlParse maxTTL r \<longleftrightarrow> valid_route urlParse r \<and>
     (case reTTL (rEntity r) of None \<Rightarrow> 0 < maxTTL | Some ttl \<Rightarrow> 0 < ttl \<and> ttl \<le> maxTTL)"

lemma acceptable_defaulted:
  "valid_route p (Route_SetDefaults t r) \<and>
     (\<exists>ttl. reTTL (rEntity (Route_SetDefaults t r)) = Some ttl \<and> 0 < ttl \<and> ttl \<le> t) \<longleftrightarrow>
   acceptable_route p t r"
  by (auto simp: acceptable_route_def Route_SetDefaults_def valid_route_def split: option.splits)

lemma SetDefaults_simps [simp]:
  "route_key (Route_SetDefaults t r) = route_key r" "\<exists>ttl. reTTL (rEntity (Route_SetDefaults t r)) = Some ttl"
  by (simp_all add: route_key_def Route_SetDefaults_def split: option.splits)

lemma validate_defaulted:
  "ValidateCreate p (map (Route_SetDefaults t) routes) t = Ok () \<longleftrightarrow> list_all (acceptable_route p t) routes"
  "\<not> is_panic (ValidateCreate p (map (Route_SetDefaults t) routes) t)"
  by (simp_all only: ValidateCreate_Ok list_all_iff set_map ball_simps(9) acceptable_defaulted)
    (rule ValidateCreate_no_panic, auto)

text \<open>
  (C16) A request to register HTTP routes, let in, always gets a response: 400 if the body does not
  decode or one of the routes is not acceptable, and then the database is as it was; 201 if all of
  them were saved, and then the table has a row for each; 503 after an error of the store, which may
  leave some of them saved. In each case the table stays free of duplicates, no row is lost, and
  nothing changes but the rows of the routes in the request. The limit of the TTL is inclusive, and a
  missing TTL becomes the limit, where \<open>docs/02-api-docs.md\<close> requires a TTL below the limit.
\<close>

theorem Routes_Upsert_registers:
  assumes "sql_store db rrows trows grows rstored tstored gstored"
    and "hDb h = SqlDB_DB (NewGormClient db)" and "hValidator h = NewValidator urlParse"
    and "table_wf route_key route_guid (rrows (store (srvDb s)))" and "good_uuids (env (srvDb s))"
    and "hUaa h (rqAuthorization req) [RoutingRoutesWriteScope] (srvUaa s) = (Ok (), u)"
    and "Routes_Upsert h req s = (x, s')"
    and "before = table_of route_key (rrows (store (srvDb s)))"
    and "after = table_of route_key (rrows (store (srvDb s')))"
  shows "\<exists>resp. x = Ok resp \<and> table_wf route_key route_guid (rrows (store (srvDb s'))) \<and>
    trows (store (srvDb s')) = trows (store (srvDb s)) \<and> grows (store (srvDb s')) = grows (store (srvDb s)) \<and>
    (case hDecodeRoutes h (rqBody req) of
       Inl err \<Rightarrow> rsStatus resp = 400 \<and> srvDb s' = srvDb s
     | Inr routes \<Rightarrow>
         if list_all (acceptable_route urlParse (hMaxTTL h)) routes
         then rsStatus resp \<in> {201, 503} \<and> dom before \<subseteq> dom after \<and>
           (\<forall>k. k \<notin> route_key ` set routes \<longrightarrow> after k = before k) \<and>
           (rsStatus resp = 201 \<longrightarrow> route_key ` set routes \<subseteq> dom after)
         else rsStatus resp = 400 \<and> srvDb s' = srvDb s)"
proof (cases "hDecodeRoutes h (rqBody req)")
  case (Inl err)
  with assms show ?thesis
    by (auto simp: Routes_Upsert_def authorized_lets_in returnE_def)
next
  case (Inr decoded)
  let ?routes = "map (Route_SetDefaults (hMaxTTL h)) decoded"
  note run = assms(7) [unfolded Routes_Upsert_def authorized_lets_in [OF assms(6)]]
  show ?thesis
  proof (cases "ValidateCreate urlParse ?routes (hMaxTTL h)")
    case (Fail err)
    then have "\<not> list_all (acceptable_route urlParse (hMaxTTL h)) decoded"
      using validate_defaulted(1) [of urlParse "hMaxTTL h" decoded] by simp
    with run Fail Inr assms(3,4) show ?thesis by (auto simp: Let_def returnE_def)
  next
    case (Panic p)
    with validate_defaulted(2) [of urlParse "hMaxTTL h" decoded] show ?thesis by simp
  next
    case (Ok v)
    then have ok: "list_all (acceptable_route urlParse (hMaxTTL h)) decoded"
      using validate_defaulted(1) [of urlParse "hMaxTTL h" decoded] by simp
    obtain y d where save: "forE (SaveRoute (NewGormClient db)) ?routes (srvDb s) = (y, d)"
      by (cases "forE (SaveRoute (NewGormClient db)) ?routes (srvDb s)")
    note saves = sql_store.http_saves_result [OF assms(1,4,5) save [unfolded SaveRoute_def]]
    have "\<not> is_panic y"
      using saves by (auto simp: Route_SetDefaults_def split: option.splits)
    then obtain resp where x: "x = Ok resp" "srvDb s' = d" "rsStatus resp = (case y of Ok _ \<Rightarrow> 201 | _ \<Rightarrow> 503)"
      using run Ok Inr assms(2,3) save
      by (cases y) (auto simp: orElse_onDb returnE_def Let_def)
    have keys: "route_key ` set ?routes = route_key ` set decoded"
      by (simp add: image_image)
    show ?thesis
      using saves x ok Inr unfolding assms(8,9) keys
      by (cases y) (simp_all add: Let_def)
  qed
qed

lemma ex_handler_simps [simp]:
  "hDb (ex_handler a) = SqlDB_DB (NewGormClient mem_db)" "hValidator (ex_handler a) = NewValidator Inr"
  "hDecodeRoutes (ex_handler a) b = Inr [ex_route]" "hDecodeTcp (ex_handler a) b = Inr [ex_tcp]"
  "hDecodeRouterGroup (ex_handler a) b = Inr ex_rg" "hMaxTTL (ex_handler a) = 120"
  "a token \<Longrightarrow> hUaa (ex_handler a) token scopes u = (Ok (), u)"
  "srvDb (ex_server d) = d" "srvUaa (ex_server d) = ()" "rqAuthorization (ex_request token) = token"
  "rqGuid (ex_request token) = ''rg''"
  by (simp_all add: ex_handler_def ex_server_def ex_request_def returnE_def)

lemma ex_route_acceptable: "acceptable_route Inr 120 ex_route"
  by (simp add: acceptable_route_def valid_route_def clean_url_def ex_defs NewRoute_def)

lemma ex_upsert:
  "map_go rsStatus (fst (Routes_Upsert (ex_handler (\<lambda>_. True)) (ex_request ''bearer x'') (ex_server ex_db))) = Ok 201"
proof -
  have v: "ValidateCreate Inr (map (Route_SetDefaults 120) [ex_route]) 120 = Ok ()"
    using validate_defaulted(1) [of Inr 120 "[ex_route]"] ex_route_acceptable by simp
  have "Route_SetDefaults 120 ex_route = ex_route"
    by (simp add: Route_SetDefaults_def ex_defs NewRoute_def)
  with v ex_saves(1) show ?thesis
    by (cases "SaveRoute (NewGormClient mem_db) ex_route ex_db")
      (simp add: Routes_Upsert_def authorized_lets_in orElse_onDb bindE_def returnE_def)
qed

theorem Routes_Upsert_registers_witness:
  "route_key ex_route \<in> dom (table_of route_key (mroutes (store (srvDb (snd
     (Routes_Upsert (ex_handler (\<lambda>_. True)) (ex_request ''bearer x'') (ex_server ex_db)))))))"
proof -
  have wf: "table_wf route_key route_guid (mroutes (store (srvDb (ex_server ex_db))))"
    by (simp add: ex_tables small_tables)
  have uuids: "good_uuids (env (srvDb (ex_server ex_db)))"
    by (simp add: ex_uuids)
  have uaa: "hUaa (ex_handler (\<lambda>_. True)) (rqAuthorization (ex_request ''bearer x'')) [RoutingRoutesWriteScope]
      (srvUaa (ex_server ex_db)) = (Ok (), ())"
    by simp
  show ?thesis
    using Routes_Upsert_registers [OF mem.sql_store_axioms ex_handler_simps(1,2) wf uuids uaa prod.collapse [symmetric] refl refl]
      ex_upsert ex_route_acceptable by auto
qed

section \<open>Registering TCP route mappings\<close>

definition acceptable_tcp :: "RouterGroupDB list \<Rightarrow> int \<Rightarrow> TcpRouteMapping \<Rightarrow> bool" where
  "acceptable_tcp groups maxTTL m \<longleftrightarrow> valid_tcp m \<and> teRouterGroupGuid (tEntity m) \<in> rg_guid ` set groups \<and>
     (case teTTL (tEntity m) of None \<Rightarrow> 0 < maxTTL | Some ttl \<Rightarrow> 0 < ttl \<and> ttl \<le> maxTTL)"

text \<open>
  A row conflicts with a mapping if it has not expired, has the external port and the SNI host name
  of the mapping, and differs in the termination of TLS. The SNI host name is compared as a text, so
  a row without one conflicts with nothing, and a mapping without one is compared with the rows
  whose SNI host name is empty.
\<close>

definition conflicting_tcp :: "time \<Rightarrow> TcpRouteMapping \<Rightarrow> TcpRouteMapping \<Rightarrow> bool" where
  "conflicting_tcp now m row \<longleftrightarrow>
     now < tExpiresAt row \<and> teExternalPort (tEntity row) = teExternalPort (tEntity m) \<and>
     teSniHostname (tEntity row) = Some (case teSniHostname (tEntity m) of None \<Rightarrow> [] | Some sni \<Rightarrow> sni) \<and>
     teTerminateFrontendTLS (tEntity row) \<noteq> teTerminateFrontendTLS (tEntity m)"

text \<open>
  The mappings of a request are acceptable for a table and the readings of the clock from number
  \<open>i\<close> on, one for each mapping.
\<close>

primrec acceptable_tcps ::
    "RouterGroupDB list \<Rightarrow> TcpRouteMapping list \<Rightarrow> (nat \<Rightarrow> time) \<Rightarrow> int \<Rightarrow> nat \<Rightarrow> TcpRouteMapping list \<Rightarrow> bool" where
  "acceptable_tcps groups rows time maxTTL i [] \<longleftrightarrow> True"
| "acceptable_tcps groups rows time maxTTL i (m # ms) \<longleftrightarrow>
     acceptable_tcp groups maxTTL m \<and> (\<forall>row\<in>set rows. \<not> conflicting_tcp (time i) m row) \<and>
     acceptable_tcps groups rows time maxTTL (Suc i) ms"

lemma Tcp_SetDefaults_simps [simp]:
  "tcp_key (Tcp_SetDefaults t m) = tcp_key m" "\<exists>ttl. teTTL (tEntity (Tcp_SetDefaults t m)) = Some ttl"
  by (simp_all add: tcp_key_def Tcp_SetDefaults_def split: option.splits)

lemma acceptable_tcp_defaulted:
  "valid_tcp (Tcp_SetDefaults t m) \<and>
     (\<exists>ttl. teTTL (tEntity (Tcp_SetDefaults t m)) = Some ttl \<and> 0 < ttl \<and> ttl \<le> t) \<and>
     teRouterGroupGuid (tEntity (Tcp_SetDefaults t m)) \<in> rg_guid ` set groups \<longleftrightarrow>
   acceptable_tcp groups t m"
  by (auto simp: acceptable_tcp_def Tcp_SetDefaults_def valid_tcp_def split: option.splits)

context sql_store
begin

text \<open>What a read leaves alone.\<close>

definition same_db :: "'s SqlDB \<Rightarrow> 's SqlDB \<Rightarrow> bool" where
  "same_db d d' \<longleftrightarrow> rrows (store d') = rrows (store d) \<and> trows (store d') = trows (store d) \<and>
     grows (store d') = grows (store d) \<and> httpEventHub d' = httpEventHub d \<and>
     tcpEventHub d' = tcpEventHub d \<and> locker d' = locker d \<and> uuids (env d') = uuids (env d)"

lemma same_db_refl [simp]: "same_db d d"
  by (simp add: same_db_def)

lemma same_db_trans: "same_db d d1 \<Longrightarrow> same_db d1 d2 \<Longrightarrow> same_db d d2"
  by (simp add: same_db_def)

lemma FindSimilar_reads:
  assumes "FindSimilarTcpRouteMappings cl sni port d = (x, d')"
  shows "same_db d d' \<and> \<not> is_panic x \<and>
    clock (env d') = clock (env d) \<and> ticks (env d') = Suc (ticks (env d)) \<and>
    (\<forall>similar. x = Ok similar \<longrightarrow> set similar =
      {t \<in> set (trows (store d)). clock (env d) (ticks (env d)) < tExpiresAt t \<and>
         teExternalPort (tEntity t) = port \<and> teSniHostname (tEntity t) = Some sni})"
proof -
  let ?q = "[CEq ''sni_hostname'' (VStr sni), CEq ''external_port'' (VInt (uint port)),
    CGt ''expires_at'' (VTime (clock (env d) (ticks (env d))))]"
  obtain y s' where f: "t_find (tcp_routes_tbl db) ?q (store d) = (y, s')"
    by (cases "t_find (tcp_routes_tbl db) ?q (store d)")
  have q: "sat tcp_col ?q t \<longleftrightarrow> clock (env d) (ticks (env d)) < tExpiresAt t \<and>
      teExternalPort (tEntity t) = port \<and> teSniHostname (tEntity t) = Some sni" for t
    by (auto simp: tcp_col_def uint16_eq_iff opt_str_def split: option.splits)
  have "x = y" "d' = d\<lparr>env := (env d)\<lparr>ticks := Suc (ticks (env d))\<rparr>, store := s'\<rparr>"
    using assms f by (simp_all add: FindSimilarTcpRouteMappings_def client_defs bindE_def zoom_def time_Now_def)
  moreover have "set similar = {t \<in> set (trows (store d)). sat tcp_col ?q t}" if "y = Ok similar" for similar
    using T.find_Ok(2) [OF f [unfolded that]] .
  ultimately show ?thesis
    using T.find_result [OF f] unfolding q by (cases y) (simp_all add: same_db_def)
qed

lemma ReadRouterGroups_reads:
  assumes "ReadRouterGroups cl d = (x, d')"
  shows "same_db d d' \<and> \<not> is_panic x \<and> env d' = env d \<and>
    (\<forall>rgs. x = Ok rgs \<longrightarrow> rgGuid ` set rgs = rg_guid ` set (grows (store d)))"
proof -
  obtain y s' where f: "t_find (router_groups_tbl db) [] (store d) = (y, s')"
    by (cases "t_find (router_groups_tbl db) [] (store d)")
  have guids: "rgGuid ` set (ToRouterGroups gs) = rg_guid ` set gs" for gs
    by (simp add: ToRouterGroups_def ToRouterGroup_def image_image)
  have "rgGuid ` set (ToRouterGroups gs) = rg_guid ` set (grows (store d))" if "y = Ok gs" for gs
    using G.find_Ok(2) [of "[]" "store d" gs s'] f that by (simp add: guids)
  moreover have "same_db d (d\<lparr>store := s'\<rparr>)" "\<not> is_panic y"
    using G.find_result [OF f] by (cases y; simp add: same_db_def)+
  ultimately show ?thesis
    using assms f
    by (cases y; cases "isReadLocked (locker d)")
      (simp_all add: ReadRouterGroups_def client_defs bindE_def zoom_def returnE_def failE_def, auto)
qed

lemma validate_mapping:
  assumes "set similar = {t \<in> set rows. now < tExpiresAt t \<and> teExternalPort (tEntity t) = teExternalPort (tEntity m) \<and>
      teSniHostname (tEntity t) = Some (case teSniHostname (tEntity m) of None \<Rightarrow> [] | Some sni \<Rightarrow> sni)}"
    and "rgGuid ` set rgs = rg_guid ` set groups"
  shows "ValidateCreateTcpRouteMapping (Tcp_SetDefaults maxTTL m) similar rgs maxTTL = Ok () \<longleftrightarrow>
    acceptable_tcp groups maxTTL m \<and> (\<forall>row\<in>set rows. \<not> conflicting_tcp now m row)"
proof -
  have "teTerminateFrontendTLS (tEntity (Tcp_SetDefaults maxTTL m)) = teTerminateFrontendTLS (tEntity m)"
    by (simp add: Tcp_SetDefaults_def split: option.splits)
  moreover have "(\<exists>g\<in>set rgs. x = rgGuid g) \<longleftrightarrow> x \<in> rg_guid ` set groups" for x
    unfolding assms(2) [symmetric] by auto
  ultimately show ?thesis
    unfolding ValidateCreateTcpRouteMapping_Ok assms(1) acceptable_tcp_defaulted [symmetric] conflicting_tcp_def
    by auto
qed

lemma check_mappings_result:
  assumes "check_mappings h rgs (map (Tcp_SetDefaults (hMaxTTL h)) ms) s = (x, s')"
    and "hDb h = SqlDB_DB cl" and "hValidator h = NewValidator urlParse"
    and "rgGuid ` set rgs = rg_guid ` set groups"
    and "trows (store (srvDb s)) = rows" and "clock (env (srvDb s)) = time"
  shows "\<exists>refusal. x = Ok refusal \<and> same_db (srvDb s) (srvDb s') \<and>
    (case refusal of
       None \<Rightarrow> acceptable_tcps groups rows time (hMaxTTL h) (ticks (env (srvDb s))) ms
     | Some resp \<Rightarrow> rsStatus resp = 503 \<or>
         rsStatus resp = 400 \<and> \<not> acceptable_tcps groups rows time (hMaxTTL h) (ticks (env (srvDb s))) ms)"
  using assms
proof (induction ms arbitrary: s)
  case Nil
  then show ?case by (auto simp: returnE_def)
next
  case (Cons m ms)
  let ?m = "Tcp_SetDefaults (hMaxTTL h) m"
  let ?sni = "case teSniHostname (tEntity m) of None \<Rightarrow> [] | Some n \<Rightarrow> n"
  let ?find = "FindSimilarTcpRouteMappings cl ?sni (teExternalPort (tEntity m)) (srvDb s)"
  obtain y d where f: "?find = (y, d)" by (cases ?find)
  note reads = FindSimilar_reads [OF f]
  have m: "teSniHostname (tEntity ?m) = teSniHostname (tEntity m)" "teExternalPort (tEntity ?m) = teExternalPort (tEntity m)"
    by (simp_all add: Tcp_SetDefaults_def split: option.splits)
  show ?case
  proof (cases y)
    case (Fail e)
    with Cons.prems(1) f reads show ?thesis
      by (auto simp: Cons.prems(2,3) m Let_def orElse_onDb returnE_def)
  next
    case (Ok similar)
    with reads have similar: "set similar = {t \<in> set rows. time (ticks (env (srvDb s))) < tExpiresAt t \<and>
        teExternalPort (tEntity t) = teExternalPort (tEntity m) \<and> teSniHostname (tEntity t) = Some ?sni}"
      by (simp add: Cons.prems(5,6))
    note valid = validate_mapping [OF similar Cons.prems(4), of "hMaxTTL h"]
    show ?thesis
    proof (cases "ValidateCreateTcpRouteMapping ?m similar rgs (hMaxTTL h)")
      case v: (Ok u)
      have "check_mappings h rgs (map (Tcp_SetDefaults (hMaxTTL h)) ms) (s\<lparr>srvDb := d\<rparr>) = (x, s')"
        using Cons.prems(1) f Ok v by (simp add: Cons.prems(2,3) m Let_def orElse_onDb)
      from Cons.IH [OF this Cons.prems(2-4)] Cons.prems(5,6) reads v valid
        same_db_trans [of "srvDb s" d "srvDb s'"]
      show ?thesis by (auto simp: same_db_def split: option.splits)
    next
      case (Fail e)
      with Cons.prems(1) f Ok reads valid show ?thesis
        by (auto simp: Cons.prems(2,3) m Let_def orElse_onDb returnE_def)
    next
      case (Panic p)
      with ValidateCreateTcpRouteMapping_no_panic [of ?m similar rgs "hMaxTTL h"] show ?thesis by simp
    qed
  qed (use reads in auto)
qed

lemma Tcp_Upsert_result:
  assumes "hDb h = SqlDB_DB cl" and "hValidator h = NewValidator urlParse"
    and "table_wf tcp_key tcp_guid (trows (store (srvDb s)))" and "good_uuids (env (srvDb s))"
    and "hUaa h (rqAuthorization req) [RoutingRoutesWriteScope] (srvUaa s) = (Ok (), u)"
    and "hDecodeTcp h (rqBody req) = Inr mappings"
    and "Tcp_Upsert h req s = (x, s')"
    and "acceptable \<longleftrightarrow> acceptable_tcps (grows (store (srvDb s))) (trows (store (srvDb s))) (clock (env (srvDb s)))
      (hMaxTTL h) (ticks (env (srvDb s))) mappings"
  shows "\<exists>resp. x = Ok resp \<and>
    (same_db (srvDb s) (srvDb s') \<and> (rsStatus resp = 503 \<or> rsStatus resp = 400 \<and> \<not> acceptable) \<or>
     acceptable \<and> rsStatus resp \<in> {201, 503} \<and>
     (\<exists>d y. same_db (srvDb s) d \<and> forE (SaveTcpRouteMapping cl) (map (Tcp_SetDefaults (hMaxTTL h)) mappings) d = (y, srvDb s') \<and>
        (rsStatus resp = 201 \<longrightarrow> y = Ok ())))"
proof -
  let ?ms = "map (Tcp_SetDefaults (hMaxTTL h)) mappings"
  note run = assms(7) [unfolded Tcp_Upsert_def authorized_lets_in [OF assms(5)]]
  obtain y d where f: "ReadRouterGroups cl (srvDb s) = (y, d)" by (cases "ReadRouterGroups cl (srvDb s)")
  note reads = ReadRouterGroups_reads [OF f]
  show ?thesis
  proof (cases y)
    case (Fail e)
    with run f reads show ?thesis by (auto simp: assms(1,6) Let_def orElse_onDb returnE_def)
  next
    case (Ok rgs)
    let ?s = "s\<lparr>srvUaa := u, srvDb := d\<rparr>"
    obtain z s1 where c: "check_mappings h rgs ?ms ?s = (z, s1)" by (cases "check_mappings h rgs ?ms ?s")
    have ticks: "ticks (env (srvDb ?s)) = ticks (env (srvDb s))" using reads by simp
    have "trows (store d) = trows (store (srvDb s))" using reads by (simp add: same_db_def)
    with check_mappings_result [OF c assms(1,2), of "grows (store (srvDb s))" "trows (store (srvDb s))"
        "clock (env (srvDb s))", unfolded ticks] reads Ok
    obtain refusal where z: "z = Ok refusal" "same_db d (srvDb s1)"
      "case refusal of None \<Rightarrow> acceptable | Some resp \<Rightarrow> rsStatus resp = 503 \<or> rsStatus resp = 400 \<and> \<not> acceptable"
      unfolding assms(8) by auto
    have same: "same_db (srvDb s) (srvDb s1)" using reads z(2) by (blast intro: same_db_trans)
    have run1: "(case refusal of Some resp \<Rightarrow> returnE resp | None \<Rightarrow>
        orElse (onDb (forE (SaveTcpRouteMapping cl) ?ms)) (\<lambda>err. returnE (handleDBCommunicationError err))
          (\<lambda>_. returnE (respond 201 []))) s1 = (x, s')"
      using run f Ok c z(1) by (simp add: assms(1,6) Let_def orElse_onDb bindE_def)
    show ?thesis
    proof (cases refusal)
      case (Some resp)
      with run1 z same show ?thesis by (auto simp: returnE_def)
    next
      case None
      obtain w d1 where sv: "forE (SaveTcpRouteMapping cl) ?ms (srvDb s1) = (w, d1)"
        by (cases "forE (SaveTcpRouteMapping cl) ?ms (srvDb s1)")
      have "table_wf tcp_key tcp_guid (trows (store (srvDb s1)))" "good_uuids (env (srvDb s1))"
        using assms(3,4) same by (simp_all add: same_db_def good_uuids_def)
      from tcp_saves_result [OF this sv [unfolded SaveTcpRouteMapping_def]] have "\<not> is_panic w" by auto
      with run1 None z(3) same sv show ?thesis
        by (cases w) (auto simp: orElse_onDb returnE_def)
    qed
  qed (use reads in auto)
qed

end




section \<open>Unregistering routes\<close>

context route_repository
begin

definition foreign_errors :: bool where
  "foreign_errors \<longleftrightarrow>
     (\<forall>r d e d'. readRow r d = (Fail e, d') \<longrightarrow> \<not> isKeyNotFound e) \<and>
     (\<forall>r d e d'. removeRow r d = (Fail e, d') \<longrightarrow> \<not> isKeyNotFound e)"

lemma delete_not_found:
  assumes "wf d" and "delete r d = (Fail e, d')" and "isKeyNotFound e" and foreign_errors
  shows "tbl d (key r) = None"
proof -
  obtain y d1 where r: "readRow r d = (y, d1)" by (cases "readRow r d")
  from assms(1) r show ?thesis
  proof (cases rule: read_cases)
    case (found old)
    then have "removeRow old d1 = (Fail e, d')" using assms(2) r by (simp add: bindE_simps)
    with assms(3,4) show ?thesis unfolding foreign_errors_def by blast
  next
    case (error e')
    then have "readRow r d = (Fail e, d1)" using assms(2) r by (simp add: bindE_simps)
    with assms(3,4) show ?thesis unfolding foreign_errors_def by blast
  qed
qed

lemma skip_result:
  assumes "wf d" and "skipMissing (delete r) d = (x, d')" and foreign_errors
  shows "rest d' = rest d \<and> wf d' \<and> (\<forall>k. k \<noteq> key r \<longrightarrow> tbl d' k = tbl d k) \<and> dom (tbl d') \<subseteq> dom (tbl d) \<and>
    (x = Ok () \<longrightarrow> tbl d' (key r) = None) \<and> \<not> is_panic x"
proof -
  obtain y d1 where r: "delete r d = (y, d1)" by (cases "delete r d")
  note res = delete_result [OF assms(1) r]
  show ?thesis
  proof (cases y)
    case (Ok u)
    with res obtain old where "tbl d1 = (tbl d)(key r := None)" by auto
    moreover have "x = Ok ()" "d' = d1"
      using assms(2) r Ok by (simp_all add: skipMissing_def tryE_def returnE_def)
    ultimately show ?thesis using res by auto
  next
    case (Fail e)
    then have rows: "rows d1 = rows d" using res by simp
    show ?thesis
    proof (cases "isKeyNotFound e")
      case True
      have "x = Ok ()" "d' = d1"
        using assms(2) r Fail True by (simp_all add: skipMissing_def tryE_def returnE_def)
      with delete_not_found [OF assms(1) r [unfolded Fail] True assms(3)] rows res show ?thesis by simp
    next
      case False
      have "x = Fail e" "d' = d1"
        using assms(2) r Fail False by (simp_all add: skipMissing_def tryE_def failE_def)
      with rows res show ?thesis by simp
    qed
  qed (use res in auto)
qed

lemma deletes_result:
  assumes "wf d" and "forE (\<lambda>r. skipMissing (delete r)) rs d = (x, d')" and foreign_errors
  shows "rest d' = rest d \<and> wf d' \<and> (\<forall>k. k \<notin> key ` set rs \<longrightarrow> tbl d' k = tbl d k) \<and>
    dom (tbl d') \<subseteq> dom (tbl d) \<and> (x = Ok () \<longrightarrow> (\<forall>k\<in>key ` set rs. tbl d' k = None)) \<and> \<not> is_panic x"
  using assms(1,2)
proof (induction rs arbitrary: d)
  case (Cons r rs)
  obtain y d1 where s: "skipMissing (delete r) d = (y, d1)" by (cases "skipMissing (delete r) d")
  note one = skip_result [OF Cons.prems(1) s assms(3)]
  show ?case
  proof (cases y)
    case (Ok u)
    then have run: "forE (\<lambda>r. skipMissing (delete r)) rs d1 = (x, d')"
      using Cons.prems(2) s by (simp add: bindE_simps)
    have "wf d1" using one by simp
    note IH = Cons.IH [OF this run]
    have sub: "dom (tbl d') \<subseteq> dom (tbl d1)" "dom (tbl d1) \<subseteq> dom (tbl d)" and none: "tbl d1 (key r) = None"
      using IH one Ok by simp_all
    have "tbl d' (key r) = None" using sub(1) none by (simp add: subset_iff) blast
    moreover have "dom (tbl d') \<subseteq> dom (tbl d)" using sub by (rule order_trans)
    ultimately show ?thesis using IH one by (simp add: image_iff)
  next
    case (Fail e)
    then have "x = Fail e" "d' = d1" using Cons.prems(2) s by (simp_all add: bindE_simps)
    with one show ?thesis by (simp add: image_iff)
  qed (use one in auto)
qed (auto simp: returnE_def)

end

context sql_store
begin

lemmas http_deletes_result = http.deletes_result
lemmas http_foreign_errors_def = http.foreign_errors_def

end

text \<open>gorm and the SQL drivers have errors of their own, never the \<open>KeyNotFound\<close> of \<open>db/errors.go\<close>.\<close>

definition own_errors :: "('s, 'r) table_ops \<Rightarrow> bool" where
  "own_errors ops \<longleftrightarrow>
     (\<forall>q s e. fst (t_find ops q s) = Fail e \<longrightarrow> \<not> isKeyNotFound e) \<and>
     (\<forall>r q s e. fst (t_delete ops r q s) = Fail e \<longrightarrow> \<not> isKeyNotFound e)"

lemma own_errors_foreign:
  assumes "own_errors (routes_tbl db)"
  shows "readRoute (NewGormClient db) r d = (Fail e, d') \<Longrightarrow> \<not> isKeyNotFound e"
    and "bindE (sql (Client_Delete (NewGormClient db) routes_tbl r []))
      (\<lambda>_. emitEvent DeleteEvent (RouteObj r)) d = (Fail e, d') \<Longrightarrow> \<not> isKeyNotFound e"
proof -
  have own: "t_find (routes_tbl db) q s = (Fail e, s') \<Longrightarrow> \<not> isKeyNotFound e"
      "t_delete (routes_tbl db) r q s = (Fail e, s') \<Longrightarrow> \<not> isKeyNotFound e" for q s r s'
    using assms unfolding own_errors_def by (metis fst_conv)+
  have strings: "\<not> isKeyNotFound (ErrorString m)" for m
    by (simp add: isKeyNotFound_def)
  show "readRoute (NewGormClient db) r d = (Fail e, d') \<Longrightarrow> \<not> isKeyNotFound e"
    by (auto simp: readRoute_def client_defs bindE_def zoom_def failE_def returnE_def
        dest: own(1) simp: strings split: prod.splits go.splits if_splits)
  show "bindE (sql (Client_Delete (NewGormClient db) routes_tbl r []))
      (\<lambda>_. emitEvent DeleteEvent (RouteObj r)) d = (Fail e, d') \<Longrightarrow> \<not> isKeyNotFound e"
    by (auto simp: client_defs bindE_def zoom_def emitEvent_apply dest: own(2)
        split: prod.splits go.splits if_splits)
qed

text \<open>
  (C18) A request to unregister HTTP routes, let in, always gets a response: 400 if the body does not
  decode or a route is not valid, and then the database is as it was; 204 if afterwards none of the
  routes is in the table, whether or not it was there before; 503 after an error of the store. In
  each case only routes of the request are removed.
\<close>

theorem Routes_Delete_unregisters:
  assumes "sql_store db rrows trows grows rstored tstored gstored" and "own_errors (routes_tbl db)"
    and "hDb h = SqlDB_DB (NewGormClient db)" and "hValidator h = NewValidator urlParse"
    and "table_wf route_key route_guid (rrows (store (srvDb s)))"
    and "hUaa h (rqAuthorization req) [RoutingRoutesWriteScope] (srvUaa s) = (Ok (), u)"
    and "Routes_Delete h req s = (x, s')"
    and "before = table_of route_key (rrows (store (srvDb s)))"
    and "after = table_of route_key (rrows (store (srvDb s')))"
  shows "\<exists>resp. x = Ok resp \<and> table_wf route_key route_guid (rrows (store (srvDb s'))) \<and>
    trows (store (srvDb s')) = trows (store (srvDb s)) \<and> grows (store (srvDb s')) = grows (store (srvDb s)) \<and>
    (case hDecodeRoutes h (rqBody req) of
       Inl err \<Rightarrow> rsStatus resp = 400 \<and> srvDb s' = srvDb s
     | Inr routes \<Rightarrow>
         if list_all (valid_route urlParse) routes
         then rsStatus resp \<in> {204, 503} \<and> dom after \<subseteq> dom before \<and>
           (\<forall>k. k \<notin> route_key ` set routes \<longrightarrow> after k = before k) \<and>
           (rsStatus resp = 204 \<longrightarrow> (\<forall>r\<in>set routes. after (route_key r) = None))
         else rsStatus resp = 400 \<and> srvDb s' = srvDb s)"
proof (cases "hDecodeRoutes h (rqBody req)")
  case (Inl err)
  with assms show ?thesis
    by (auto simp: Routes_Delete_def authorized_lets_in returnE_def)
next
  case (Inr routes)
  note run = assms(7) [unfolded Routes_Delete_def authorized_lets_in [OF assms(6)]]
  have v: "ValidateDelete urlParse routes = Ok () \<longleftrightarrow> list_all (valid_route urlParse) routes"
    by (simp add: ValidateDelete_Ok list_all_iff)
  show ?thesis
  proof (cases "ValidateDelete urlParse routes")
    case (Fail err)
    with run Inr assms(4,5) v show ?thesis by (auto simp: returnE_def)
  next
    case (Panic p)
    with ValidateDelete_no_panic [of urlParse routes] show ?thesis by simp
  next
    case (Ok w)
    let ?delete = "forE (\<lambda>r. skipMissing (DeleteRoute (NewGormClient db) r)) routes (srvDb s)"
    obtain y d where del: "?delete = (y, d)" by (cases ?delete)
    have foreign: "route_repository.foreign_errors (readRoute (NewGormClient db))
        (\<lambda>r. bindE (sql (Client_Delete (NewGormClient db) routes_tbl r [])) (\<lambda>_. emitEvent DeleteEvent (RouteObj r)))"
      unfolding sql_store.http_foreign_errors_def [OF assms(1)]
      using own_errors_foreign [OF assms(2)] by blast
    note deletes = sql_store.http_deletes_result [OF assms(1,5) del [unfolded DeleteRoute_def] foreign]
    obtain resp where resp: "x = Ok resp" "srvDb s' = d" "rsStatus resp = (if y = Ok () then 204 else 503)"
      using run Ok Inr assms(3,4) del deletes
      by (cases y) (auto simp: orElse_onDb returnE_def)
    show ?thesis
      using deletes resp Ok v Inr by (simp add: assms(8,9))
  qed
qed

lemma mem_own_errors: "own_errors (routes_tbl mem_db)"
  by (auto simp: own_errors_def mem_db_def mem_ops_def mem_statement_def mem_remove_def isKeyNotFound_def
      split: list.splits option.splits)

lemma ex_delete:
  "map_go rsStatus (fst (Routes_Delete (ex_handler (\<lambda>_. True)) (ex_request ''bearer x'') (ex_server ex_full))) = Ok 204"
proof -
  have "ValidateDelete Inr [ex_route] = Ok ()"
    using ex_route_acceptable by (simp add: ValidateDelete_Ok acceptable_route_def)
  with ex_deletes(1) show ?thesis
    by (cases "DeleteRoute (NewGormClient mem_db) ex_route ex_full")
      (simp add: Routes_Delete_def authorized_lets_in orElse_onDb bindE_def returnE_def skipMissing_def tryE_def)
qed

theorem Routes_Delete_unregisters_witness:
  "table_of route_key (mroutes (store (srvDb (snd
     (Routes_Delete (ex_handler (\<lambda>_. True)) (ex_request ''bearer x'') (ex_server ex_full)))))) (route_key ex_route) = None"
proof -
  have wf: "table_wf route_key route_guid (mroutes (store (srvDb (ex_server ex_full))))"
    by (simp add: ex_tables small_tables)
  have uaa: "hUaa (ex_handler (\<lambda>_. True)) (rqAuthorization (ex_request ''bearer x'')) [RoutingRoutesWriteScope]
      (srvUaa (ex_server ex_full)) = (Ok (), ())"
    by simp
  show ?thesis
    using Routes_Delete_unregisters [OF mem.sql_store_axioms mem_own_errors ex_handler_simps(1,2) wf uaa
        prod.collapse [symmetric] refl refl] ex_delete ex_route_acceptable
    by (auto simp: acceptable_route_def)
qed

section \<open>Creating router groups\<close>

lemma orElse_uuid:
  "orElse (onEnv uuid_NewV4) e k s =
     (let s1 = s\<lparr>srvEnv := (srvEnv s)\<lparr>draws := Suc (draws (srvEnv s))\<rparr>\<rparr>
      in case uuids (srvEnv s) (draws (srvEnv s)) of Inl err \<Rightarrow> e err s1 | Inr guid \<Rightarrow> k guid s1)"
  by (simp add: orElse_def tryE_def zoom_def uuid_NewV4_def split: sum.splits)

lemma CreateRouterGroup_cases:
  assumes "hDb h = SqlDB_DB (NewGormClient db)"
    and "hUaa h (rqAuthorization req) [RouterGroupsWriteScope] (srvUaa s) = (Ok (), u)"
    and "hDecodeRouterGroup h (rqBody req) = Inr rg" and run: "CreateRouterGroup h req s = (x, s')"
    and f: "ReadRouterGroups (NewGormClient db) (srvDb s) = (y, d)" and "\<not> is_panic y"
  obtains resp where "x = Ok resp" "rsStatus resp \<in> {400, 500, 503}" "srvDb s' = d"
  | resp rgs e where "y = Ok rgs" "routerGroupExist rgs rg = Some e" "x = Ok resp" "rsStatus resp = 200" "srvDb s' = d"
  | rgs guid where "y = Ok rgs" "uuids (srvEnv s) (draws (srvEnv s)) = Inr guid"
      "RouterGroups_Validate (hPorts h) (rgs @ [rg\<lparr>rgGuid := guid\<rparr>]) = None"
      "orElse (onDb (db_SaveRouterGroup (hDb h) (rg\<lparr>rgGuid := guid\<rparr>))) (\<lambda>err. returnE (handleDBCommunicationError err))
        (\<lambda>_. returnE (writeRouterGroupResponse 201 (rg\<lparr>rgGuid := guid\<rparr>)))
        (s\<lparr>srvUaa := u, srvDb := d, srvEnv := (srvEnv s)\<lparr>draws := Suc (draws (srvEnv s))\<rparr>\<rparr>) = (x, s')"
proof -
  note run' = run [unfolded CreateRouterGroup_def authorized_lets_in [OF assms(2)] assms(3)]
  note simps = assms(1) orElse_onDb orElse_uuid returnE_def Let_def handleGuidGenerationError_def
    writeRouterGroupResponse_def json_response_def
  show ?thesis
  proof (cases y)
    case (Fail e)
    with run' f that(1) show ?thesis by (auto simp: simps)
  next
    case ok: (Ok rgs)
    show ?thesis
    proof (cases "routerGroupExist rgs rg")
      case (Some e)
      with run' f ok that(2) show ?thesis by (auto simp: simps)
    next
      case None
      show ?thesis
      proof (cases "uuids (srvEnv s) (draws (srvEnv s))")
        case (Inl e)
        with run' f ok None that(1) show ?thesis by (auto simp: simps)
      next
        case (Inr guid)
        with run' f ok None that(1,3) show ?thesis
          by (cases "RouterGroups_Validate (hPorts h) (rgs @ [rg\<lparr>rgGuid := guid\<rparr>])")
            (auto simp: assms(1) orElse_onDb orElse_uuid returnE_def Let_def)
      qed
    qed
  qed (use assms(6) in simp)
qed

context sql_store
begin

lemma ReadRouterGroups_content:
  assumes "ReadRouterGroups cl d = (Ok rgs, d')"
  shows "\<exists>gs. rgs = ToRouterGroups gs \<and> set gs = set (grows (store d))"
proof -
  obtain y s' where f: "t_find (router_groups_tbl db) [] (store d) = (y, s')"
    by (cases "t_find (router_groups_tbl db) [] (store d)")
  with assms obtain gs where "y = Ok gs" "rgs = ToRouterGroups gs"
    by (cases y) (auto simp: ReadRouterGroups_def client_defs bindE_def zoom_def returnE_def failE_def split: if_splits)
  with G.find_Ok(2) [of "[]" "store d" gs s'] f show ?thesis by auto
qed

text \<open>A group of the list, in terms of the table.\<close>

lemma listed_group:
  assumes "rgs_wf d" and "set gs = set (grows (store d))" and "g \<in> set (ToRouterGroups gs)"
  shows "rg_table (grows (store d)) (rgGuid g) = Some (rgName g, rgType g, rgReservablePorts g)"
proof -
  obtain r where r: "r \<in> set (grows (store d))" "g = ToRouterGroup r"
    using assms(2,3) by (auto simp: ToRouterGroups_def)
  then have "table_of rg_guid (grows (store d)) (rg_guid r) = Some r"
    using assms(1) by (intro table_of_member) (simp_all add: table_wf_def)
  with r(2) show ?thesis by (simp add: rg_table_def rg_content_def ToRouterGroup_def)
qed

lemma listed_guids:
  assumes "set gs = set (grows (store d))"
  shows "set (map rgGuid (ToRouterGroups gs)) = dom (rg_table (grows (store d)))"
  using assms dom_table_of [of rg_guid "grows (store d)"]
  by (simp add: ToRouterGroups_def ToRouterGroup_def rg_table_def dom_map_option image_image comp_def dom_def)

lemma CreateRouterGroup_saves:
  assumes "hDb h = SqlDB_DB cl" and "rgs_wf (srvDb s)" and "rgGuid rg \<noteq> []" and "rgModel rg = zero_Model"
    and "orElse (onDb (db_SaveRouterGroup (hDb h) rg)) (\<lambda>err. returnE (handleDBCommunicationError err))
      (\<lambda>_. returnE (writeRouterGroupResponse 201 rg)) s = (x, s')"
  shows "\<exists>resp. x = Ok resp \<and> rg_rest (srvDb s') = rg_rest (srvDb s) \<and>
    (rsStatus resp = 201 \<and> rg_table (grows (store (srvDb s'))) =
       (rg_table (grows (store (srvDb s))))(rgGuid rg \<mapsto> rg_merge (rg_table (grows (store (srvDb s))) (rgGuid rg)) rg) \<or>
     rsStatus resp = 503 \<and> grows (store (srvDb s')) = grows (store (srvDb s)))"
proof -
  obtain y d where f: "SaveRouterGroup cl rg (srvDb s) = (y, d)" by (cases "SaveRouterGroup cl rg (srvDb s)")
  have "mGuid (rgModel rg) = [] \<or> mGuid (rgModel rg) = rgGuid rg" using assms(4) by (simp add: zero_Model_def)
  note save = SaveRouterGroup_result [OF assms(2,3) this f]
  show ?thesis
    using assms(5) f save
    by (cases y) (auto simp: assms(1) orElse_onDb returnE_def writeRouterGroupResponse_def json_response_def)
qed

lemma existing_group:
  assumes "rgs_wf d" and "set gs = set (grows (store d))" and "routerGroupExist (ToRouterGroups gs) rg = Some e"
  shows "\<exists>guid ports. rg_table (grows (store d)) guid = Some (rgName rg, rgType rg, ports)"
proof -
  have "e \<in> set (ToRouterGroups gs)" "rgName e = rgName rg" "rgType e = rgType rg"
    using assms(3) by (auto simp: routerGroupExist_def find_Some_iff)
  with listed_group [OF assms(1,2)] show ?thesis by metis
qed

text \<open>A group that passed the validation is stored, or the database fails.\<close>

lemma CreateRouterGroup_stored:
  assumes "hDb h = SqlDB_DB cl" and "rgs_wf (srvDb s)" and "set gs = set (grows (store (srvDb s)))"
    and "guid \<noteq> []" and "rgModel rg = zero_Model"
    and "orElse (onDb (db_SaveRouterGroup (hDb h) (rg\<lparr>rgGuid := guid\<rparr>))) (\<lambda>err. returnE (handleDBCommunicationError err))
      (\<lambda>_. returnE (writeRouterGroupResponse 201 (rg\<lparr>rgGuid := guid\<rparr>))) s = (x, s')"
  shows "\<exists>resp. x = Ok resp \<and> rsStatus resp \<in> {201, 503} \<and> rg_rest (srvDb s') = rg_rest (srvDb s) \<and>
    (rsStatus resp = 201 \<longrightarrow> rg_table (grows (store (srvDb s'))) =
       (rg_table (grows (store (srvDb s))))(guid \<mapsto> rg_merge (rg_table (grows (store (srvDb s))) guid) rg)) \<and>
    (rsStatus resp \<noteq> 201 \<longrightarrow> rg_table (grows (store (srvDb s'))) = rg_table (grows (store (srvDb s)))) \<and>
    set (map rgGuid (ToRouterGroups gs)) = dom (rg_table (grows (store (srvDb s)))) \<and>
    (\<forall>g\<in>set (ToRouterGroups gs).
       rg_table (grows (store (srvDb s))) (rgGuid g) = Some (rgName g, rgType g, rgReservablePorts g))"
proof -
  have merge: "rg_merge m (rg\<lparr>rgGuid := guid\<rparr>) = rg_merge m rg" for m
    by (simp add: rg_merge_def split: option.splits)
  show ?thesis
    using CreateRouterGroup_saves [OF assms(1,2) _ _ assms(6)] listed_guids [OF assms(3)] listed_group [OF assms(2,3)]
      assms(4,5)
    by (auto simp: merge)
qed

end

text \<open>
  (C19) A request to create a router group, let in, with a body that decodes, always gets a response.
  201: the table of router groups has the name, type and ports of the request under the identifier that
  was drawn, merged with the entry that was there in case an identifier is drawn twice, and is otherwise
  as it was; and together with the groups that were there the new one passes the validation. 200: there already is a group with this name and type. In every other case, 200
  included, the router groups are as they were; routes are never touched.
\<close>

theorem CreateRouterGroup_outcomes:
  assumes "sql_store db rrows trows grows rstored tstored gstored"
    and "hDb h = SqlDB_DB (NewGormClient db)"
    and "table_wf rg_guid rg_guid (grows (store (srvDb s)))" and "good_uuids (srvEnv s)"
    and "hUaa h (rqAuthorization req) [RouterGroupsWriteScope] (srvUaa s) = (Ok (), u)"
    and "hDecodeRouterGroup h (rqBody req) = Inr rg" and "rgModel rg = zero_Model"
    and "CreateRouterGroup h req s = (x, s')"
    and "before = rg_table (grows (store (srvDb s)))" and "after = rg_table (grows (store (srvDb s')))"
  shows "\<exists>resp. x = Ok resp \<and> rsStatus resp \<in> {200, 201, 400, 500, 503} \<and>
    rrows (store (srvDb s')) = rrows (store (srvDb s)) \<and> trows (store (srvDb s')) = trows (store (srvDb s)) \<and>
    (rsStatus resp = 201 \<longrightarrow> (\<exists>guid rgs. uuids (srvEnv s) (draws (srvEnv s)) = Inr guid \<and>
       after = before(guid \<mapsto> rg_merge (before guid) rg) \<and>
       set (map rgGuid rgs) = dom before \<and>
       (\<forall>g\<in>set rgs. before (rgGuid g) = Some (rgName g, rgType g, rgReservablePorts g)) \<and>
       RouterGroups_Validate (hPorts h) (rgs @ [rg\<lparr>rgGuid := guid\<rparr>]) = None)) \<and>
    (rsStatus resp = 200 \<longrightarrow> (\<exists>guid ports. before guid = Some (rgName rg, rgType rg, ports))) \<and>
    (rsStatus resp \<noteq> 201 \<longrightarrow> after = before)"
proof -
  obtain y d where f: "ReadRouterGroups (NewGormClient db) (srvDb s) = (y, d)"
    by (cases "ReadRouterGroups (NewGormClient db) (srvDb s)")
  have reads: "rrows (store d) = rrows (store (srvDb s))" "trows (store d) = trows (store (srvDb s))"
      "grows (store d) = grows (store (srvDb s))" "\<not> is_panic y"
    using sql_store.ReadRouterGroups_reads [OF assms(1) f] sql_store.same_db_def [OF assms(1)] by simp_all
  show ?thesis
  proof (cases rule: CreateRouterGroup_cases [OF assms(2,5,6,8) f reads(4), case_names refused present saved])
    case (refused resp)
    have "after = before" using refused(3) reads(3) by (simp add: assms(9,10))
    moreover have "rsStatus resp \<noteq> 200" "rsStatus resp \<noteq> 201" "rsStatus resp \<in> {200, 201, 400, 500, 503}"
      using refused(2) by auto
    ultimately show ?thesis using refused(1,3) reads(1,2) by (intro exI [of _ resp]) simp
  next
    case (present resp rgs e)
    then obtain gs where gs: "rgs = ToRouterGroups gs" "set gs = set (grows (store (srvDb s)))"
      using sql_store.ReadRouterGroups_content [OF assms(1)] f by blast
    have "\<exists>guid ports. rg_table (grows (store (srvDb s))) guid = Some (rgName rg, rgType rg, ports)"
      using sql_store.existing_group [OF assms(1,3) gs(2)] gs(1) present(2) by simp
    with present reads show ?thesis unfolding assms(9,10) by (intro exI [of _ resp]) simp
  next
    case (saved rgs guid)
    let ?s = "s\<lparr>srvUaa := u, srvDb := d, srvEnv := (srvEnv s)\<lparr>draws := Suc (draws (srvEnv s))\<rparr>\<rparr>"
    obtain gs where gs: "rgs = ToRouterGroups gs" "set gs = set (grows (store (srvDb s)))"
      using sql_store.ReadRouterGroups_content [OF assms(1)] f saved(1) by blast
    have sd: "guid \<noteq> []" "srvDb ?s = d" using assms(4) saved(2) by (auto simp: good_uuids_def)
    have wf: "table_wf rg_guid rg_guid (grows (store (srvDb ?s)))" "set gs = set (grows (store (srvDb ?s)))"
      using assms(3) gs(2) reads(3) by simp_all
    note stored = sql_store.CreateRouterGroup_stored [OF assms(1,2) wf sd(1) assms(7) saved(4), unfolded sd(2) reads(3)]
    obtain resp where resp: "x = Ok resp" "rsStatus resp \<in> {201, 503}"
        "rrows (store (srvDb s')) = rrows (store d)" "trows (store (srvDb s')) = trows (store d)"
        "rsStatus resp = 201 \<longrightarrow> after = before(guid \<mapsto> rg_merge (before guid) rg)"
        "rsStatus resp \<noteq> 201 \<longrightarrow> after = before"
      using stored unfolding assms(9,10) by blast
    have "set (map rgGuid rgs) = dom before"
        "\<forall>g\<in>set rgs. before (rgGuid g) = Some (rgName g, rgType g, rgReservablePorts g)"
      using stored unfolding assms(9) gs(1) by blast+
    with resp saved(2,3) reads show ?thesis by (intro exI [of _ resp]) auto
  qed
qed

lemma ex_create_group:
  "map_go rsStatus (fst (CreateRouterGroup (ex_handler (\<lambda>_. True)) (ex_request ''bearer x'') (ex_server ex_full))) = Ok 200"
  by (simp add: CreateRouterGroup_def authorized_lets_in orElse_onDb ReadRouterGroups_def isReadLocked_def
      ex_defs mem_eval ToRouterGroups_def ToRouterGroup_def routerGroupExist_def writeRouterGroupResponse_def
      json_response_def returnE_def)

theorem CreateRouterGroup_outcomes_witness:
  "rg_table (mrgs (store (srvDb (snd
     (CreateRouterGroup (ex_handler (\<lambda>_. True)) (ex_request ''bearer x'') (ex_server ex_full)))))) =
   [''rg'' \<mapsto> (''default-tcp'', ''tcp'', ''1024-2048'')]"
proof -
  have wf: "table_wf rg_guid rg_guid (mrgs (store (srvDb (ex_server ex_full))))"
    by (simp add: ex_tables small_tables ex_rg_values)
  have uuids: "good_uuids (srvEnv (ex_server ex_full))"
    using ex_uuids(1) by (simp add: ex_server_def ex_db_def NewSqlDB_value_def)
  have uaa: "hUaa (ex_handler (\<lambda>_. True)) (rqAuthorization (ex_request ''bearer x'')) [RouterGroupsWriteScope]
      (srvUaa (ex_server ex_full)) = (Ok (), ())"
    by simp
  have model: "rgModel ex_rg = zero_Model" by (simp add: ex_rg_def zero_RouterGroup_def)
  have table: "rg_table (mrgs (store (srvDb (ex_server ex_full)))) = [''rg'' \<mapsto> (''default-tcp'', ''tcp'', ''1024-2048'')]"
    by (simp add: ex_tables small_rg_tables ex_rg_values)
      (simp add: rg_content_def NewRouterGroupDB_def ex_rg_def Let_def)
  let ?run = "CreateRouterGroup (ex_handler (\<lambda>_. True)) (ex_request ''bearer x'') (ex_server ex_full)"
  have "\<exists>resp. fst ?run = Ok resp \<and> (rsStatus resp \<noteq> 201 \<longrightarrow>
      rg_table (mrgs (store (srvDb (snd ?run)))) = rg_table (mrgs (store (srvDb (ex_server ex_full)))))"
    using CreateRouterGroup_outcomes [OF mem.sql_store_axioms ex_handler_simps(1) wf uuids uaa ex_handler_simps(5)
        model prod.collapse [symmetric] refl refl] by blast
  with ex_create_group show ?thesis unfolding table by auto
qed

end
