(* ===== verification/Migrations.thy ===== *)
theory Migrations
  imports Sql_Db
begin

text \<open>
  The schema migrations of \<open>migration/\<close>. gorm and the SQL server are a record of functions
  (\<open>schema_db\<close>); what the migrations rely on is the locale \<open>migration_store\<close>: a failed statement
  changes nothing, a transaction that is rolled back or fails to commit leaves the recorded version
  as it was, \<open>AutoMigrate\<close> neither drops nor creates an index, and creating and dropping an index
  does what it says. An index is its table and its columns, each with the length of the prefix that
  is indexed, if it is not the whole column.
\<close>

section \<open>Statements\<close>

type_synonym index_column = "string \<times> nat option"

datatype statement =
    CreateUniqueIndex string string "index_column list"
  | DropIndexOn string string
  | DropIndexIfExists string
  | OtherStatement string

definition column_text :: "index_column \<Rightarrow> string" where
  "column_text c = fst c @ (case snd c of None \<Rightarrow> [] | Some n \<Rightarrow> ''('' @ Itoa (int n) @ '')'')"

primrec sql_text :: "statement \<Rightarrow> string" where
  "sql_text (CreateUniqueIndex i t cs) =
     ''CREATE UNIQUE INDEX '' @ i @ '' ON '' @ t @ '' ('' @ Join (map column_text cs) '', '' @ '')''"
| "sql_text (DropIndexOn i t) = ''DROP INDEX '' @ i @ '' ON '' @ t"
| "sql_text (DropIndexIfExists i) = ''DROP INDEX IF EXISTS '' @ i"
| "sql_text (OtherStatement s) = s"

record MigrationData =
  migrationKey :: string
  currentVersion :: int
  targetVersion :: int

definition MigrationKey :: string where
  "MigrationKey = ''routing-api-migration''"

text \<open>The models given to \<open>AutoMigrate\<close> are named by their Go types.\<close>

record 's schema_db =
  sd_dialect :: string
  sd_AutoMigrate :: "string list \<Rightarrow> ('s, unit) action"
  sd_ExecWithError :: "statement \<Rightarrow> ('s, unit) action"
  sd_FindRouterGroups :: "('s, RouterGroupDB list) action"
  sd_Begin :: "'s \<Rightarrow> 's"
  sd_Commit :: "('s, unit) action"
  sd_Rollback :: "('s, unit) action"
  sd_First :: "string \<Rightarrow> ('s, MigrationData) action"
  sd_Create :: "MigrationData \<Rightarrow> ('s, unit) action"
  sd_Save :: "MigrationData \<Rightarrow> ('s, unit) action"

definition dropIndex :: "'s schema_db \<Rightarrow> string \<Rightarrow> string \<Rightarrow> ('s, unit) action" where
  "dropIndex db indexName tableName =
     tryE (sd_ExecWithError db
             (if sd_dialect db = ''mysql'' then DropIndexOn indexName tableName
              else DropIndexIfExists indexName))
       (\<lambda>_. returnE ())"

text \<open>
  The two texts of a statement that creates a unique index: MySQL gets a prefix length for the text
  columns (those marked \<open>True\<close>).
\<close>

definition index_columns :: "'s schema_db \<Rightarrow> (string \<times> bool) list \<Rightarrow> index_column list" where
  "index_columns db cs =
     map (\<lambda>(c, isText). (c, if sd_dialect db = ''mysql'' \<and> isText then Some 191 else None)) cs"

definition unique_index :: "'s schema_db \<Rightarrow> string \<Rightarrow> string \<Rightarrow> (string \<times> bool) list \<Rightarrow> statement" where
  "unique_index db i t cs = CreateUniqueIndex i t (index_columns db cs)"

section \<open>The migrations\<close>

record 's Migration =
  Version :: int
  Run :: "'s schema_db \<Rightarrow> ('s, unit) action"

definition V0InitMigration :: "'s Migration" where
  "V0InitMigration =
     \<lparr>Version = 0, Run = (\<lambda>db. sd_AutoMigrate db [''RouterGroupDB'', ''TcpRouteMapping'', ''Route''])\<rparr>"

text \<open>
  Go ranges over the map of counts in no fixed order; here the name that is reported is the first of
  the table that occurs twice.
\<close>

definition duplicate_name :: "RouterGroupDB list \<Rightarrow> string option" where
  "duplicate_name rgs =
     (let names = map dbName rgs in List.find (\<lambda>n. count_list names n > 1) names)"

definition V2UpdateRgMigration :: "'s Migration" where
  "V2UpdateRgMigration =
     \<lparr>Version = 2,
      Run = (\<lambda>db.
        bindE (sd_FindRouterGroups db) (\<lambda>rgs. case duplicate_name rgs of
          Some name \<Rightarrow>
            failE (ErrorString (''cannot create unique index: router group name '' @ [CHR 0x27] @ name @
              [CHR 0x27] @ '' appears '' @ Itoa (int (count_list (map dbName rgs) name)) @ '' times''))
        | None \<Rightarrow>
            bindE (dropIndex db ''idx_rg_name'' ''router_groups'') (\<lambda>_.
            sd_ExecWithError db (unique_index db ''idx_rg_name'' ''router_groups'' [(''name'', True)]))))\<rparr>"

definition V3UpdateTcpRouteMigration :: "'s Migration" where
  "V3UpdateTcpRouteMigration = \<lparr>Version = 3, Run = (\<lambda>db. sd_AutoMigrate db [''TcpRouteMapping''])\<rparr>"

definition tcp_index :: "'s schema_db \<Rightarrow> (string \<times> bool) list \<Rightarrow> statement" where
  "tcp_index db extra =
     unique_index db ''idx_tcp_route'' ''tcp_routes''
       ([(''router_group_guid'', True), (''host_port'', False), (''host_ip'', True),
         (''external_port'', False)] @ extra)"

definition V4AddRgUniqIdxTCPRoute :: "'s Migration" where
  "V4AddRgUniqIdxTCPRoute =
     \<lparr>Version = 4,
      Run = (\<lambda>db. bindE (dropIndex db ''idx_tcp_route'' ''tcp_routes'') (\<lambda>_. sd_ExecWithError db (tcp_index db [])))\<rparr>"

text \<open>Five migrations drop the index, adapt the table to the model and create an index anew.\<close>

definition reindex_tcp :: "'s schema_db \<Rightarrow> (string \<times> bool) list \<Rightarrow> ('s, unit) action" where
  "reindex_tcp db extra =
     bindE (dropIndex db ''idx_tcp_route'' ''tcp_routes'') (\<lambda>_.
     bindE (sd_AutoMigrate db [''TcpRouteMapping'']) (\<lambda>_.
     sd_ExecWithError db (tcp_index db extra)))"

definition V5SniHostnameMigration :: "'s Migration" where
  "V5SniHostnameMigration = \<lparr>Version = 5, Run = (\<lambda>db. reindex_tcp db [(''sni_hostname'', True)])\<rparr>"

definition V6TCPTLSRoutes :: "'s Migration" where
  "V6TCPTLSRoutes =
     \<lparr>Version = 6, Run = (\<lambda>db. reindex_tcp db [(''sni_hostname'', True), (''host_tls_port'', False)])\<rparr>"

definition V7TCPTLSRoutes :: "'s Migration" where
  "V7TCPTLSRoutes =
     \<lparr>Version = 7,
      Run = (\<lambda>db.
        bindE (sd_ExecWithError db (OtherStatement
                 (if sd_dialect db = ''mysql''
                  then ''ALTER TABLE tcp_routes MODIFY COLUMN instance_id varchar(255) DEFAULT NULL''
                  else ''ALTER TABLE tcp_routes ALTER COLUMN instance_id SET DEFAULT NULL''))) (\<lambda>_.
        bindE (dropIndex db ''idx_tcp_route'' ''tcp_routes'') (\<lambda>_.
        sd_ExecWithError db (tcp_index db [(''sni_hostname'', True), (''host_tls_port'', False)]))))\<rparr>"

definition V8HostTLSPortTCPDefaultZero :: "'s Migration" where
  "V8HostTLSPortTCPDefaultZero =
     \<lparr>Version = 8,
      Run = (\<lambda>db.
        bindE (sd_ExecWithError db (OtherStatement
                 ''UPDATE tcp_routes SET host_tls_port = 0 WHERE host_tls_port IS NULL'')) (\<lambda>_.
        bindE (dropIndex db ''idx_tcp_route'' ''tcp_routes'') (\<lambda>_.
        sd_ExecWithError db (OtherStatement
          (if sd_dialect db = ''mysql''
           then ''ALTER TABLE tcp_routes MODIFY COLUMN host_tls_port int DEFAULT 0''
           else ''ALTER TABLE tcp_routes ALTER COLUMN host_tls_port SET DEFAULT 0'')))))\<rparr>"

definition V9TerminateFrontendTLS :: "'s Migration" where
  "V9TerminateFrontendTLS =
     \<lparr>Version = 9,
      Run = (\<lambda>db. reindex_tcp db [(''sni_hostname'', True), (''host_tls_port'', False), (''terminate_frontend_tls'', False)])\<rparr>"

definition V10SniRewriteHostname :: "'s Migration" where
  "V10SniRewriteHostname =
     \<lparr>Version = 10,
      Run = (\<lambda>db. reindex_tcp db [(''sni_hostname'', True), (''host_tls_port'', False), (''terminate_frontend_tls'', False)])\<rparr>"

definition V11EnableBackendMTLS :: "'s Migration" where
  "V11EnableBackendMTLS =
     \<lparr>Version = 11,
      Run = (\<lambda>db. reindex_tcp db [(''sni_hostname'', True), (''host_tls_port'', False),
              (''terminate_frontend_tls'', False), (''enable_backend_m_tls'', False)])\<rparr>"

definition InitializeMigrations :: "'s Migration option list" where
  "InitializeMigrations =
     [Some V0InitMigration, Some V2UpdateRgMigration, Some V3UpdateTcpRouteMigration,
      Some V4AddRgUniqIdxTCPRoute, Some V5SniHostnameMigration, Some V6TCPTLSRoutes,
      Some V7TCPTLSRoutes, Some V8HostTLSPortTCPDefaultZero, Some V9TerminateFrontendTLS,
      Some V10SniRewriteHostname, Some V11EnableBackendMTLS]"

text \<open>The statements of the last migration, as they are sent to the two servers.\<close>

lemma tcp_index_text:
  "sd_dialect db = ''mysql'' \<Longrightarrow>
   sql_text (tcp_index db [(''sni_hostname'', True), (''host_tls_port'', False),
     (''terminate_frontend_tls'', False), (''enable_backend_m_tls'', False)]) =
   ''CREATE UNIQUE INDEX idx_tcp_route ON tcp_routes (router_group_guid(191), host_port, host_ip(191), external_port, sni_hostname(191), host_tls_port, terminate_frontend_tls, enable_backend_m_tls)''"
  "sd_dialect db = ''postgres'' \<Longrightarrow>
   sql_text (tcp_index db [(''sni_hostname'', True), (''host_tls_port'', False),
     (''terminate_frontend_tls'', False), (''enable_backend_m_tls'', False)]) =
   ''CREATE UNIQUE INDEX idx_tcp_route ON tcp_routes (router_group_guid, host_port, host_ip, external_port, sni_hostname, host_tls_port, terminate_frontend_tls, enable_backend_m_tls)''"
  by (simp_all add: tcp_index_def unique_index_def index_columns_def column_text_def Itoa_def
      nat_digits.simps digit_char_def char_of_def bit_Suc_0_iff)

lemma migration_versions [simp]:
  "Version V0InitMigration = 0" "Version V2UpdateRgMigration = 2" "Version V3UpdateTcpRouteMigration = 3"
  "Version V4AddRgUniqIdxTCPRoute = 4" "Version V5SniHostnameMigration = 5" "Version V6TCPTLSRoutes = 6"
  "Version V7TCPTLSRoutes = 7" "Version V8HostTLSPortTCPDefaultZero = 8"
  "Version V9TerminateFrontendTLS = 9" "Version V10SniRewriteHostname = 10"
  "Version V11EnableBackendMTLS = 11"
  by (simp_all add: V0InitMigration_def V2UpdateRgMigration_def V3UpdateTcpRouteMigration_def
      V4AddRgUniqIdxTCPRoute_def V5SniHostnameMigration_def V6TCPTLSRoutes_def V7TCPTLSRoutes_def
      V8HostTLSPortTCPDefaultZero_def V9TerminateFrontendTLS_def V10SniRewriteHostname_def
      V11EnableBackendMTLS_def)

lemmas tcp_runs = V3UpdateTcpRouteMigration_def V5SniHostnameMigration_def V6TCPTLSRoutes_def
  V9TerminateFrontendTLS_def V10SniRewriteHostname_def

section \<open>Running them\<close>

definition rollback_with :: "'s schema_db \<Rightarrow> go_error \<Rightarrow> ('s, unit) action" where
  "rollback_with db err = tryE (sd_Rollback db) (\<lambda>_. failE err)"

text \<open>The loop over the migrations, with \<open>existingVersion\<close>.\<close>

primrec run_pending :: "'s schema_db \<Rightarrow> 's Migration option list \<Rightarrow> MigrationData \<Rightarrow> ('s, unit) action" where
  "run_pending db [] existing = returnE ()"
| "run_pending db (m # ms) existing =
     (case m of
        None \<Rightarrow> run_pending db ms existing
      | Some m' \<Rightarrow>
          if Version m' > currentVersion existing
          then bindE (Run m' db) (\<lambda>_.
               let existing' = existing\<lparr>currentVersion := Version m'\<rparr>
               in bindE (sd_Save db existing') (\<lambda>_. run_pending db ms existing'))
          else run_pending db ms existing)"

text \<open>Recording the target version ends the transaction, one way or the other.\<close>

definition commit_and_run ::
    "'s schema_db \<Rightarrow> 's Migration option list \<Rightarrow> ('s, unit) action \<Rightarrow> MigrationData \<Rightarrow> ('s, unit) action" where
  "commit_and_run db migrations saveVersion existing =
     tryE saveVersion (\<lambda>r. case r of
       Inl err \<Rightarrow> rollback_with db err
     | Inr _ \<Rightarrow> bindE (sd_Commit db) (\<lambda>_. run_pending db migrations existing))"

text \<open>What follows the query for the recorded version, on its result.\<close>

definition migrate_from ::
    "'s schema_db \<Rightarrow> 's Migration option list \<Rightarrow> int \<Rightarrow> go_error + MigrationData \<Rightarrow> ('s, unit) action" where
  "migrate_from db migrations lastMigrationVersion r = (case r of
     Inl err \<Rightarrow>
       if err \<noteq> ErrRecordNotFound then rollback_with db err
       else let existing = \<lparr>migrationKey = MigrationKey, currentVersion = - 1,
                  targetVersion = lastMigrationVersion\<rparr>
            in commit_and_run db migrations (sd_Create db existing) existing
   | Inr found \<Rightarrow>
       if currentVersion found \<ge> lastMigrationVersion then sd_Commit db
       else let existing = found\<lparr>targetVersion := lastMigrationVersion\<rparr>
            in commit_and_run db migrations (sd_Save db existing) existing)"

definition RunMigrations :: "'s schema_db option \<Rightarrow> 's Migration option list \<Rightarrow> ('s, unit) action" where
  "RunMigrations sqlDB migrations =
     (if migrations = [] then returnE ()
      else case sqlDB of None \<Rightarrow> returnE () | Some db \<Rightarrow>
        bindE (liftE (deref (last migrations))) (\<lambda>lastMigration.
        bindE (sd_AutoMigrate db [''MigrationData'']) (\<lambda>_.
        bindE (modifyE (sd_Begin db)) (\<lambda>_.
        tryE (sd_First db MigrationKey) (migrate_from db migrations (Version lastMigration))))))"

definition RunAllMigration :: "'s schema_db option \<Rightarrow> ('s, unit) action" where
  "RunAllMigration sqlDB = RunMigrations sqlDB InitializeMigrations"

section \<open>What the migrations rely on\<close>

text \<open>
  \<open>recorded\<close> is the row of \<open>MigrationData\<close>, as the running transaction sees it, \<open>committed\<close> what it was
  when the transaction began, \<open>indexes\<close> the unique indexes by name.
\<close>

type_synonym index_table = "string \<rightharpoonup> string \<times> index_column list"

primrec exec_index :: "statement \<Rightarrow> index_table \<Rightarrow> index_table" where
  "exec_index (CreateUniqueIndex i t cs) ix = ix(i \<mapsto> (t, cs))"
| "exec_index (DropIndexOn i t) ix = ix(i := None)"
| "exec_index (DropIndexIfExists i) ix = ix(i := None)"
| "exec_index (OtherStatement s) ix = ix"

text \<open>What the schema is to be, once a version is recorded.\<close>

definition tcp_index_columns :: "(string \<times> bool) list" where
  "tcp_index_columns =
     [(''router_group_guid'', True), (''host_port'', False), (''host_ip'', True),
      (''external_port'', False), (''sni_hostname'', True), (''host_tls_port'', False),
      (''terminate_frontend_tls'', False), (''enable_backend_m_tls'', False)]"

definition schema_at :: "'s schema_db \<Rightarrow> int \<Rightarrow> index_table \<Rightarrow> bool" where
  "schema_at db v ix \<longleftrightarrow>
     (2 \<le> v \<longrightarrow> ix ''idx_rg_name'' = Some (''router_groups'', index_columns db [(''name'', True)])) \<and>
     (11 \<le> v \<longrightarrow> ix ''idx_tcp_route'' = Some (''tcp_routes'', index_columns db tcp_index_columns))"

definition version_of :: "MigrationData option \<Rightarrow> int" where
  "version_of r = (case r of None \<Rightarrow> - 1 | Some d \<Rightarrow> currentVersion d)"

locale migration_store =
  fixes db :: "'s schema_db"
    and recorded :: "'s \<Rightarrow> MigrationData option"
    and committed :: "'s \<Rightarrow> MigrationData option"
    and indexes :: "'s \<Rightarrow> index_table"
  assumes auto_migrate: "sd_AutoMigrate db ts s = (x, s') \<Longrightarrow>
      recorded s' = recorded s \<and> indexes s' = indexes s \<and> \<not> is_panic x"
    and exec: "sd_ExecWithError db st s = (x, s') \<Longrightarrow>
      recorded s' = recorded s \<and> \<not> is_panic x \<and>
      indexes s' = (if x = Ok () then exec_index st (indexes s) else indexes s)"
    and find_groups: "sd_FindRouterGroups db s = (y, s') \<Longrightarrow>
      recorded s' = recorded s \<and> indexes s' = indexes s \<and> \<not> is_panic y"
    and begin_tx: "recorded (sd_Begin db s) = recorded s" "committed (sd_Begin db s) = recorded s"
      "indexes (sd_Begin db s) = indexes s"
    and commit_tx: "sd_Commit db s = (x, s') \<Longrightarrow>
      recorded s' = (if x = Ok () then recorded s else committed s) \<and> indexes s' = indexes s \<and> \<not> is_panic x"
    and rollback_tx: "sd_Rollback db s = (x, s') \<Longrightarrow>
      recorded s' = committed s \<and> indexes s' = indexes s \<and> \<not> is_panic x"
    and first_row: "sd_First db MigrationKey s = (z, s') \<Longrightarrow>
      recorded s' = recorded s \<and> committed s' = committed s \<and> indexes s' = indexes s \<and>
      (case z of Ok d \<Rightarrow> recorded s = Some d \<and> migrationKey d = MigrationKey | Fail e \<Rightarrow> (e = ErrRecordNotFound \<longrightarrow> recorded s = None) | Panic _ \<Rightarrow> False)"
    and create_row: "sd_Create db d s = (x, s') \<Longrightarrow> migrationKey d = MigrationKey \<Longrightarrow>
      recorded s' = (if x = Ok () then Some d else recorded s) \<and> committed s' = committed s \<and>
      indexes s' = indexes s \<and> \<not> is_panic x"
    and save_row: "sd_Save db d s = (x, s') \<Longrightarrow> migrationKey d = MigrationKey \<Longrightarrow>
      recorded s' = (if x = Ok () then Some d else recorded s) \<and> committed s' = committed s \<and>
      indexes s' = indexes s \<and> \<not> is_panic x"
begin

text \<open>An action that changes no index but one, and not the recorded version.\<close>

definition touches :: "string \<Rightarrow> ('s, 'a) action \<Rightarrow> bool" where
  "touches i m \<longleftrightarrow> (\<forall>s x s'. m s = (x, s') \<longrightarrow>
     recorded s' = recorded s \<and> (\<forall>j. j \<noteq> i \<longrightarrow> indexes s' j = indexes s j) \<and> \<not> is_panic x)"

lemma touchesD:
  "touches i m \<Longrightarrow> m s = (x, s') \<Longrightarrow> recorded s' = recorded s \<and> \<not> is_panic x"
  "touches i m \<Longrightarrow> m s = (x, s') \<Longrightarrow> j \<noteq> i \<Longrightarrow> indexes s' j = indexes s j"
  by (simp_all add: touches_def)

lemma touches_bindE:
  assumes "touches i m" and "\<And>x. touches i (f x)"
  shows "touches i (bindE m f)"
  unfolding touches_def
proof (intro allI impI)
  fix s x s'
  assume eq: "bindE m f s = (x, s')"
  obtain y u where m: "m s = (y, u)" by (cases "m s")
  have *: "recorded u = recorded s \<and> (\<forall>j. j \<noteq> i \<longrightarrow> indexes u j = indexes s j) \<and> \<not> is_panic y"
    using assms(1) m unfolding touches_def by blast
  show "recorded s' = recorded s \<and> (\<forall>j. j \<noteq> i \<longrightarrow> indexes s' j = indexes s j) \<and> \<not> is_panic x"
  proof (cases y)
    case (Ok z)
    then have "f z u = (x, s')" using eq m by (simp add: bindE_def)
    then have "recorded s' = recorded u \<and> (\<forall>j. j \<noteq> i \<longrightarrow> indexes s' j = indexes u j) \<and> \<not> is_panic x"
      using assms(2) [of z] unfolding touches_def by blast
    with * show ?thesis by simp
  qed (use eq m * in \<open>auto simp: bindE_def\<close>)
qed

primrec index_name :: "statement \<Rightarrow> string option" where
  "index_name (CreateUniqueIndex i t cs) = Some i"
| "index_name (DropIndexOn i t) = Some i"
| "index_name (DropIndexIfExists i) = Some i"
| "index_name (OtherStatement s) = None"

lemma touches_exec: "index_name st \<in> {None, Some i} \<Longrightarrow> touches i (sd_ExecWithError db st)"
  unfolding touches_def by (cases st) (auto dest!: exec)

lemma touches_simple:
  "touches i (sd_AutoMigrate db ts)" "touches i (sd_FindRouterGroups db)" "touches i (failE e)"
  unfolding touches_def by (auto dest!: auto_migrate find_groups simp: failE_def)

lemma touches_dropIndex: "touches i (dropIndex db i t)"
proof -
  have "touches i (sd_ExecWithError db (if sd_dialect db = ''mysql'' then DropIndexOn i t else DropIndexIfExists i))"
    by (rule touches_exec) simp
  then show ?thesis
    unfolding touches_def dropIndex_def tryE_def by (fastforce simp: returnE_def split: prod.splits go.splits)
qed

lemmas touches_intros = touches_bindE touches_simple touches_dropIndex touches_exec

text \<open>A migration that is run in its turn keeps what is promised, and adds what it promises.\<close>

definition sound :: "int \<Rightarrow> 's Migration \<Rightarrow> bool" where
  "sound p m \<longleftrightarrow> (\<forall>v s x s'. p \<le> v \<longrightarrow> v < Version m \<longrightarrow> schema_at db v (indexes s) \<longrightarrow> Run m db s = (x, s') \<longrightarrow>
     recorded s' = recorded s \<and> \<not> is_panic x \<and> schema_at db v (indexes s') \<and>
     (x = Ok () \<longrightarrow> schema_at db (Version m) (indexes s')))"

lemma sound_tcp:
  assumes "touches ''idx_tcp_route'' (Run m db)" and "2 \<le> p" and "Version m < 11"
  shows "sound p m"
proof -
  have "indexes s' ''idx_rg_name'' = indexes s ''idx_rg_name''" if "Run m db s = (x, s')" for s x s'
    by (rule touchesD(2) [OF assms(1) that]) simp
  with assms show ?thesis
    unfolding sound_def schema_at_def by (auto dest: touchesD)
qed

lemma exec_makes:
  assumes "sd_ExecWithError db (unique_index db i t cs) s = (Ok (), s')"
  shows "indexes s' i = Some (t, index_columns db cs)"
  using exec [OF assms] by (simp add: unique_index_def)

lemma sound_V0: "sound p V0InitMigration"
  by (auto simp: sound_def V0InitMigration_def schema_at_def dest!: auto_migrate)

lemma sound_V2: "sound p V2UpdateRgMigration"
proof -
  have touch: "touches ''idx_rg_name'' (Run V2UpdateRgMigration db)"
    unfolding V2UpdateRgMigration_def
    by (auto intro!: touches_intros simp: unique_index_def split: option.splits)
  have made: "indexes s' ''idx_rg_name'' = Some (''router_groups'', index_columns db [(''name'', True)])"
    if "Run V2UpdateRgMigration db s = (Ok (), s')" for s s'
    using that unfolding V2UpdateRgMigration_def
    by (auto elim!: bindE_OkD simp: failE_def dest: exec_makes split: option.splits)
  show ?thesis
    unfolding sound_def schema_at_def using touchesD(1) [OF touch] made
    by (auto simp: V2UpdateRgMigration_def)
qed

lemma touches_reindex: "touches ''idx_tcp_route'' (reindex_tcp db extra)"
  unfolding reindex_tcp_def
  by (intro touches_intros) (simp_all add: tcp_index_def unique_index_def)

lemma sound_V11:
  assumes "2 \<le> p"
  shows "sound p V11EnableBackendMTLS"
proof -
  have touch: "touches ''idx_tcp_route'' (Run V11EnableBackendMTLS db)"
    by (simp add: V11EnableBackendMTLS_def touches_reindex)
  have rg: "indexes s' ''idx_rg_name'' = indexes s ''idx_rg_name''"
    if "Run V11EnableBackendMTLS db s = (x, s')" for s x s'
    by (rule touchesD(2) [OF touch that]) simp
  have made: "indexes s' ''idx_tcp_route'' = Some (''tcp_routes'', index_columns db tcp_index_columns)"
    if "Run V11EnableBackendMTLS db s = (Ok (), s')" for s s'
    using that
    by (auto simp: V11EnableBackendMTLS_def reindex_tcp_def tcp_index_def tcp_index_columns_def
        elim!: bindE_OkD dest: exec_makes)
  show ?thesis
    unfolding sound_def schema_at_def using touchesD(1) [OF touch] rg made assms
    by (auto simp: V11EnableBackendMTLS_def)
qed

text \<open>The migrations in their order, each sound after the one before it.\<close>

primrec chain :: "int \<Rightarrow> 's Migration option list \<Rightarrow> bool" where
  "chain p [] \<longleftrightarrow> True"
| "chain p (m # ms) \<longleftrightarrow> m \<noteq> None \<and> sound p (the m) \<and> chain (Version (the m)) ms"

lemma InitializeMigrations_chain: "chain p InitializeMigrations"
proof -
  have t4: "touches ''idx_tcp_route'' (Run V4AddRgUniqIdxTCPRoute db)"
    unfolding V4AddRgUniqIdxTCPRoute_def
    by (auto intro!: touches_intros simp: tcp_index_def unique_index_def)
  have t7: "touches ''idx_tcp_route'' (Run V7TCPTLSRoutes db)"
    unfolding V7TCPTLSRoutes_def
    by (auto intro!: touches_intros simp: tcp_index_def unique_index_def)
  have t8: "touches ''idx_tcp_route'' (Run V8HostTLSPortTCPDefaultZero db)"
    unfolding V8HostTLSPortTCPDefaultZero_def
    by (auto intro!: touches_intros)
  have "sound 2 V3UpdateTcpRouteMigration" "sound 3 V4AddRgUniqIdxTCPRoute"
    "sound 4 V5SniHostnameMigration" "sound 5 V6TCPTLSRoutes" "sound 6 V7TCPTLSRoutes"
    "sound 7 V8HostTLSPortTCPDefaultZero" "sound 8 V9TerminateFrontendTLS" "sound 9 V10SniRewriteHostname"
    by (rule sound_tcp; (rule t4 t7 t8)?; simp add: tcp_runs touches_simple touches_reindex)+
  then show ?thesis
    by (simp add: InitializeMigrations_def sound_V0 sound_V2 sound_V11)
qed

lemma run_pending_result:
  assumes "run_pending db ms d s = (x, s')" and "chain p ms" and "p \<le> currentVersion d"
    and "recorded s = Some d" and "schema_at db (currentVersion d) (indexes s)"
    and "migrationKey d = MigrationKey"
  shows "\<exists>d'. recorded s' = Some d' \<and> schema_at db (currentVersion d') (indexes s') \<and>
    currentVersion d \<le> currentVersion d' \<and> \<not> is_panic x \<and>
    (x = Ok () \<longrightarrow> list_all (\<lambda>m. Version (the m) \<le> currentVersion d') ms)"
  using assms
proof (induction ms arbitrary: p d s)
  case Nil
  then show ?case by (auto simp: returnE_def)
next
  case (Cons m ms)
  then obtain m' where m: "m = Some m'" "sound p m'" "chain (Version m') ms" by auto
  show ?case
  proof (cases "Version m' > currentVersion d")
    case False
    with Cons.prems m have "run_pending db ms d s = (x, s')" by simp
    from Cons.IH [OF this m(3) _ Cons.prems(4-6)] False m show ?thesis by force
  next
    case True
    obtain y s1 where run: "Run m' db s = (y, s1)" by (cases "Run m' db s")
    have s1: "recorded s1 = Some d" "\<not> is_panic y" "schema_at db (currentVersion d) (indexes s1)"
      "y = Ok () \<longrightarrow> schema_at db (Version m') (indexes s1)"
      using m(2) run True Cons.prems(3,4,5) unfolding sound_def by metis+
    show ?thesis
    proof (cases "y = Ok ()")
      case False
      with True run s1 Cons.prems(1) m(1) show ?thesis
        by (cases y) (auto simp: bindE_def)
    next
      case ok: True
      let ?d = "d\<lparr>currentVersion := Version m'\<rparr>"
      obtain z s2 where save: "sd_Save db ?d s1 = (z, s2)" by (cases "sd_Save db ?d s1")
      have s2: "recorded s2 = (if z = Ok () then Some ?d else recorded s1)" "indexes s2 = indexes s1" "\<not> is_panic z"
        using save_row [OF save] Cons.prems(6) by simp_all
      show ?thesis
      proof (cases "z = Ok ()")
        case False
        with True run ok s1 s2 save Cons.prems(1) m(1) show ?thesis
          by (cases z) (auto simp: bindE_def Let_def)
      next
        case zok: True
        with True run ok save Cons.prems(1) m(1) have "run_pending db ms ?d s2 = (x, s')"
          by (simp add: bindE_def Let_def)
        from Cons.IH [OF this m(3)] zok s1(4) s2 ok True m(1) Cons.prems(6) show ?thesis by force
      qed
    qed
  qed
qed

lemma commit_and_run_result:
  assumes "commit_and_run db ms m d s = (x, s')" and "chain p ms" and "p \<le> currentVersion d"
    and "\<And>y u. m s = (y, u) \<Longrightarrow> recorded u = (if y = Ok () then Some d else recorded s) \<and>
      committed u = committed s \<and> indexes u = indexes s \<and> \<not> is_panic y"
    and "schema_at db (currentVersion d) (indexes s)" and "migrationKey d = MigrationKey"
  shows "recorded s' = committed s \<and> indexes s' = indexes s \<and> x \<noteq> Ok () \<and> \<not> is_panic x \<or>
    (\<exists>d'. recorded s' = Some d' \<and> schema_at db (currentVersion d') (indexes s') \<and>
      currentVersion d \<le> currentVersion d' \<and> \<not> is_panic x \<and>
      (x = Ok () \<longrightarrow> list_all (\<lambda>m. Version (the m) \<le> currentVersion d') ms))"
proof -
  obtain y u where m: "m s = (y, u)" by (cases "m s")
  note u = assms(4) [OF m]
  show ?thesis
  proof (cases "y = Ok ()")
    case False
    then show ?thesis
      using assms(1) m u
      by (cases y) (auto simp: commit_and_run_def rollback_with_def tryE_def failE_def is_panic_def
          dest!: rollback_tx split: prod.splits go.splits)
  next
    case True
    obtain z w where c: "sd_Commit db u = (z, w)" by (cases "sd_Commit db u")
    note w = commit_tx [OF c]
    show ?thesis
    proof (cases "z = Ok ()")
      case False
      then show ?thesis
        using assms(1) m u w c True by (cases z) (auto simp: commit_and_run_def tryE_def bindE_def)
    next
      case zok: True
      with True assms(1) m c have "run_pending db ms d w = (x, s')"
        by (simp add: commit_and_run_def tryE_def bindE_def)
      from run_pending_result [OF this assms(2,3)] u w True zok assms(5,6) show ?thesis by simp
    qed
  qed
qed

text \<open>
  The whole run: whatever it ends with, the recorded version does not fall and the schema is what it
  promises; a run without an error ends at the latest version, and from there nothing is changed.
\<close>

definition promised :: "'s \<Rightarrow> bool" where
  "promised s \<longleftrightarrow> schema_at db (version_of (recorded s)) (indexes s)"

lemma promised_same: "recorded s' = recorded s \<Longrightarrow> indexes s' = indexes s \<Longrightarrow> promised s' = promised s"
  by (simp add: promised_def)

definition migrated :: "'s \<Rightarrow> unit go \<Rightarrow> 's \<Rightarrow> bool" where
  "migrated s x s' \<longleftrightarrow> promised s' \<and> version_of (recorded s) \<le> version_of (recorded s') \<and> \<not> is_panic x \<and>
    (x = Ok () \<longrightarrow> 11 \<le> version_of (recorded s')) \<and>
    (11 \<le> version_of (recorded s) \<longrightarrow> recorded s' = recorded s \<and> indexes s' = indexes s)"

lemma migrated_not_at_all:
  "recorded s' = recorded s \<Longrightarrow> indexes s' = indexes s \<Longrightarrow> promised s \<Longrightarrow> \<not> is_panic x \<Longrightarrow>
   (x = Ok () \<Longrightarrow> 11 \<le> version_of (recorded s)) \<Longrightarrow> migrated s x s'"
  by (simp add: migrated_def promised_def)

lemma commit_and_run_migrated:
  assumes "commit_and_run db InitializeMigrations m d s = (x, s')"
    and "\<And>y u. m s = (y, u) \<Longrightarrow> recorded u = (if y = Ok () then Some d else recorded s) \<and>
      committed u = committed s \<and> indexes u = indexes s \<and> \<not> is_panic y"
    and "promised s" and "committed s = recorded s" and "currentVersion d = version_of (recorded s)"
    and "version_of (recorded s) < 11" and "migrationKey d = MigrationKey"
  shows "migrated s x s'"
proof -
  have all: "list_all (\<lambda>m. Version (the m) \<le> v) (InitializeMigrations :: 's Migration option list) \<Longrightarrow> 11 \<le> v" for v
    by (simp add: InitializeMigrations_def)
  show ?thesis
    using commit_and_run_result [OF assms(1) InitializeMigrations_chain order.refl assms(2)] assms(3-7) all
    by (auto simp: promised_def migrated_def version_of_def)
qed

lemma migrate_from_migrated:
  assumes "migrate_from db InitializeMigrations 11 r s = (x, s')" and "promised s"
    and "committed s = recorded s"
    and "case r of Inl e \<Rightarrow> (e = ErrRecordNotFound \<longrightarrow> recorded s = None) | Inr d \<Rightarrow> recorded s = Some d \<and> migrationKey d = MigrationKey"
  shows "migrated s x s'"
proof (cases r)
  case (Inl e)
  show ?thesis
  proof (cases "e = ErrRecordNotFound")
    case True
    let ?d = "\<lparr>migrationKey = MigrationKey, currentVersion = - 1, targetVersion = 11\<rparr>"
    have "commit_and_run db InitializeMigrations (sd_Create db ?d) ?d s = (x, s')"
      using assms(1) True Inl by (simp add: migrate_from_def Let_def)
    then show ?thesis
      by (rule commit_and_run_migrated [OF _ create_row assms(2,3)]) (use assms(4) True Inl in \<open>simp_all add: version_of_def\<close>)
  next
    case False
    obtain y u where rb: "sd_Rollback db s = (y, u)" by (cases "sd_Rollback db s")
    then show ?thesis
      using rollback_tx [OF rb] assms(1-3) False Inl
      by (cases y) (auto simp: migrate_from_def rollback_with_def tryE_def failE_def intro!: migrated_not_at_all)
  qed
next
  case (Inr d)
  then have d: "recorded s = Some d" "migrationKey d = MigrationKey" using assms(4) by simp_all
  show ?thesis
  proof (cases "11 \<le> currentVersion d")
    case True
    with assms(1) Inr have "sd_Commit db s = (x, s')" by (simp add: migrate_from_def)
    from commit_tx [OF this] True d assms(2,3) show ?thesis
      by (auto simp: version_of_def intro!: migrated_not_at_all split: if_splits)
  next
    case False
    let ?d = "d\<lparr>targetVersion := 11\<rparr>"
    have "commit_and_run db InitializeMigrations (sd_Save db ?d) ?d s = (x, s')"
      using assms(1) False Inr by (simp add: migrate_from_def Let_def)
    then show ?thesis
      by (rule commit_and_run_migrated [OF _ save_row assms(2,3)]) (use d False in \<open>simp_all add: version_of_def\<close>)
  qed
qed

lemma RunAllMigration_migrated:
  assumes "RunAllMigration (Some db) s = (x, s')" and "promised s"
  shows "migrated s x s'"
proof -
  have last: "last InitializeMigrations = Some (V11EnableBackendMTLS :: 's Migration)"
      "(InitializeMigrations :: 's Migration option list) \<noteq> []"
    by (simp_all add: InitializeMigrations_def)
  obtain y s1 where auto': "sd_AutoMigrate db [''MigrationData''] s = (y, s1)"
    by (cases "sd_AutoMigrate db [''MigrationData''] s")
  note s1 = auto_migrate [OF auto']
  note defs = RunAllMigration_def RunMigrations_def deref_def bindE_def liftE_def
  show ?thesis
  proof (cases "y = Ok ()")
    case False
    then show ?thesis
      using assms auto' s1 last
      by (cases y) (auto simp: defs intro!: migrated_not_at_all)
  next
    case ok: True
    let ?s2 = "sd_Begin db s1"
    obtain z s3 where first: "sd_First db MigrationKey ?s2 = (z, s3)"
      by (cases "sd_First db MigrationKey ?s2")
    note s3 = first_row [OF first] begin_tx [of s1] s1
    obtain r where r: "migrate_from db InitializeMigrations 11 r s3 = (x, s')"
      "case r of Inl e \<Rightarrow> (e = ErrRecordNotFound \<longrightarrow> recorded s3 = None) | Inr d \<Rightarrow> recorded s3 = Some d \<and> migrationKey d = MigrationKey"
      using assms(1) first s3 auto' ok last
      by (cases z) (auto simp: defs tryE_def)
    have "migrated s3 x s'"
      by (rule migrate_from_migrated [OF r(1) _ _ r(2)]) (use s3 assms(2) in \<open>simp_all add: promised_def\<close>)
    then show ?thesis using s3 by (simp add: migrated_def)
  qed
qed

end

section \<open>An engine\<close>

text \<open>
  A database in memory with the laws: creating an index that is there fails, and so does MySQL's
  dropping of an index that is not. Its \<open>failing\<close> statement fails always.
\<close>

record mem_schema =
  ms_rows :: "string \<rightharpoonup> MigrationData"
  ms_begun :: "string \<rightharpoonup> MigrationData"
  ms_indexes :: index_table
  ms_groups :: "RouterGroupDB list"
  ms_models :: "string list"

definition mem_exec :: "statement option \<Rightarrow> statement \<Rightarrow> (mem_schema, unit) action" where
  "mem_exec failing st s =
     (if failing = Some st then (Fail (ErrorString ''statement failed''), s)
      else case st of
        CreateUniqueIndex i t cs \<Rightarrow>
          if ms_indexes s i = None then (Ok (), s\<lparr>ms_indexes := exec_index st (ms_indexes s)\<rparr>)
          else (Fail (ErrorString ''duplicate key name''), s)
      | DropIndexOn i t \<Rightarrow>
          if ms_indexes s i = None then (Fail (ErrorString ''no such key''), s)
          else (Ok (), s\<lparr>ms_indexes := exec_index st (ms_indexes s)\<rparr>)
      | _ \<Rightarrow> (Ok (), s\<lparr>ms_indexes := exec_index st (ms_indexes s)\<rparr>))"

definition mem_row :: "MigrationData \<Rightarrow> (mem_schema, unit) action" where
  "mem_row d = modifyE (\<lambda>s. s\<lparr>ms_rows := (ms_rows s)(migrationKey d \<mapsto> d)\<rparr>)"

definition mem_schema_db :: "string \<Rightarrow> statement option \<Rightarrow> mem_schema schema_db" where
  "mem_schema_db dialect failing =
     \<lparr>sd_dialect = dialect,
      sd_AutoMigrate = (\<lambda>ts. modifyE (\<lambda>s. s\<lparr>ms_models := ms_models s @ ts\<rparr>)),
      sd_ExecWithError = mem_exec failing,
      sd_FindRouterGroups = getE ms_groups,
      sd_Begin = (\<lambda>s. s\<lparr>ms_begun := ms_rows s\<rparr>),
      sd_Commit = returnE (),
      sd_Rollback = modifyE (\<lambda>s. s\<lparr>ms_rows := ms_begun s\<rparr>),
      sd_First = (\<lambda>k s. (case ms_rows s k of
        Some d \<Rightarrow> if migrationKey d = k then (Ok d, s) else (Fail (ErrorString ''wrong key''), s)
      | None \<Rightarrow> (Fail ErrRecordNotFound, s))),
      sd_Create = mem_row, sd_Save = mem_row\<rparr>"

interpretation schema: migration_store "mem_schema_db dialect failing" "\<lambda>s. ms_rows s MigrationKey"
    "\<lambda>s. ms_begun s MigrationKey" ms_indexes
  by unfold_locales
    (auto simp: mem_schema_db_def mem_exec_def mem_row_def returnE_def split: statement.splits if_splits option.splits)

definition new_schema :: mem_schema where
  "new_schema = \<lparr>ms_rows = Map.empty, ms_begun = Map.empty, ms_indexes = Map.empty, ms_groups = [], ms_models = []\<rparr>"

lemmas migration_eval = RunAllMigration_def RunMigrations_def migrate_from_def commit_and_run_def rollback_with_def
  InitializeMigrations_def V0InitMigration_def V2UpdateRgMigration_def V4AddRgUniqIdxTCPRoute_def
  V7TCPTLSRoutes_def V8HostTLSPortTCPDefaultZero_def V11EnableBackendMTLS_def tcp_runs reindex_tcp_def
  dropIndex_def tcp_index_def unique_index_def index_columns_def duplicate_name_def
  mem_schema_db_def mem_exec_def mem_row_def new_schema_def deref_def liftE_def bindE_def tryE_def returnE_def
  failE_def Let_def

lemma new_schema_migrates: "fst (RunAllMigration (Some (mem_schema_db ''mysql'' None)) new_schema) = Ok ()"
  by (simp add: migration_eval)

lemma failing_schema_stops:
  "RunAllMigration (Some (mem_schema_db ''mysql'' (Some (tcp_index (mem_schema_db ''mysql'' None) [])))) new_schema =
     (Fail (ErrorString ''statement failed''), s') \<Longrightarrow> map_option currentVersion (ms_rows s' MigrationKey) = Some 3"
  by (auto simp: migration_eval)

section \<open>Properties\<close>

text \<open>
  (C22) The migrations can be interrupted and resumed. Whatever a run ends with, the recorded version
  does not fall and the schema has what the recorded version promises: the unique index on the
  names of router groups from version 2 on, the index on TCP routes with its eight columns from
  version 11 on. A run without an error ends at version 11 or later, a run that starts there changes
  nothing, and no run panics.
\<close>

theorem RunAllMigration_resumes:
  assumes "migration_store db recorded committed indexes"
    and "schema_at db (version_of (recorded s)) (indexes s)"
    and "RunAllMigration (Some db) s = (x, s')"
  shows "schema_at db (version_of (recorded s')) (indexes s') \<and>
    version_of (recorded s) \<le> version_of (recorded s') \<and> \<not> is_panic x \<and>
    (x = Ok () \<longrightarrow> 11 \<le> version_of (recorded s')) \<and>
    (11 \<le> version_of (recorded s) \<longrightarrow> recorded s' = recorded s \<and> indexes s' = indexes s)"
  using migration_store.RunAllMigration_migrated [OF assms(1,3)] assms(2)
  unfolding migration_store.migrated_def [OF assms(1)] migration_store.promised_def [OF assms(1)] by blast

theorem RunAllMigration_resumes_witness:
  "ms_indexes (snd (RunAllMigration (Some (mem_schema_db ''mysql'' None)) new_schema)) ''idx_tcp_route'' =
     Some (''tcp_routes'', index_columns (mem_schema_db ''mysql'' None) tcp_index_columns)"
proof -
  let ?db = "mem_schema_db ''mysql'' None"
  have "schema_at ?db (version_of (ms_rows new_schema MigrationKey)) (ms_indexes new_schema)"
    by (simp add: schema_at_def version_of_def new_schema_def)
  from RunAllMigration_resumes [OF schema.migration_store_axioms this prod.collapse [symmetric]] new_schema_migrates
  show ?thesis by (simp add: schema_at_def)
qed

primrec cond_column :: "cond \<Rightarrow> string" where
  "cond_column (CEq c v) = c"
| "cond_column (CIsNull c) = c"
| "cond_column (CLt c v) = c"
| "cond_column (CGt c v) = c"
| "cond_column (CIn c vs) = c"

text \<open>
  The unique index of version 11 and the lookup that \<open>SaveTcpRouteMapping\<close> and
  \<open>DeleteTcpRouteMapping\<close> start with do not go by the same columns: the index has
  \<open>terminate_frontend_tls\<close> on top, so it admits two rows that the lookup reports as duplicates.
\<close>

theorem tcp_index_wider_than_lookup:
  "set (map fst tcp_index_columns) = insert ''terminate_frontend_tls'' (set (map cond_column (tcp_where m))) \<and>
   (let m' = m\<lparr>tEntity := (tEntity m)\<lparr>teTerminateFrontendTLS := \<not> teTerminateFrontendTLS (tEntity m)\<rparr>\<rparr>
    in sat tcp_col (tcp_where m) m \<and> sat tcp_col (tcp_where m) m' \<and>
       map (tcp_col m) (map fst tcp_index_columns) \<noteq> map (tcp_col m') (map fst tcp_index_columns))"
  by (cases "teSniHostname (tEntity m)")
    (auto simp: tcp_index_columns_def tcp_where_def tcp_col_def opt_str_def Let_def)

end
