(* ===== verification/Metrics.thy ===== *)
theory Metrics
  imports Handlers
begin

text \<open>
  The metrics reporter of \<open>metrics/metrics.go\<close>. The statistics daemon is the list of the calls it
  got; an error of its client is only logged. A closed channel delivers zero values: the zero event,
  whose type is \<open>InvalidEvent\<close>, or no error.
\<close>

section \<open>The reporter\<close>

definition TotalHttpSubscriptions :: string where
  "TotalHttpSubscriptions = ''total_http_subscriptions''"
definition TotalHttpRoutes :: string where
  "TotalHttpRoutes = ''total_http_routes''"
definition TotalTcpSubscriptions :: string where
  "TotalTcpSubscriptions = ''total_tcp_subscriptions''"
definition TotalTcpRoutes :: string where
  "TotalTcpRoutes = ''total_tcp_routes''"
definition TotalTokenErrors :: string where
  "TotalTokenErrors = ''total_token_errors''"
definition KeyRefreshEvents :: string where
  "KeyRefreshEvents = ''key_refresh_events''"

lemmas stat_names = TotalHttpSubscriptions_def TotalHttpRoutes_def TotalTcpSubscriptions_def
  TotalTcpRoutes_def TotalTokenErrors_def KeyRefreshEvents_def

datatype stat_call = StatGauge string int | StatDelta string int

record 'd reporter =
  rpDb :: 'd
  rpStats :: "stat_call list"
  rpTokenErrors :: int
  rpKeyRefreshes :: int

definition send_stat :: "stat_call \<Rightarrow> ('d reporter, unit) action" where
  "send_stat c = modifyE (\<lambda>r. r\<lparr>rpStats := rpStats r @ [c]\<rparr>)"

definition getStatsEventType :: "Event \<Rightarrow> int" where
  "getStatsEventType event =
     (if evType event = CreateEvent then 1
      else if evType event = ExpireEvent \<or> evType event = DeleteEvent then - 1
      else 0)"

text \<open>The error is ignored: a failed read counts no routes.\<close>

definition total_of :: "('d, 'r list) action \<Rightarrow> ('d reporter, int) action" where
  "total_of read =
     tryE (zoom rpDb rpDb_update read) (\<lambda>r. returnE (case r of Inl _ \<Rightarrow> 0 | Inr routes \<Rightarrow> int64 (int (length routes))))"

definition getTotalRoutes :: "'d DB \<Rightarrow> ('d reporter, int) action" where
  "getTotalRoutes db = total_of (db_ReadRoutes db)"

definition getTotalTcpRoutes :: "'d DB \<Rightarrow> ('d reporter, int) action" where
  "getTotalTcpRoutes db = total_of (db_ReadTcpRouteMappings db)"

definition metrics_tick :: "'d DB \<Rightarrow> ('d reporter, unit) action" where
  "metrics_tick db =
     bindE (getTotalRoutes db) (\<lambda>n.
     bindE (send_stat (StatGauge TotalHttpRoutes n)) (\<lambda>_.
     bindE (send_stat (StatDelta TotalHttpSubscriptions 0)) (\<lambda>_.
     bindE (getTotalTcpRoutes db) (\<lambda>n.
     bindE (send_stat (StatGauge TotalTcpRoutes n)) (\<lambda>_.
     bindE (send_stat (StatDelta TotalTcpSubscriptions 0)) (\<lambda>_.
     bindE (getE rpTokenErrors) (\<lambda>n.
     bindE (send_stat (StatGauge TotalTokenErrors n)) (\<lambda>_.
     bindE (getE rpKeyRefreshes) (\<lambda>n.
     send_stat (StatGauge KeyRefreshEvents n))))))))))"

datatype metrics_input =
    HttpEventIn Event
  | TcpEventIn Event
  | TickIn
  | SignalIn
  | HttpErrIn "go_error option"
  | TcpErrIn "go_error option"

text \<open>The loop on what the channels deliver; the result is what \<open>Run\<close> returns, if it does.\<close>

primrec metrics_loop :: "'d DB \<Rightarrow> metrics_input list \<Rightarrow> ('d reporter, go_error option option) action" where
  "metrics_loop db [] = returnE None"
| "metrics_loop db (inp # ins) =
     (case inp of
        HttpEventIn event \<Rightarrow>
          bindE (send_stat (StatDelta TotalHttpRoutes (getStatsEventType event))) (\<lambda>_. metrics_loop db ins)
      | TcpEventIn event \<Rightarrow>
          bindE (send_stat (StatDelta TotalTcpRoutes (getStatsEventType event))) (\<lambda>_. metrics_loop db ins)
      | TickIn \<Rightarrow> bindE (metrics_tick db) (\<lambda>_. metrics_loop db ins)
      | SignalIn \<Rightarrow> returnE (Some None)
      | HttpErrIn err \<Rightarrow> returnE (Some err)
      | TcpErrIn err \<Rightarrow> returnE (Some err))"

definition MetricsReporter_Run ::
    "'d DB \<Rightarrow> metrics_input list \<Rightarrow> ('d reporter, watch \<times> watch \<times> go_error option option) action" where
  "MetricsReporter_Run db inputs =
     bindE (zoom rpDb rpDb_update (db_WatchChanges db ''http-watch'')) (\<lambda>httpWatch.
     bindE (zoom rpDb rpDb_update (db_WatchChanges db ''tcp-watch'')) (\<lambda>tcpWatch.
     bindE (send_stat (StatGauge TotalHttpSubscriptions 0)) (\<lambda>_.
     bindE (send_stat (StatGauge TotalTcpSubscriptions 0)) (\<lambda>_.
     bindE (metrics_loop db inputs) (\<lambda>e. returnE (httpWatch, tcpWatch, e))))))"

definition IncrementTokenError :: "('d reporter, unit) action" where
  "IncrementTokenError = modifyE (\<lambda>r. r\<lparr>rpTokenErrors := int64 (rpTokenErrors r + 1)\<rparr>)"

definition IncrementKeyVerificationRefreshCount :: "('d reporter, unit) action" where
  "IncrementKeyVerificationRefreshCount = modifyE (\<lambda>r. r\<lparr>rpKeyRefreshes := int64 (rpKeyRefreshes r + 1)\<rparr>)"

section \<open>What the daemon shows\<close>

text \<open>The value of a gauge after the calls, from the value \<open>v\<close> on.\<close>

primrec gauge_after :: "string \<Rightarrow> int \<Rightarrow> stat_call list \<Rightarrow> int" where
  "gauge_after stat v [] = v"
| "gauge_after stat v (c # cs) =
     gauge_after stat
       (case c of
          StatGauge s n \<Rightarrow> if s = stat then n else v
        | StatDelta s n \<Rightarrow> if s = stat then v + n else v) cs"

lemma gauge_after_append: "gauge_after stat v (cs @ ds) = gauge_after stat (gauge_after stat v cs) ds"
  by (induction cs arbitrary: v) simp_all

lemma gauge_after_deltas:
  "gauge_after stat v (map (\<lambda>e. StatDelta stat (f e)) es) = v + sum_list (map f es)"
  by (induction es arbitrary: v) simp_all

lemma loop_http_events:
  "metrics_loop db (map HttpEventIn es) r =
     (Ok None, r\<lparr>rpStats := rpStats r @ map (\<lambda>e. StatDelta TotalHttpRoutes (getStatsEventType e)) es\<rparr>)"
  by (induction es arbitrary: r) (simp_all add: bindE_def send_stat_def returnE_def)

section \<open>The gauge and the table\<close>

lemma Emit_pending:
  assumes "hub_inv h" and "i < nextSource h" and "\<not> sclosed (sources (Emit e h) i)"
  shows "hub_pending (Emit e h) i = hub_pending h i @ [e]" and "\<not> sclosed (sources h i)"
  using assms by (auto simp: Emit_eq hub_pending_def emit_source_eq hub_inv_def split: if_splits)

text \<open>A change of a table that is announced with an event that counts it.\<close>

definition counted :: "Event hub \<Rightarrow> nat \<Rightarrow> Event hub \<Rightarrow> nat \<Rightarrow> bool" where
  "counted h n h' n' \<longleftrightarrow>
     h' = h \<and> n' = n \<or> (\<exists>e. h' = Emit e h \<and> int n' = int n + getStatsEventType e)"

lemma counted_Emit:
  "h' = Emit e h \<Longrightarrow> int n' = int n + getStatsEventType e \<Longrightarrow> counted h n h' n'"
  by (auto simp: counted_def)

context route_repository
begin

lemma length_rows: "wf d \<Longrightarrow> length (rows d) = card (dom (tbl d))"
  by (simp add: card_table_of table_wf_def)

lemma finite_tbl: "finite (dom (tbl d))"
  by (simp add: dom_table_of)

lemma save_counts:
  assumes "wf d" and "good_uuids (outer d)" and "save r d = (x, d')"
  shows "wf d' \<and> counted (hub d) (length (rows d)) (hub d') (length (rows d'))"
proof -
  note res = save_result [OF assms]
  have wf': "wf d'" using res by simp
  show ?thesis
  proof (cases x)
    case (Ok u)
    then obtain new where new: "tbl d' = (tbl d)(key r \<mapsto> stored new)"
      "hub d' = Emit \<lparr>evType = if tbl d (key r) = None then CreateEvent else UpdateEvent, evValue = Marshal (announce new)\<rparr> (hub d)"
      using res by auto
    have "int (card (dom (tbl d'))) = int (card (dom (tbl d))) + (if tbl d (key r) = None then 1 else 0)"
      using finite_tbl [of d] unfolding new(1) by (auto simp: card_insert_if domIff)
    then show ?thesis
      using wf' assms(1) by (auto intro!: counted_Emit [OF new(2)] simp: length_rows getStatsEventType_def)
  qed (use res in \<open>auto simp: counted_def\<close>)
qed

lemma delete_counts:
  assumes "wf d" and "delete r d = (x, d')"
  shows "wf d' \<and> counted (hub d) (length (rows d)) (hub d') (length (rows d'))"
proof -
  note res = delete_result [OF assms]
  have wf': "wf d'" using res by simp
  show ?thesis
  proof (cases x)
    case (Ok u)
    then obtain old where old: "tbl d (key r) = Some old" "tbl d' = (tbl d)(key r := None)"
      "hub d' = Emit \<lparr>evType = DeleteEvent, evValue = Marshal (announce old)\<rparr> (hub d)"
      using res by auto
    have mem: "key r \<in> dom (tbl d)" using old(1) by (simp add: domIff)
    have "int (card (dom (tbl d'))) = int (card (dom (tbl d))) - 1"
      using finite_tbl [of d] mem card_gt_0_iff [of "dom (tbl d)"] unfolding old(2)
      by (auto simp: card_Diff_singleton of_nat_diff)
    then show ?thesis
      using wf' assms(1) by (auto intro!: counted_Emit [OF old(3)] simp: length_rows getStatsEventType_def)
  qed (use res in \<open>auto simp: counted_def\<close>)
qed

end

datatype route_op = SaveOp Route | DeleteOp Route

definition run_op :: "'s gormClient \<Rightarrow> route_op \<Rightarrow> 's SqlDB \<Rightarrow> 's SqlDB" where
  "run_op c op d = (case op of SaveOp r \<Rightarrow> snd (SaveRoute c r d) | DeleteOp r \<Rightarrow> snd (DeleteRoute c r d))"

lemma run_op_uuids: "uuids (env (run_op c op d)) = uuids (env d)"
proof -
  have "keeps (\<lambda>e. uuids (env e) = uuids (env d)) (SaveRoute c r)"
      "keeps (\<lambda>e. uuids (env e) = uuids (env d)) (DeleteRoute c r)" for r
    unfolding SaveRoute_def SaveRoute_write_def DeleteRoute_def readRoute_def Let_def
    by (intro keeps_intros zooms_uuids models_uuids)+
  then show ?thesis
    by (auto simp: run_op_def split: route_op.splits dest!: keeps_snd [where d = d])
qed

context sql_store
begin

lemma run_op_counts:
  assumes "table_wf route_key route_guid (rrows (store d))" and "good_uuids (env d)"
    and "d' = run_op cl op d"
  shows "table_wf route_key route_guid (rrows (store d')) \<and> good_uuids (env d') \<and>
    counted (httpEventHub d) (length (rrows (store d))) (httpEventHub d') (length (rrows (store d')))"
proof -
  have "good_uuids (env d')"
    using assms(2) run_op_uuids [of cl op d] by (simp add: assms(3) good_uuids_def)
  moreover have "table_wf route_key route_guid (rrows (store d')) \<and>
    counted (httpEventHub d) (length (rrows (store d))) (httpEventHub d') (length (rrows (store d')))"
  proof (cases op)
    case (SaveOp r)
    then show ?thesis
      using http.save_counts [OF assms(1,2) prod.collapse [symmetric], of r]
      by (simp add: assms(3) run_op_def SaveRoute_def)
  next
    case (DeleteOp r)
    then show ?thesis
      using http.delete_counts [OF assms(1) prod.collapse [symmetric], of r]
      by (simp add: assms(3) run_op_def DeleteRoute_def)
  qed
  ultimately show ?thesis by simp
qed

lemma counted_pending:
  assumes "counted h n h' n'" and "hub_inv h" and "i < nextSource h"
  shows "hub_inv h' \<and> i < nextSource h' \<and> (\<not> sclosed (sources h' i) \<longrightarrow> \<not> sclosed (sources h i) \<and>
    (\<exists>es. hub_pending h' i = hub_pending h i @ es \<and> int n' = int n + sum_list (map getStatsEventType es)))"
  using assms(1) unfolding counted_def
proof
  assume "h' = h \<and> n' = n"
  with assms show ?thesis by (auto intro: exI [of _ "[]"])
next
  assume "\<exists>e. h' = Emit e h \<and> int n' = int n + getStatsEventType e"
  then obtain e where e: "h' = Emit e h" "int n' = int n + getStatsEventType e" by blast
  show ?thesis
    using Emit_pending [OF assms(2,3), of e] hub_inv_Emit [OF assms(2), of e] e(2) assms(3)
    unfolding e(1) by (auto simp: Emit_eq intro: exI [of _ "[e]"])
qed

lemma run_ops_counts:
  assumes "table_wf route_key route_guid (rrows (store d))" and "good_uuids (env d)"
    and "hub_inv (httpEventHub d)" and "i < nextSource (httpEventHub d)"
    and "d' = fold (run_op cl) ops d" and "\<not> sclosed (sources (httpEventHub d') i)"
  shows "\<not> sclosed (sources (httpEventHub d) i) \<and> (\<exists>es. hub_pending (httpEventHub d') i = hub_pending (httpEventHub d) i @ es \<and>
    int (length (rrows (store d'))) = int (length (rrows (store d))) + sum_list (map getStatsEventType es))"
  using assms(1-5)
proof (induction ops arbitrary: d)
  case Nil
  then show ?case using assms(6) by simp
next
  case (Cons op ops)
  let ?d = "run_op cl op d"
  note step = run_op_counts [OF Cons.prems(1,2) refl, of op]
  have pend: "hub_inv (httpEventHub ?d)" "i < nextSource (httpEventHub ?d)"
      "\<not> sclosed (sources (httpEventHub ?d) i) \<Longrightarrow> \<not> sclosed (sources (httpEventHub d) i) \<and>
        (\<exists>es. hub_pending (httpEventHub ?d) i = hub_pending (httpEventHub d) i @ es \<and>
         int (length (rrows (store ?d))) = int (length (rrows (store d))) + sum_list (map getStatsEventType es))"
    using counted_pending [OF _ Cons.prems(3,4)] step by auto
  obtain es where "\<not> sclosed (sources (httpEventHub ?d) i)"
      "hub_pending (httpEventHub d') i = hub_pending (httpEventHub ?d) i @ es"
      "int (length (rrows (store d'))) = int (length (rrows (store ?d))) + sum_list (map getStatsEventType es)"
    using Cons.IH [of ?d] step pend(1,2) Cons.prems(5) by auto
  moreover from this(1) obtain es' where "\<not> sclosed (sources (httpEventHub d) i)"
      "hub_pending (httpEventHub ?d) i = hub_pending (httpEventHub d) i @ es'"
      "int (length (rrows (store ?d))) = int (length (rrows (store d))) + sum_list (map getStatsEventType es')"
    using pend(3) by blast
  ultimately show ?case by (auto intro: exI [of _ "es' @ es"])
qed

end

text \<open>
  (C23) The gauge of HTTP routes follows the table between two ticks. Let the reporter watch the HTTP
  hub with nothing pending while the gauge shows the number of rows. After any sequence of saves and
  deletes, failing ones included, and once the reporter has taken the pending events, the gauge
  shows the number of rows again, unless the hub has dropped the reporter as a slow consumer.
\<close>

theorem http_gauge_counts_routes:
  assumes "sql_store db rrows trows grows rstored tstored gstored"
    and "table_wf route_key route_guid (rrows (store d))" and "good_uuids (env d)"
    and "hub_inv (httpEventHub d)" and "i < nextSource (httpEventHub d)"
    and "hub_pending (httpEventHub d) i = []"
    and "gauge_after TotalHttpRoutes v (rpStats r) = int (length (rrows (store d)))"
    and "d' = fold (run_op (NewGormClient db)) ops d"
    and "\<not> sclosed (sources (httpEventHub d') i)"
    and "metrics_loop rdb (map HttpEventIn (hub_pending (httpEventHub d') i)) r = (x, r')"
  shows "x = Ok None \<and> gauge_after TotalHttpRoutes v (rpStats r') = int (length (rrows (store d')))"
  using sql_store.run_ops_counts [OF assms(1-5) assms(8,9)] assms(6,7,10)
  by (auto simp: loop_http_events gauge_after_append gauge_after_deltas)

definition ex_watched :: "mem SqlDB" where
  "ex_watched = snd (WatchChanges ''http-watch'' ex_db)"

definition ex_reporter :: "mem SqlDB reporter" where
  "ex_reporter = \<lparr>rpDb = ex_watched, rpStats = [StatGauge TotalHttpRoutes 0], rpTokenErrors = 0, rpKeyRefreshes = 0\<rparr>"

lemma ex_watched_eq: "ex_watched = ex_db\<lparr>httpEventHub := snd (Subscribe (NewNonBlocking 1024))\<rparr>"
  by (simp add: ex_watched_def WatchChanges_def watch_hub_type_def tryE_def zoom_def Subscribe_def
      NewNonBlocking_def ex_db_def NewSqlDB_value_def hub_of_def set_hub_def)

lemma ex_watched_saved:
  "\<not> sclosed (sources (httpEventHub (run_op (NewGormClient mem_db) (SaveOp ex_route) ex_watched)) 0)"
  "length (mroutes (store (run_op (NewGormClient mem_db) (SaveOp ex_route) ex_watched))) = 1"
  by (simp_all add: run_op_def ex_watched_eq sql_run_defs ex_defs mem_eval Subscribe_def NewNonBlocking_def
      Emit_def source_send_def newSource_def)

theorem http_gauge_counts_routes_witness:
  "let d = run_op (NewGormClient mem_db) (SaveOp ex_route) ex_watched;
       r = snd (metrics_loop (SqlDB_DB (NewGormClient mem_db)) (map HttpEventIn (hub_pending (httpEventHub d) 0)) ex_reporter)
   in gauge_after TotalHttpRoutes 0 (rpStats r) = 1"
proof -
  have hub: "httpEventHub ex_watched = snd (Subscribe (NewNonBlocking 1024))" "store ex_watched = store ex_db"
      "env ex_watched = env ex_db"
    by (simp_all add: ex_watched_eq)
  have "hub_inv (httpEventHub ex_watched)"
    unfolding hub by (rule hub_inv_Subscribe [OF hub_inv_New prod.collapse [symmetric]])
  moreover have "0 < nextSource (httpEventHub ex_watched)" "hub_pending (httpEventHub ex_watched) 0 = []"
    unfolding hub by (simp_all add: Subscribe_def NewNonBlocking_def hub_pending_def newSource_def)
  moreover have "gauge_after TotalHttpRoutes 0 (rpStats ex_reporter) = int (length (mroutes (store ex_watched)))"
    by (simp add: ex_reporter_def hub ex_tables)
  ultimately show ?thesis
    using http_gauge_counts_routes [OF mem.sql_store_axioms _ _ _ _ _ _ _ _ prod.collapse [symmetric],
        of ex_watched 0 0 ex_reporter _ "[SaveOp ex_route]" "SqlDB_DB (NewGormClient mem_db)", OF _ _ _ _ _ _ refl]
      ex_watched_saved ex_uuids(1)
    by (simp add: Let_def hub ex_tables small_tables)
qed

end
