(* ===== verification/Go_Time.thy ===== *)
theory Go_Time
  imports Complex_Main "HOL-Library.Log_Nat" Json
begin

text \<open>
  The parts of Go's \<open>time\<close> package that the configuration needs: \<open>ParseDuration\<close>, and
  \<open>Duration.Seconds\<close> followed by a conversion to \<open>int\<close>. Both compute with \<open>float64\<close> values, which
  are rationals here, rounded after every operation to the nearest number with 53 significant
  bits, ties to even. The exponents of the values that occur are within the range of the format, or
  so small that they only contribute to a fraction that is cut off.
\<close>

section \<open>Floating point\<close>

definition round_even :: "rat \<Rightarrow> int" where
  "round_even q =
     (let f = \<lfloor>q\<rfloor>; r = q - of_int f
      in if r < 1 / 2 \<or> r = 1 / 2 \<and> even f then f else f + 1)"

text \<open>The exponent \<open>e\<close> with \<open>2\<^sup>5\<^sup>2 \<le> x / 2\<^sup>e < 2\<^sup>5\<^sup>3\<close> of a positive number.\<close>

definition exponent :: "rat \<Rightarrow> int" where
  "exponent x =
     (case quotient_of x of (a, b) \<Rightarrow>
        let e = bitlen a - bitlen b - 53 in if x < 2 powi (e + 53) then e else e + 1)"

definition fl :: "rat \<Rightarrow> rat" where
  "fl x =
     (if x = 0 then 0
      else let e = exponent \<bar>x\<bar> in sgn x * of_int (round_even (\<bar>x\<bar> / 2 powi e)) * 2 powi e)"

lemma round_even_near: "of_int (round_even q) \<le> q + 1 / 2" "q - 1 / 2 \<le> of_int (round_even q)"
proof -
  have "of_int \<lfloor>q\<rfloor> \<le> q" "q < of_int \<lfloor>q\<rfloor> + 1" by linarith+
  then show "of_int (round_even q) \<le> q + 1 / 2" "q - 1 / 2 \<le> of_int (round_even q)"
    unfolding round_even_def Let_def by (auto simp del: of_int_floor_le)
qed

lemma round_even_le: "q \<le> of_int n \<Longrightarrow> round_even q \<le> n"
  using round_even_near(1) [of q] by linarith

lemma round_even_ge: "of_int n \<le> q \<Longrightarrow> n \<le> round_even q"
  using round_even_near(2) [of q] by linarith

lemma bitlen_powi:
  assumes "0 < a"
  shows "2 powi (bitlen a - 1) \<le> (of_int a :: rat)" "(of_int a :: rat) < 2 powi bitlen a"
proof -
  have b: "0 < bitlen a" using bitlen_eq_zero_iff [of a] bitlen_nonneg [of a] assms by linarith
  have "2 ^ nat (bitlen a - 1) \<le> a" "a < 2 ^ nat (bitlen a)" using bitlen_bounds [OF assms] by simp_all
  then have "of_int (2 ^ nat (bitlen a - 1)) \<le> (of_int a :: rat)" "(of_int a :: rat) < of_int (2 ^ nat (bitlen a))"
    by (simp_all only: of_int_le_iff of_int_less_iff)
  with b show "2 powi (bitlen a - 1) \<le> (of_int a :: rat)" "(of_int a :: rat) < 2 powi bitlen a"
    by (simp_all add: power_int_def)
qed

lemma exponent_bounds:
  assumes "0 < x"
  shows "2 powi (exponent x + 52) \<le> x" and "x < 2 powi (exponent x + 53)"
proof -
  obtain a b where q: "quotient_of x = (a, b)" by (cases "quotient_of x")
  have b: "0 < b" and x: "x = of_int a / of_int b"
    using quotient_of_denom_pos [OF q] quotient_of_div [OF q] by simp_all
  with assms have a: "0 < a" by (simp add: zero_less_divide_iff)
  note la = bitlen_powi [OF a] and lb = bitlen_powi [OF b]
  have "2 powi (bitlen a - 1 - bitlen b) = 2 powi (bitlen a - 1) / (2 powi bitlen b :: rat)"
    by (simp add: power_int_diff)
  also have "\<dots> \<le> x"
    unfolding x using la lb a b by (intro frac_le) simp_all
  finally have lo: "2 powi (bitlen a - 1 - bitlen b) \<le> x" .
  have "x < 2 powi bitlen a / (2 powi (bitlen b - 1) :: rat)"
    unfolding x using la lb a by (intro frac_less) simp_all
  also have "\<dots> = 2 powi (bitlen a - bitlen b - 53 + 1 + 53)"
    by (simp flip: power_int_diff add: algebra_simps)
  finally have hi: "x < 2 powi (bitlen a - bitlen b - 53 + 1 + 53)" .
  show "2 powi (exponent x + 52) \<le> x" and "x < 2 powi (exponent x + 53)"
    using lo hi by (auto simp: exponent_def q Let_def algebra_simps)
qed

lemma fl_pos: "0 < x \<Longrightarrow> fl x = of_int (round_even (x / 2 powi exponent x)) * 2 powi exponent x"
  by (simp add: fl_def Let_def)

lemma fl_zero [simp]: "fl 0 = 0"
  by (simp add: fl_def)

text \<open>The relative error of a rounding.\<close>

lemma fl_error:
  assumes "0 \<le> x"
  shows "fl x \<le> x + x / 2 ^ 53" and "x - x / 2 ^ 53 \<le> fl x"
proof -
  have "fl x \<le> x + x / 2 ^ 53 \<and> x - x / 2 ^ 53 \<le> fl x" if x: "0 < x"
  proof -
    let ?u = "2 powi exponent x :: rat"
    have u: "0 < ?u" by simp
    have half: "?u / 2 \<le> x / 2 ^ 53"
    proof -
      have "?u * 2 powi 52 \<le> x" using exponent_bounds(1) [OF x] by (simp add: power_int_add)
      moreover have "2 powi 52 = (2 ^ 52 :: rat)" by (simp add: power_int_def)
      ultimately show ?thesis by simp
    qed
    have "fl x \<le> (x / ?u + 1 / 2) * ?u" and "(x / ?u - 1 / 2) * ?u \<le> fl x"
      unfolding fl_pos [OF x] using u round_even_near [of "x / ?u"] by (auto intro: mult_right_mono)
    then have "fl x \<le> x + ?u / 2" and "x - ?u / 2 \<le> fl x" using u by (simp_all add: algebra_simps)
    with half show ?thesis by linarith
  qed
  with assms show "fl x \<le> x + x / 2 ^ 53" and "x - x / 2 ^ 53 \<le> fl x"
    by (cases "x = 0"; simp)+
qed

lemma exponent_small: "0 < x \<Longrightarrow> x < 2 ^ 53 \<Longrightarrow> exponent x \<le> 0"
proof (rule ccontr)
  assume x: "0 < x" "x < 2 ^ 53" and "\<not> exponent x \<le> 0"
  then have "(2 :: rat) powi 53 \<le> 2 powi (exponent x + 52)"
    by (intro power_int_increasing) auto
  also have "\<dots> \<le> x" by (rule exponent_bounds(1) [OF x(1)])
  finally show False using x(2) by (simp add: power_int_def)
qed

text \<open>Rounding does not cross an integer below \<open>2\<^sup>5\<^sup>3\<close>.\<close>

lemma fl_integer:
  assumes "0 \<le> x" and "x < 2 ^ 53"
  shows "of_int n \<le> x \<Longrightarrow> of_int n \<le> fl x" and "x \<le> of_int n \<Longrightarrow> fl x \<le> of_int n"
proof -
  define k where "k = nat (- exponent x)"
  have scaled: "of_int n * 2 ^ k = (of_int (n * 2 ^ k) :: rat)" by simp
  have eq: "fl x = of_int (round_even (x * 2 ^ k)) / 2 ^ k" if "0 < x"
    using exponent_small [OF that assms(2)] that unfolding fl_pos [OF that] k_def
    by (simp add: power_int_def divide_simps)
  show "of_int n \<le> fl x" if n: "of_int n \<le> x"
  proof (cases "x = 0")
    case False
    have "of_int (n * 2 ^ k) \<le> x * 2 ^ k" using n by (simp flip: scaled)
    then have "n * 2 ^ k \<le> round_even (x * 2 ^ k)" by (rule round_even_ge)
    then have "of_int (n * 2 ^ k) \<le> (of_int (round_even (x * 2 ^ k)) :: rat)" by (simp only: of_int_le_iff)
    with False assms(1) show ?thesis by (simp add: eq pos_le_divide_eq)
  qed (use n in simp)
  show "fl x \<le> of_int n" if n: "x \<le> of_int n"
  proof (cases "x = 0")
    case False
    have "x * 2 ^ k \<le> of_int (n * 2 ^ k)" using n by (simp flip: scaled)
    then have "round_even (x * 2 ^ k) \<le> n * 2 ^ k" by (rule round_even_le)
    then have "(of_int (round_even (x * 2 ^ k)) :: rat) \<le> of_int (n * 2 ^ k)" by (simp only: of_int_le_iff)
    with False assms(1) show ?thesis by (simp add: eq pos_divide_le_eq)
  qed (use n in simp)
qed

section \<open>Seconds\<close>

text \<open>\<open>int(d.Seconds())\<close>; the quotient and the remainder of Go are cut off towards zero.\<close>

definition go_div :: "int \<Rightarrow> int \<Rightarrow> int" where
  "go_div a b = sgn a * sgn b * (\<bar>a\<bar> div \<bar>b\<bar>)"

definition go_mod :: "int \<Rightarrow> int \<Rightarrow> int" where
  "go_mod a b = sgn a * (\<bar>a\<bar> mod \<bar>b\<bar>)"

definition Duration_Seconds :: "duration \<Rightarrow> rat" where
  "Duration_Seconds d = fl (of_int (go_div d second) + fl (of_int (go_mod d second) / 1000000000))"

definition float_to_int :: "rat \<Rightarrow> int" where
  "float_to_int x = (if x < 0 then \<lceil>x\<rceil> else \<lfloor>x\<rfloor>)"

definition int_seconds :: "duration \<Rightarrow> int" where
  "int_seconds d = float_to_int (Duration_Seconds d)"

lemma fl_minus: "fl (- x) = - fl x"
  by (simp add: fl_def Let_def)

lemma int_seconds_minus: "int_seconds (- d) = - int_seconds d"
proof -
  have "Duration_Seconds (- d) = - Duration_Seconds d"
    by (simp add: Duration_Seconds_def go_div_def go_mod_def flip: fl_minus)
  then show ?thesis
    by (simp add: int_seconds_def float_to_int_def ceiling_minus floor_minus)
qed

lemma two_roundings:
  fixes f g s x :: rat
  assumes "f \<le> 999999999 / 1000000000" and "g \<le> f + f / 2 ^ 53" and "s \<le> 4194303"
    and "x \<le> s + g + (s + g) / 2 ^ 53"
  shows "x < s + 1"
  using assms by (simp add: field_simps)

lemma int_seconds_bounds:
  assumes "0 \<le> d" and "d \<le> 2 ^ 63"
  shows "d div 1000000000 \<le> int_seconds d" and "int_seconds d \<le> d div 1000000000 + 1"
    and "d < 4194304000000000 \<Longrightarrow> int_seconds d = d div 1000000000"
proof -
  define s where "s = d div 1000000000"
  define f :: rat where "f = of_int (d mod 1000000000) / 1000000000"
  have s: "0 \<le> s" "s < 9223372037" using assms by (simp_all add: s_def)
  have "d mod 1000000000 \<le> 999999999" by linarith
  then have "of_int (d mod 1000000000) \<le> (of_int 999999999 :: rat)" by (simp only: of_int_le_iff)
  then have f: "0 \<le> f" "f \<le> 999999999 / 1000000000" by (simp_all add: f_def)
  have g: "0 \<le> fl f" "fl f \<le> 1" "fl f \<le> f + f / 2 ^ 53"
    using fl_integer [of f 0] fl_integer [of f 1] fl_error(1) [of f] f by simp_all
  have eq: "Duration_Seconds d = fl (of_int s + fl f)"
    using assms(1) by (cases "d = 0") (simp_all add: Duration_Seconds_def go_div_def go_mod_def second_def s_def f_def)
  have x: "0 \<le> of_int s + fl f" "of_int s + fl f < 2 ^ 53"
    using s g by simp_all
  have b: "of_int s \<le> Duration_Seconds d" "Duration_Seconds d \<le> of_int (s + 1)"
    using fl_integer(1) [OF x, of s] fl_integer(2) [OF x, of "s + 1"] g by (simp_all add: eq)
  have i: "int_seconds d = \<lfloor>Duration_Seconds d\<rfloor>"
    using b(1) s(1) by (simp add: int_seconds_def float_to_int_def)
  show "d div 1000000000 \<le> int_seconds d" "int_seconds d \<le> d div 1000000000 + 1"
    using b unfolding i s_def [symmetric] by (simp_all add: le_floor_iff floor_le_iff)
  assume "d < 4194304000000000"
  then have "s \<le> 4194303" by (simp add: s_def)
  then have "(of_int s :: rat) \<le> 4194303" by (simp flip: of_int_le_iff)
  then have "Duration_Seconds d < of_int s + 1"
    unfolding eq by (rule two_roundings [OF f(2) g(3) _ fl_error(1) [OF x(1)]])
  then show "int_seconds d = d div 1000000000"
    using b(1) unfolding i s_def [symmetric] by (intro floor_unique) simp_all
qed

lemma int_seconds_short:
  assumes "- (2 ^ 63) \<le> d" and "d < 2 ^ 63"
  shows "int_seconds d < 2 \<longleftrightarrow> d < 2 * second"
proof (cases "0 \<le> d")
  case True
  show ?thesis
  proof (cases "d < 2 * second")
    case True
    with \<open>0 \<le> d\<close> have "int_seconds d = d div 1000000000"
      by (intro int_seconds_bounds(3)) (simp_all add: second_def)
    with True show ?thesis by (simp add: second_def)
  next
    case False
    then have "2 \<le> d div 1000000000" by (simp add: second_def)
    with int_seconds_bounds(1) [OF \<open>0 \<le> d\<close>] assms(2) False show ?thesis by linarith
  qed
next
  case False
  then have "0 \<le> int_seconds (- d)"
    using int_seconds_bounds(1) [of "- d"] assms pos_imp_zdiv_nonneg_iff [of 1000000000 "- d"] by linarith
  with False show ?thesis by (simp add: int_seconds_minus second_def)
qed

section \<open>Parsing\<close>

text \<open>
  \<open>ParseDuration\<close>: a sign, then decimal numbers with a unit each. The sums are computed in 64 bits.
\<close>

definition quote_char :: "char \<Rightarrow> string" where
  "quote_char c =
     (let n = (of_char c :: nat)
      in if 128 \<le> n \<or> n < 32 then [CHR 0x5C, CHR ''x'', hex_digit (n div 16), hex_digit (n mod 16)]
         else if n = 34 \<or> n = 92 then [CHR 0x5C, c] else [c])"

definition quote :: "string \<Rightarrow> string" where
  "quote s = [CHR 0x22] @ concat (map quote_char s) @ [CHR 0x22]"

primrec leadingInt :: "nat \<Rightarrow> string \<Rightarrow> (nat \<times> string) option" where
  "leadingInt x [] = Some (x, [])"
| "leadingInt x (c # s) =
     (if \<not> is_digit c then Some (x, c # s)
      else if x > 2 ^ 63 div 10 then None
      else let y = 10 * x + digit_value c in if y > 2 ^ 63 then None else leadingInt y s)"

primrec leadingFraction :: "nat \<Rightarrow> rat \<Rightarrow> bool \<Rightarrow> string \<Rightarrow> nat \<times> rat \<times> string" where
  "leadingFraction x scale overflow [] = (x, scale, [])"
| "leadingFraction x scale overflow (c # s) =
     (if \<not> is_digit c then (x, scale, c # s)
      else if overflow then leadingFraction x scale True s
      else if x > (2 ^ 63 - 1) div 10 then leadingFraction x scale True s
      else let y = 10 * x + digit_value c
           in if y > 2 ^ 63 then leadingFraction x scale True s
              else leadingFraction y (fl (scale * 10)) False s)"

definition unitMap :: "(string \<times> nat) list" where
  "unitMap =
     [(''ns'', 1), (''us'', 1000), ([CHR 0xC2, CHR 0xB5, CHR ''s''], 1000),
      ([CHR 0xCE, CHR 0xBC, CHR ''s''], 1000), (''ms'', 1000000), (''s'', 1000000000),
      (''m'', 60000000000), (''h'', 3600000000000)]"

definition number_char :: "char \<Rightarrow> bool" where
  "number_char c \<longleftrightarrow> c = CHR ''.'' \<or> is_digit c"

definition invalid_duration :: "string \<Rightarrow> go_error" where
  "invalid_duration orig = ErrorString (''time: invalid duration '' @ quote orig)"

text \<open>The value of \<open>v\<close> units and the fraction \<open>f / scale\<close> of a unit; \<open>None\<close> if it is too large.\<close>

definition in_units :: "nat \<Rightarrow> nat \<Rightarrow> rat \<Rightarrow> nat \<Rightarrow> nat option" where
  "in_units v f scale unit =
     (if v > 2 ^ 63 div unit then None
      else if 0 < f
        then let w = (v * unit + nat \<lfloor>fl (fl (rat_of_nat f) * fl (rat_of_nat unit / scale))\<rfloor>) mod 2 ^ 64
             in if w > 2 ^ 63 then None else Some w
        else Some (v * unit))"

text \<open>The fraction after a point, its scale, the rest of the input, and whether it has digits.\<close>

definition take_fraction :: "string \<Rightarrow> nat \<times> rat \<times> string \<times> bool" where
  "take_fraction s =
     (if s \<noteq> [] \<and> hd s = CHR ''.''
      then case leadingFraction 0 1 False (tl s) of (f, scale, s') \<Rightarrow> (f, scale, s', length s' \<noteq> length (tl s))
      else (0, 1, s, False))"

text \<open>The unit at the head of the input, and the value it gives to a number.\<close>

definition take_unit :: "string \<Rightarrow> nat \<Rightarrow> nat \<Rightarrow> rat \<Rightarrow> string \<Rightarrow> go_error + nat \<times> string" where
  "take_unit orig v f scale s =
     (let u = takeWhile (\<lambda>c. \<not> number_char c) s
      in if u = [] then Inl (ErrorString (''time: missing unit in duration '' @ quote orig))
         else (case map_of unitMap u of
                 None \<Rightarrow> Inl (ErrorString (''time: unknown unit '' @ quote u @ '' in duration '' @ quote orig))
               | Some n \<Rightarrow>
                   (case in_units v f scale n of
                      None \<Rightarrow> Inl (invalid_duration orig)
                    | Some w \<Rightarrow> Inr (w, dropWhile (\<lambda>c. \<not> number_char c) s))))"

text \<open>One number with its unit: the value and the rest of the input.\<close>

definition duration_term :: "string \<Rightarrow> string \<Rightarrow> go_error + nat \<times> string" where
  "duration_term orig s =
     (if \<not> number_char (hd s) then Inl (invalid_duration orig)
      else (case leadingInt 0 s of
              None \<Rightarrow> Inl (invalid_duration orig)
            | Some (v, s1) \<Rightarrow>
                (case take_fraction s1 of (f, scale, s2, post) \<Rightarrow>
                   if length s1 = length s \<and> \<not> post then Inl (invalid_duration orig)
                   else take_unit orig v f scale s2)))"

lemma leadingInt_rest: "leadingInt x s = Some (v, s') \<Longrightarrow> length s' \<le> length s"
  by (induction s arbitrary: x) (fastforce simp: Let_def split: if_splits)+

lemma leadingFraction_rest: "leadingFraction x scale b s = (f, sc, s') \<Longrightarrow> length s' \<le> length s"
  by (induction s arbitrary: x scale b) (fastforce simp: Let_def split: if_splits)+

lemma take_fraction_rest: "take_fraction s = (f, sc, s', b) \<Longrightarrow> length s' \<le> length s"
  by (auto simp: take_fraction_def split: if_splits prod.splits dest!: leadingFraction_rest)

lemma take_unit_rest:
  assumes "take_unit orig v f sc s = Inr (w, s')"
  shows "length s' < length s"
proof -
  let ?n = "\<lambda>c. \<not> number_char c"
  have "takeWhile ?n s \<noteq> []" and s': "s' = dropWhile ?n s"
    using assms by (auto simp: take_unit_def Let_def split: if_splits option.splits)
  moreover have "length (takeWhile ?n s) + length (dropWhile ?n s) = length s"
    by (simp flip: length_append)
  ultimately show ?thesis by (simp add: s' flip: length_greater_0_conv)
qed

lemma duration_term_rest:
  "duration_term orig s = Inr (w, s') \<Longrightarrow> length s' < length s"
  by (auto simp: duration_term_def split: if_splits option.splits prod.splits
      dest!: leadingInt_rest take_fraction_rest take_unit_rest)

function duration_loop :: "string \<Rightarrow> nat \<Rightarrow> string \<Rightarrow> go_error + nat" where
  "duration_loop orig d s =
     (if s = [] then Inr d
      else case duration_term orig s of
        Inl e \<Rightarrow> Inl e
      | Inr (v, s') \<Rightarrow>
          let d' = (d + v) mod 2 ^ 64
          in if d' > 2 ^ 63 then Inl (invalid_duration orig) else duration_loop orig d' s')"
  by pat_completeness auto
termination
  by (relation "measure (\<lambda>(orig, d, s). length s)") (auto dest!: duration_term_rest)

declare duration_loop.simps [simp del]

definition ParseDuration :: "string \<Rightarrow> go_error + duration" where
  "ParseDuration orig =
     (let neg = (orig \<noteq> [] \<and> hd orig = CHR ''-'');
          s = (if orig \<noteq> [] \<and> (hd orig = CHR ''-'' \<or> hd orig = CHR ''+'') then tl orig else orig)
      in if s = ''0'' then Inr 0
         else if s = [] then Inl (invalid_duration orig)
         else case duration_loop orig 0 s of
           Inl e \<Rightarrow> Inl e
         | Inr d \<Rightarrow>
             if neg then Inr (int64 (- int64 (int d)))
             else if d > 2 ^ 63 - 1 then Inl (invalid_duration orig)
             else Inr (int d))"

lemma foldl_digits_mono: "x \<le> foldl (\<lambda>n c. 10 * n + digit_value c) x ds"
proof (induction ds arbitrary: x)
  case (Cons d ds)
  have "x \<le> 10 * x + digit_value d" by simp
  also have "\<dots> \<le> foldl (\<lambda>n c. 10 * n + digit_value c) (10 * x + digit_value d) ds" by (rule Cons.IH)
  finally show ?case by simp
qed simp

lemma leadingInt_digits:
  assumes "list_all is_digit ds" and "s = [] \<or> \<not> is_digit (hd s)"
    and "foldl (\<lambda>n c. 10 * n + digit_value c) x ds \<le> 2 ^ 63"
  shows "leadingInt x (ds @ s) = Some (foldl (\<lambda>n c. 10 * n + digit_value c) x ds, s)"
  using assms
proof (induction ds arbitrary: x)
  case Nil
  then show ?case by (cases s) auto
next
  case (Cons d ds)
  have "10 * x + digit_value d \<le> 2 ^ 63"
    using foldl_digits_mono [of "10 * x + digit_value d" ds] Cons.prems(3) by simp
  with Cons.prems Cons.IH [of "10 * x + digit_value d"] show ?case by (simp add: Let_def)
qed

text \<open>Every number of seconds that fits can be written as such.\<close>

lemma ParseDuration_seconds:
  assumes "0 \<le> n" and "n \<le> 9223372036"
  shows "ParseDuration (Itoa n @ ''s'') = Inr (n * second)"
proof -
  let ?ds = "nat_digits (nat n)"
  have ds: "list_all is_digit ?ds" "?ds \<noteq> []" by (simp_all add: nat_digits_all_digits)
  then obtain d ds' where d: "?ds = d # ds'" "is_digit d" by (cases ?ds) auto
  have val: "foldl (\<lambda>n c. 10 * n + digit_value c) 0 ?ds = nat n"
    using digits_value_nat_digits [of "nat n"] by (simp add: digits_value_def)
  have u: "\<not> is_digit CHR ''s''" "\<not> number_char CHR ''s''" by (simp_all add: is_digit_def number_char_def)
  have "nat n \<le> 2 ^ 63" using assms by simp
  then have lead: "leadingInt 0 (d # ds' @ ''s'') = Some (nat n, ''s'')"
    using leadingInt_digits [OF ds(1), of "''s''" 0] u d(1) val by simp
  have "take_unit orig (nat n) 0 1 ''s'' = Inr (nat n * 1000000000, [])" for orig
    using assms u by (simp add: take_unit_def Let_def unitMap_def in_units_def)
  then have "duration_term orig (d # ds' @ ''s'') = Inr (nat n * 1000000000, [])" for orig
    using d(2) lead by (simp add: duration_term_def number_char_def take_fraction_def)
  then have "duration_loop orig 0 (d # ds' @ ''s'') = Inr (nat n * 1000000000)" for orig
    using assms by (simp add: duration_loop.simps [of orig 0] duration_loop.simps [of orig _ "[]"])
  with is_digit_nonsep [OF d(2)] assms show ?thesis
    by (simp add: ParseDuration_def Itoa_def d(1) second_def)
qed

end
