(* ===== verification/Uaa.thy ===== *)
theory Uaa
  imports Go_Time
begin

text \<open>
  Authorization: the token validator and the token fetcher of \<open>uaaclient/\<close>, with the parts of
  \<open>vendor/github.com/golang-jwt/jwt/v4\<close> that decide which checks of a token fail. Decoding a token,
  the RSA keys and the signatures are parameters (\<open>jwt_lib\<close>), and so are the answers of the UAA
  server: the \<open>n\<close>-th request for its key or for a token is answered by a function of \<open>n\<close>.
\<close>

section \<open>Tokens\<close>

text \<open>
  Values of \<open>MapClaims\<close>, as \<open>encoding/json\<close> decodes them: a number is a \<open>float64\<close>, which need not be
  whole.
\<close>

datatype claim = ClaimStr string | ClaimNum rat | ClaimList "claim list" | ClaimOther

datatype SigningMethod = RS256 | RS384 | RS512 | OtherMethod string

record Token =
  tokMethod :: SigningMethod
  tokClaims :: "string \<rightharpoonup> claim"
  tokSigned :: string
  tokSignature :: string

definition ValidationErrorMalformed :: uint32 where "ValidationErrorMalformed = 1"
definition ValidationErrorUnverifiable :: uint32 where "ValidationErrorUnverifiable = 2"
definition ValidationErrorSignatureInvalid :: uint32 where "ValidationErrorSignatureInvalid = 4"
definition ValidationErrorExpired :: uint32 where "ValidationErrorExpired = 16"
definition ValidationErrorIssuedAt :: uint32 where "ValidationErrorIssuedAt = 32"
definition ValidationErrorNotValidYet :: uint32 where "ValidationErrorNotValidYet = 128"

lemmas flag_defs =
  ValidationErrorMalformed_def ValidationErrorUnverifiable_def ValidationErrorSignatureInvalid_def
  ValidationErrorExpired_def ValidationErrorIssuedAt_def ValidationErrorNotValidYet_def

unbundle bit_operations_syntax

text \<open>
  \<open>parseUnverified\<close> decodes a token (or fails with the flags and the text of a validation error),
  \<open>verifies\<close> checks a signature with a key, \<open>rsaKey\<close> reads a PEM encoded RSA key and \<open>pemBlock\<close>
  says whether a text is PEM encoded at all.
\<close>

record jwt_lib =
  parseUnverified :: "string \<Rightarrow> uint32 \<times> string + Token"
  verifies :: "SigningMethod \<Rightarrow> string \<Rightarrow> string \<Rightarrow> string \<Rightarrow> bool"
  rsaKey :: "string \<Rightarrow> go_error + string"
  pemBlock :: "string \<Rightarrow> bool"

section \<open>Claims\<close>

text \<open>
  The instant of a number, in seconds: \<open>Modf\<close> splits off the fraction, whose nanoseconds are cut off
  towards zero, and \<open>Truncate\<close> rounds the instant down to a second. A number beyond 64 bits, whose
  conversion Go leaves to the implementation, is kept as it is.
\<close>

definition newNumericDateFromSeconds :: "rat \<Rightarrow> int" where
  "newNumericDateFromSeconds f =
     (let round = float_to_int f;
          frac = f - of_int round
      in (round * 1000000000 + float_to_int (fl (frac * 1000000000))) div 1000000000)"

definition VerifyExpiresAt :: "(string \<rightharpoonup> claim) \<Rightarrow> int \<Rightarrow> bool" where
  "VerifyExpiresAt m now =
     (case m ''exp'' of
        None \<Rightarrow> True
      | Some (ClaimNum t) \<Rightarrow> if t = 0 then True else now < newNumericDateFromSeconds t
      | Some _ \<Rightarrow> False)"

definition VerifyIssuedAt :: "(string \<rightharpoonup> claim) \<Rightarrow> int \<Rightarrow> bool" where
  "VerifyIssuedAt m now =
     (case m ''iat'' of
        None \<Rightarrow> True
      | Some (ClaimNum t) \<Rightarrow> if t = 0 then True else newNumericDateFromSeconds t \<le> now
      | Some _ \<Rightarrow> False)"

definition VerifyNotBefore :: "(string \<rightharpoonup> claim) \<Rightarrow> int \<Rightarrow> bool" where
  "VerifyNotBefore m now =
     (case m ''nbf'' of
        None \<Rightarrow> True
      | Some (ClaimNum t) \<Rightarrow> if t = 0 then True else newNumericDateFromSeconds t \<le> now
      | Some _ \<Rightarrow> False)"

text \<open>With \<open>required\<close> set, as the program calls it.\<close>

definition VerifyIssuer :: "(string \<rightharpoonup> claim) \<Rightarrow> string \<Rightarrow> bool" where
  "VerifyIssuer m cmp =
     (let iss = (case m ''iss'' of Some (ClaimStr s) \<Rightarrow> s | _ \<Rightarrow> [])
      in if iss = [] then False else iss = cmp)"

definition MapClaims_Valid :: "(string \<rightharpoonup> claim) \<Rightarrow> int \<Rightarrow> go_error option" where
  "MapClaims_Valid m now =
     (let e0 = (0, ''token is invalid'');
          e1 = (if \<not> VerifyExpiresAt m now
                then (fst e0 OR ValidationErrorExpired, ''Token is expired'') else e0);
          e2 = (if \<not> VerifyIssuedAt m now
                then (fst e1 OR ValidationErrorIssuedAt, ''Token used before issued'') else e1);
          e3 = (if \<not> VerifyNotBefore m now
                then (fst e2 OR ValidationErrorNotValidYet, ''Token is not valid yet'') else e2)
      in if fst e3 = 0 then None else Some (JwtValidationError (fst e3) (snd e3)))"

section \<open>The token validator\<close>

record tokenValidator =
  issuer :: string
  uaaPublicKey :: string
  keyAnswers :: "nat \<Rightarrow> go_error + string"
  keyRequests :: nat
  unixTime :: "nat \<Rightarrow> int"
  timeReadings :: nat

definition api_TokenKey :: "(tokenValidator, string) action" where
  "api_TokenKey v =
     ((case keyAnswers v (keyRequests v) of Inl e \<Rightarrow> Fail e | Inr k \<Rightarrow> Ok k),
      v\<lparr>keyRequests := Suc (keyRequests v)\<rparr>)"

definition TimeFunc :: "(tokenValidator, int) action" where
  "TimeFunc v = (Ok (unixTime v (timeReadings v)), v\<lparr>timeReadings := Suc (timeReadings v)\<rparr>)"

text \<open>
  \<open>jwt.Parse\<close>: the token is returned with an error as well, unless it could not be decoded. The clock
  is read for the claims only, after the signature has been verified.
\<close>

definition jwt_Parse ::
    "jwt_lib \<Rightarrow> string \<Rightarrow> (Token \<Rightarrow> go_error + string) \<Rightarrow>
     (tokenValidator, Token option \<times> go_error option) action" where
  "jwt_Parse lib tokenString keyFunc =
     (case parseUnverified lib tokenString of
        Inl (flags, msg) \<Rightarrow> returnE (None, Some (JwtValidationError flags msg))
      | Inr token \<Rightarrow>
          (case keyFunc token of
             Inl (JwtValidationError flags msg) \<Rightarrow> returnE (Some token, Some (JwtValidationError flags msg))
           | Inl err \<Rightarrow>
               returnE (Some token, Some (JwtValidationError ValidationErrorUnverifiable (error_text err)))
           | Inr key \<Rightarrow>
               if \<not> verifies lib (tokMethod token) (tokSigned token) (tokSignature token) key
               then returnE (Some token, Some (JwtValidationError ValidationErrorSignatureInvalid
                                                 ''crypto/rsa: verification error''))
               else bindE TimeFunc (\<lambda>now.
                    returnE (Some token, MapClaims_Valid (tokClaims token) now))))"

definition checkPublicKey :: "jwt_lib \<Rightarrow> string \<Rightarrow> unit go" where
  "checkPublicKey lib key =
     (if \<not> pemBlock lib key then Fail (ErrorString ''public uaa token must be PEM encoded'') else Ok ())"

definition getUaaTokenKey :: "jwt_lib \<Rightarrow> bool \<Rightarrow> (tokenValidator, string) action" where
  "getUaaTokenKey lib forceFetch =
     bindE (getE uaaPublicKey) (\<lambda>cached.
     if cached = [] \<or> forceFetch
     then bindE api_TokenKey (\<lambda>key.
          bindE (liftE (checkPublicKey lib key)) (\<lambda>_.
          bindE (modifyE (uaaPublicKey_update (\<lambda>_. key))) (\<lambda>_.
          returnE key)))
     else returnE cached)"

definition isValidSigningMethod :: "Token \<Rightarrow> bool" where
  "isValidSigningMethod t =
     (case tokMethod t of RS256 \<Rightarrow> True | RS384 \<Rightarrow> True | RS512 \<Rightarrow> True | OtherMethod _ \<Rightarrow> False)"

definition isValidIssuer :: "string \<Rightarrow> Token \<Rightarrow> bool" where
  "isValidIssuer iss t = VerifyIssuer (tokClaims t) iss"

definition keyfunc :: "jwt_lib \<Rightarrow> string \<Rightarrow> string \<Rightarrow> Token \<Rightarrow> go_error + string" where
  "keyfunc lib iss uaaKey t =
     (if \<not> isValidSigningMethod t then Inl (ErrorString ''invalid signing method'')
      else if \<not> isValidIssuer iss t then Inl (ErrorString ''invalid issuer'')
      else rsaKey lib uaaKey)"

definition matchesError :: "go_error \<Rightarrow> uint32 \<Rightarrow> bool" where
  "matchesError err errorType =
     (case err of JwtValidationError flags _ \<Rightarrow> flags AND errorType = errorType | _ \<Rightarrow> False)"

text \<open>
  The loop over \<open>i\<close>, with the number of passes left: it ends with the token and the error that the
  last pass left.
\<close>

primrec decode_loop ::
    "jwt_lib \<Rightarrow> string \<Rightarrow> nat \<Rightarrow> bool \<Rightarrow> Token option \<times> go_error option \<Rightarrow>
     (tokenValidator, Token option \<times> go_error option) action" where
  "decode_loop lib jwtToken 0 forceUaaKeyFetch prev = returnE prev"
| "decode_loop lib jwtToken (Suc n) forceUaaKeyFetch prev =
     bindE (getUaaTokenKey lib forceUaaKeyFetch) (\<lambda>uaaKey.
     bindE (getE issuer) (\<lambda>iss.
     bindE (jwt_Parse lib jwtToken (keyfunc lib iss uaaKey)) (\<lambda>parsed.
     case parsed of
       (token, None) \<Rightarrow> returnE (token, None)
     | (token, Some err) \<Rightarrow>
         if matchesError err ValidationErrorSignatureInvalid
         then decode_loop lib jwtToken n True (token, Some err)
         else if matchesError err ValidationErrorIssuedAt then returnE (token, None)
         else returnE (token, Some err))))"

definition checkTokenFormat :: "string \<Rightarrow> string go" where
  "checkTokenFormat token =
     (case Split token (CHR '' '') of
        [tokenType, userToken] \<Rightarrow>
          if \<not> EqualFold tokenType ''bearer'' then Fail (ErrorString (''Invalid token type: '' @ tokenType))
          else Ok userToken
      | _ \<Rightarrow> Fail (ErrorString ''invalid token format''))"

text \<open>The two type assertions panic if the claim is missing or has another type.\<close>

primrec claim_strings :: "claim list \<Rightarrow> string list go" where
  "claim_strings [] = Ok []"
| "claim_strings (c # cs) =
     (case c of
        ClaimStr s \<Rightarrow> map_go (\<lambda>ss. s # ss) (claim_strings cs)
      | _ \<Rightarrow> Panic ''interface conversion: interface {} is not string'')"

definition extractPermissionsFromToken :: "Token option \<Rightarrow> string list go" where
  "extractPermissionsFromToken token =
     (case token of
        None \<Rightarrow> Panic ''nil pointer dereference''
      | Some t \<Rightarrow>
          (case tokClaims t ''scope'' of
             Some (ClaimList scopes) \<Rightarrow> claim_strings scopes
           | _ \<Rightarrow> Panic ''interface conversion: interface {} is not []interface {}''))"

definition ValidateToken :: "jwt_lib \<Rightarrow> string \<Rightarrow> string list \<Rightarrow> (tokenValidator, unit) action" where
  "ValidateToken lib uaaToken desiredPermissions =
     bindE (liftE (checkTokenFormat uaaToken)) (\<lambda>jwtToken.
     bindE (decode_loop lib jwtToken 2 False (None, None)) (\<lambda>result.
     case result of
       (token, Some err) \<Rightarrow> failE err
     | (token, None) \<Rightarrow>
         bindE (liftE (extractPermissionsFromToken token)) (\<lambda>permissions.
         if list_ex (\<lambda>p. p \<in> set desiredPermissions) permissions then returnE ()
         else failE (ErrorString (''Token does not have '' @ [CHR 0x27] @
                Join desiredPermissions ([CHR 0x27] @ '', '' @ [CHR 0x27]) @ [CHR 0x27] @ '' scope'')))))"

definition noOp_ValidateToken :: "string \<Rightarrow> string list \<Rightarrow> ('u, unit) action" where
  "noOp_ValidateToken uaaToken desiredPermissions = returnE ()"

section \<open>What a valid token is\<close>

text \<open>The library reports a token that cannot be decoded with other flags than the issue date's.\<close>

definition decode_flags_ok :: "jwt_lib \<Rightarrow> bool" where
  "decode_flags_ok lib \<longleftrightarrow>
     (\<forall>s flags msg. parseUnverified lib s = Inl (flags, msg) \<longrightarrow>
        flags = ValidationErrorMalformed \<or> flags = ValidationErrorUnverifiable)"

text \<open>The RSA library reports no JWT validation errors.\<close>

definition key_errors_ok :: "jwt_lib \<Rightarrow> bool" where
  "key_errors_ok lib \<longleftrightarrow> (\<forall>k flags msg. rsaKey lib k \<noteq> Inl (JwtValidationError flags msg))"

definition authentic :: "jwt_lib \<Rightarrow> string \<Rightarrow> string \<Rightarrow> string \<Rightarrow> Token \<Rightarrow> bool" where
  "authentic lib iss uaaKey jwtToken t \<longleftrightarrow>
     parseUnverified lib jwtToken = Inr t \<and> isValidSigningMethod t \<and> isValidIssuer iss t \<and>
     (\<exists>k. rsaKey lib uaaKey = Inr k \<and> verifies lib (tokMethod t) (tokSigned t) (tokSignature t) k)"

text \<open>
  The time checks that are still enforced: all of them, unless the check of the issue date fails,
  which it does for a date in the future and for a claim that is not a number.
\<close>

definition timely :: "Token \<Rightarrow> int \<Rightarrow> bool" where
  "timely t now \<longleftrightarrow>
     \<not> VerifyIssuedAt (tokClaims t) now \<or>
     VerifyExpiresAt (tokClaims t) now \<and> VerifyNotBefore (tokClaims t) now"

lemma MapClaims_Valid_cases:
  "MapClaims_Valid m now = None \<longleftrightarrow>
     VerifyExpiresAt m now \<and> VerifyIssuedAt m now \<and> VerifyNotBefore m now"
  "MapClaims_Valid m now = Some e \<Longrightarrow> \<not> matchesError e ValidationErrorSignatureInvalid"
  "MapClaims_Valid m now = Some e \<Longrightarrow>
     matchesError e ValidationErrorIssuedAt \<longleftrightarrow> \<not> VerifyIssuedAt m now"
  by (auto simp: MapClaims_Valid_def Let_def flag_defs matchesError_def split: if_splits)


text \<open>A pass that ends without an error to act on has verified the signature, then read the clock once.\<close>

lemma jwt_Parse_accepted:
  assumes lib: "decode_flags_ok lib" "key_errors_ok lib"
    and parse: "jwt_Parse lib jwtToken (keyfunc lib iss uaaKey) v = (Ok (token, err), v')"
    and err: "\<And>e. err = Some e \<Longrightarrow>
      \<not> matchesError e ValidationErrorSignatureInvalid \<and> matchesError e ValidationErrorIssuedAt"
  shows "\<exists>t. token = Some t \<and> authentic lib iss uaaKey jwtToken t \<and>
    timely t (unixTime v (timeReadings v)) \<and> v' = v\<lparr>timeReadings := Suc (timeReadings v)\<rparr>"
proof (cases "parseUnverified lib jwtToken")
  case (Inl fm)
  obtain flags msg where fm: "fm = (flags, msg)"
    by (cases fm)
  with Inl lib(1) have "flags = ValidationErrorMalformed \<or> flags = ValidationErrorUnverifiable"
    by (auto simp: decode_flags_ok_def)
  with Inl fm parse err show ?thesis
    by (auto simp: jwt_Parse_def matchesError_def flag_defs)
next
  case (Inr t)
  show ?thesis
  proof (cases "keyfunc lib iss uaaKey t")
    case (Inl e)
    then have "\<nexists>flags msg. e = JwtValidationError flags msg"
      using lib(2) by (auto simp: keyfunc_def key_errors_ok_def split: if_splits)
    with Inl Inr parse err show ?thesis
      by (auto simp: jwt_Parse_def matchesError_def flag_defs split: go_error.splits)
  next
    case key: (Inr k)
    then have k: "isValidSigningMethod t" "isValidIssuer iss t" "rsaKey lib uaaKey = Inr k"
      by (auto simp: keyfunc_def split: if_splits)
    have v: "verifies lib (tokMethod t) (tokSigned t) (tokSignature t) k"
      using Inr key parse err by (auto simp: jwt_Parse_def matchesError_def flag_defs split: if_splits)
    with Inr key parse have p: "token = Some t" "MapClaims_Valid (tokClaims t) (unixTime v (timeReadings v)) = err"
      "v' = v\<lparr>timeReadings := Suc (timeReadings v)\<rparr>"
      by (auto simp: jwt_Parse_def bindE_def TimeFunc_def)
    moreover from p(2) err have "timely t (unixTime v (timeReadings v))"
      by (cases err) (auto simp: timely_def MapClaims_Valid_cases)
    ultimately show ?thesis
      using Inr k v by (auto simp: authentic_def)
  qed
qed

lemma jwt_Parse_total:
  "\<exists>r. jwt_Parse lib jwtToken keyFunc v =
     (Ok r, v) \<or> jwt_Parse lib jwtToken keyFunc v = (Ok r, v\<lparr>timeReadings := Suc (timeReadings v)\<rparr>)"
  by (auto simp: jwt_Parse_def bindE_def TimeFunc_def split: sum.splits go_error.splits)

lemma jwt_Parse_unverified:
  assumes "jwt_Parse lib jwtToken keyFunc v = (Ok (token, Some e), v')"
    and "matchesError e ValidationErrorSignatureInvalid"
  shows "v' = v"
  using assms MapClaims_Valid_cases(2)
  by (auto simp: jwt_Parse_def bindE_def TimeFunc_def split: sum.splits go_error.splits if_splits)

lemma jwt_Parse_authentic:
  assumes "authentic lib iss uaaKey jwtToken t"
  shows "jwt_Parse lib jwtToken (keyfunc lib iss uaaKey) v =
    (Ok (Some t, MapClaims_Valid (tokClaims t) (unixTime v (timeReadings v))),
     v\<lparr>timeReadings := Suc (timeReadings v)\<rparr>)"
  using assms by (auto simp: authentic_def keyfunc_def jwt_Parse_def bindE_def TimeFunc_def)

text \<open>What the loop does to the validator's state, pass by pass.\<close>

lemma getUaaTokenKey_result:
  assumes "getUaaTokenKey lib force v = (x, v')"
  shows "issuer v' = issuer v \<and> unixTime v' = unixTime v \<and> timeReadings v' = timeReadings v \<and>
    keyRequests v' \<le> Suc (keyRequests v) \<and>
    (\<not> force \<and> uaaPublicKey v \<noteq> [] \<longrightarrow> v' = v \<and> x = Ok (uaaPublicKey v)) \<and>
    (\<forall>k. x = Ok k \<longrightarrow> uaaPublicKey v' = k) \<and> (\<forall>p. x \<noteq> Panic p)"
  using assms
  by (auto simp: getUaaTokenKey_def bindE_def api_TokenKey_def checkPublicKey_def
      split: sum.splits if_splits)

lemma decode_loop_accepted:
  assumes lib: "decode_flags_ok lib" "key_errors_ok lib"
  shows "decode_loop lib jwtToken n force prev v = (Ok (token, None), v') \<Longrightarrow> snd prev \<noteq> None \<or> 0 < n \<Longrightarrow>
    timeReadings v' = Suc (timeReadings v) \<and>
    (\<exists>t. token = Some t \<and> authentic lib (issuer v) (uaaPublicKey v') jwtToken t \<and>
      timely t (unixTime v (timeReadings v)))"
proof (induction n arbitrary: force prev v)
  case 0
  then show ?case by simp
next
  case (Suc n)
  obtain x v1 where g: "getUaaTokenKey lib force v = (x, v1)"
    by (cases "getUaaTokenKey lib force v")
  note gr = getUaaTokenKey_result [OF g]
  with g Suc.prems obtain k where x: "x = Ok k"
    by (cases x) (auto simp: bindE_def)
  with gr have v1: "issuer v1 = issuer v" "unixTime v1 = unixTime v" "timeReadings v1 = timeReadings v"
    "uaaPublicKey v1 = k"
    by auto
  obtain tok err v2 where p: "jwt_Parse lib jwtToken (keyfunc lib (issuer v) k) v1 = (Ok (tok, err), v2)"
    using jwt_Parse_total [of lib jwtToken "keyfunc lib (issuer v) k" v1] by fastforce
  consider (again) e where "err = Some e" "matchesError e ValidationErrorSignatureInvalid"
    | (ok) "\<And>e. err = Some e \<Longrightarrow> \<not> matchesError e ValidationErrorSignatureInvalid \<and>
        matchesError e ValidationErrorIssuedAt"
    | (refused) e where "err = Some e" "\<not> matchesError e ValidationErrorSignatureInvalid"
        "\<not> matchesError e ValidationErrorIssuedAt"
    by (cases err) auto
  then show ?case
  proof cases
    case again
    with p have "v2 = v1" using jwt_Parse_unverified by blast
    with again Suc.prems g x p v1 have "decode_loop lib jwtToken n True (tok, Some e) v1 = (Ok (token, None), v')"
      by (simp add: bindE_def)
    from Suc.IH [OF this] v1 show ?thesis
      by simp
  next
    case ok
    with Suc.prems g x p v1 have "token = tok" "v' = v2"
      by (cases err; simp add: bindE_def)+
    with jwt_Parse_accepted [OF lib p ok] v1 show ?thesis
      by auto
  next
    case refused
    with Suc.prems g x p v1 show ?thesis
      by (simp add: bindE_def)
  qed
qed

text \<open>A pass touches the validator's key and its requests in \<open>getUaaTokenKey\<close> only.\<close>

lemma jwt_Parse_keeps:
  "jwt_Parse lib jwtToken keyFunc v = (x, v') \<Longrightarrow>
   keyRequests v' = keyRequests v \<and> uaaPublicKey v' = uaaPublicKey v"
  using jwt_Parse_total [of lib jwtToken keyFunc v] by auto

lemma decode_loop_requests:
  "decode_loop lib jwtToken n force prev v = (x, v') \<Longrightarrow> keyRequests v' \<le> keyRequests v + n"
proof (induction n arbitrary: force prev v)
  case (Suc n)
  obtain y v1 where g: "getUaaTokenKey lib force v = (y, v1)"
    by (cases "getUaaTokenKey lib force v")
  have "keyRequests v1 \<le> Suc (keyRequests v)"
    using getUaaTokenKey_result [OF g] by simp
  with Suc.prems g show ?case
    by (fastforce simp: bindE_def dest!: Suc.IH jwt_Parse_keeps split: go.splits prod.splits option.splits if_splits)
qed simp

lemma claim_strings_Ok: "claim_strings cs = Ok ss \<Longrightarrow> cs = map ClaimStr ss"
proof (induction cs arbitrary: ss)
  case (Cons c cs)
  then show ?case
    by (cases c; cases "claim_strings cs") auto
qed simp

lemma ValidateToken_accepted:
  assumes lib: "decode_flags_ok lib" "key_errors_ok lib"
    and run: "ValidateToken lib uaaToken desired v = (Ok (), v')"
  shows "timeReadings v' = Suc (timeReadings v) \<and>
    (\<exists>tokenType jwtToken t scopes p.
      uaaToken = tokenType @ '' '' @ jwtToken \<and> EqualFold tokenType ''bearer'' \<and>
      authentic lib (issuer v) (uaaPublicKey v') jwtToken t \<and>
      timely t (unixTime v (timeReadings v)) \<and>
      tokClaims t ''scope'' = Some (ClaimList (map ClaimStr scopes)) \<and>
      p \<in> set scopes \<and> p \<in> set desired)"
proof -
  from run obtain jwtToken where f: "checkTokenFormat uaaToken = Ok jwtToken"
    and run1: "bindE (decode_loop lib jwtToken 2 False (None, None)) (\<lambda>(token, err).
      case err of Some e \<Rightarrow> failE e | None \<Rightarrow>
        bindE (liftE (extractPermissionsFromToken token)) (\<lambda>permissions.
          if list_ex (\<lambda>p. p \<in> set desired) permissions then returnE ()
          else failE (ErrorString (''Token does not have '' @ [CHR 0x27] @
                Join desired ([CHR 0x27] @ '', '' @ [CHR 0x27]) @ [CHR 0x27] @ '' scope''))))
      v = (Ok (), v')"
    by (auto simp: ValidateToken_def bindE_def split: go.splits prod.splits option.splits)
  obtain token where d: "decode_loop lib jwtToken 2 False (None, None) v = (Ok (token, None), v')"
    and e: "\<exists>ss. extractPermissionsFromToken token = Ok ss \<and> list_ex (\<lambda>p. p \<in> set desired) ss"
    using run1 by (auto simp: bindE_def split: go.splits prod.splits option.splits if_splits)
  from decode_loop_accepted [OF lib d] obtain t where t: "token = Some t"
    "authentic lib (issuer v) (uaaPublicKey v') jwtToken t" "timely t (unixTime v (timeReadings v))"
    "timeReadings v' = Suc (timeReadings v)"
    by auto
  from f obtain tokenType where "Split uaaToken (CHR '' '') = [tokenType, jwtToken]"
    "EqualFold tokenType ''bearer''"
    by (auto simp: checkTokenFormat_def split: list.splits if_splits)
  moreover from this(1) have "uaaToken = tokenType @ '' '' @ jwtToken"
    using Join_Split [of uaaToken "CHR '' ''"] by simp
  moreover from e t(1) obtain ss where "tokClaims t ''scope'' = Some (ClaimList (map ClaimStr ss))"
    "list_ex (\<lambda>p. p \<in> set desired) ss"
    by (auto simp: extractPermissionsFromToken_def split: option.splits claim.splits dest!: claim_strings_Ok)
  ultimately show ?thesis
    using t(2-4) unfolding list_ex_iff by blast
qed

section \<open>Who is let in\<close>

text \<open>
  A library with one token and one key, which the validator has cached.
\<close>

definition ex_token :: "rat \<Rightarrow> rat \<Rightarrow> (string \<rightharpoonup> claim) \<Rightarrow> Token" where
  "ex_token iat expiry scope =
     \<lparr>tokMethod = RS256,
      tokClaims = scope(''iss'' \<mapsto> ClaimStr ''uaa'', ''iat'' \<mapsto> ClaimNum iat, ''exp'' \<mapsto> ClaimNum expiry),
      tokSigned = ''body'', tokSignature = ''sig''\<rparr>"

definition ex_lib :: "Token \<Rightarrow> jwt_lib" where
  "ex_lib t =
     \<lparr>parseUnverified = (\<lambda>s. if s = ''jwt'' then Inr t else Inl (ValidationErrorMalformed, ''malformed'')),
      verifies = (\<lambda>m signed sig k. signed = ''body'' \<and> sig = ''sig'' \<and> k = ''rsa''),
      rsaKey = (\<lambda>k. if k = ''pem'' then Inr ''rsa'' else Inl (ErrorString ''bad key'')),
      pemBlock = (\<lambda>k. k = ''pem'')\<rparr>"

definition ex_validator :: tokenValidator where
  "ex_validator =
     \<lparr>issuer = ''uaa'', uaaPublicKey = ''pem'', keyAnswers = (\<lambda>_. Inr ''pem''), keyRequests = 0,
      unixTime = (\<lambda>n. 1000 + int n), timeReadings = 0\<rparr>"

lemma ex_lib_ok [simp]: "decode_flags_ok (ex_lib t)" "key_errors_ok (ex_lib t)"
  by (auto simp: decode_flags_ok_def key_errors_ok_def ex_lib_def split: if_splits)

lemma decode_loop_twice:
  "decode_loop lib jwtToken 2 force prev = decode_loop lib jwtToken (Suc (Suc 0)) force prev"
  by (simp add: numeral_2_eq_2)

lemma newNumericDate_whole: "newNumericDateFromSeconds (of_int n) = n"
  by (simp add: newNumericDateFromSeconds_def float_to_int_def)

lemma newNumericDate_simps [simp]:
  "newNumericDateFromSeconds 0 = 0" "newNumericDateFromSeconds 1 = 1"
  "newNumericDateFromSeconds (numeral n) = numeral n"
  using newNumericDate_whole [of 0] newNumericDate_whole [of 1] newNumericDate_whole [of "numeral n"]
  by simp_all

lemmas token_eval = decode_loop_twice
  ValidateToken_def checkTokenFormat_def EqualFold_def getUaaTokenKey_def TimeFunc_def jwt_Parse_def
  keyfunc_def isValidSigningMethod_def isValidIssuer_def VerifyIssuer_def MapClaims_Valid_def
  VerifyExpiresAt_def VerifyIssuedAt_def VerifyNotBefore_def matchesError_def
  extractPermissionsFromToken_def ex_token_def ex_lib_def ex_validator_def bindE_def flag_defs Let_def

text \<open>
  (C7) A request is let in only with a bearer token that the issuer signed with the key the validator
  holds afterwards, by one of the three RSA methods, and which grants one of the scopes asked for.
  The validator then read the clock exactly once, and at that time the token had not expired and was
  valid already, unless the check of its issue date failed: the error of that check, for a date in
  the future or not a number, is dropped together with the others.
\<close>

theorem ValidateToken_sound:
  assumes "decode_flags_ok lib" and "key_errors_ok lib"
    and "ValidateToken lib uaaToken desired v = (Ok (), v')"
  shows "timeReadings v' = Suc (timeReadings v) \<and>
    (\<exists>tokenType jwtToken t scopes p.
      uaaToken = tokenType @ '' '' @ jwtToken \<and> EqualFold tokenType ''bearer'' \<and>
      authentic lib (issuer v) (uaaPublicKey v') jwtToken t \<and>
      timely t (unixTime v (timeReadings v)) \<and>
      tokClaims t ''scope'' = Some (ClaimList (map ClaimStr scopes)) \<and>
      p \<in> set scopes \<and> p \<in> set desired)"
  using ValidateToken_accepted [OF assms] .

lemma ex_token_accepted:
  "fst (ValidateToken (ex_lib (ex_token 900 2000 [''scope'' \<mapsto> ClaimList [ClaimStr ''routing.routes.read'']]))
     ''bearer jwt'' [''routing.routes.read''] ex_validator) = Ok ()"
  by (simp add: token_eval)

theorem ValidateToken_sound_witness:
  "\<exists>t. authentic (ex_lib (ex_token 900 2000 [''scope'' \<mapsto> ClaimList [ClaimStr ''routing.routes.read'']]))
      ''uaa'' (uaaPublicKey (snd (ValidateToken
        (ex_lib (ex_token 900 2000 [''scope'' \<mapsto> ClaimList [ClaimStr ''routing.routes.read'']]))
        ''bearer jwt'' [''routing.routes.read''] ex_validator))) ''jwt'' t \<and> timely t 1000"
proof -
  have "issuer ex_validator = ''uaa''" "unixTime ex_validator (timeReadings ex_validator) = 1000"
    by (simp_all add: ex_validator_def)
  moreover have "jwt = ''jwt''" if "''bearer jwt'' = ty @ '' '' @ jwt" "EqualFold ty ''bearer''" for ty jwt
  proof -
    have "length ty = 6" using that(2) by (auto simp: EqualFold_def dest: map_eq_imp_length_eq)
    with that(1) show ?thesis by (auto simp: append_eq_append_conv2 length_Suc_conv numeral_eq_Suc)
  qed
  ultimately show ?thesis
    using ValidateToken_sound [OF ex_lib_ok, of _ "''bearer jwt''" "[''routing.routes.read'']" ex_validator "snd _"]
      ex_token_accepted by (metis prod.collapse)
qed

text \<open>What the validator does with an authentic token, once its time claims are checked.\<close>

lemma decode_loop_authentic:
  assumes "uaaPublicKey v \<noteq> []" and "authentic lib (issuer v) (uaaPublicKey v) jwtToken t"
    and "timely t (unixTime v (timeReadings v))"
  shows "decode_loop lib jwtToken 2 False prev v =
    (Ok (Some t, None), v\<lparr>timeReadings := Suc (timeReadings v)\<rparr>)"
proof (cases "MapClaims_Valid (tokClaims t) (unixTime v (timeReadings v))")
  case None
  with assms show ?thesis
    by (simp add: decode_loop_twice bindE_def getUaaTokenKey_def jwt_Parse_authentic)
next
  case (Some e)
  then have "\<not> VerifyIssuedAt (tokClaims t) (unixTime v (timeReadings v))"
    using assms(3) MapClaims_Valid_cases(1) [of "tokClaims t" "unixTime v (timeReadings v)"]
    by (auto simp: timely_def)
  with Some MapClaims_Valid_cases(2,3) [OF Some] assms show ?thesis
    by (simp add: decode_loop_twice bindE_def getUaaTokenKey_def jwt_Parse_authentic)
qed

lemma claim_strings_map: "claim_strings (map ClaimStr scopes) = Ok scopes"
  by (induction scopes) simp_all

lemma claim_strings_panic: "is_panic (claim_strings cs) \<longleftrightarrow> (\<nexists>scopes. cs = map ClaimStr scopes)"
proof (induction cs)
  case (Cons c cs)
  then show ?case
    by (cases c; cases "claim_strings cs") (auto simp: Cons_eq_map_conv claim_strings_map dest: claim_strings_Ok)
qed simp

lemma ValidateToken_authentic:
  assumes "checkTokenFormat uaaToken = Ok jwtToken" and "uaaPublicKey v \<noteq> []"
    and "authentic lib (issuer v) (uaaPublicKey v) jwtToken t"
    and "timely t (unixTime v (timeReadings v))"
  shows "tokClaims t ''scope'' = Some (ClaimList (map ClaimStr scopes)) \<Longrightarrow> set scopes \<inter> set desired \<noteq> {} \<Longrightarrow>
      ValidateToken lib uaaToken desired v = (Ok (), v\<lparr>timeReadings := Suc (timeReadings v)\<rparr>)"
    and "\<nexists>scopes. tokClaims t ''scope'' = Some (ClaimList (map ClaimStr scopes)) \<Longrightarrow>
      is_panic (fst (ValidateToken lib uaaToken desired v))"
proof -
  note run = assms(1) decode_loop_authentic [OF assms(2-4)] ValidateToken_def bindE_def
  show "ValidateToken lib uaaToken desired v = (Ok (), v\<lparr>timeReadings := Suc (timeReadings v)\<rparr>)"
    if "tokClaims t ''scope'' = Some (ClaimList (map ClaimStr scopes))" "set scopes \<inter> set desired \<noteq> {}"
  proof -
    have "list_ex (\<lambda>p. p \<in> set desired) scopes"
      using that(2) by (auto simp: list_ex_iff)
    with that(1) show ?thesis
      by (simp add: run extractPermissionsFromToken_def claim_strings_map)
  qed
  assume "\<nexists>scopes. tokClaims t ''scope'' = Some (ClaimList (map ClaimStr scopes))"
  then have "is_panic (extractPermissionsFromToken (Some t))"
    by (auto simp: extractPermissionsFromToken_def claim_strings_panic split: option.splits claim.splits)
  then show "is_panic (fst (ValidateToken lib uaaToken desired v))"
    by (cases "extractPermissionsFromToken (Some t)") (simp_all add: run)
qed

text \<open>
  (C8) Conversely, a token that the issuer signed with the cached key, whose time claims all hold
  now and which grants one of the scopes, is accepted without a request to the UAA server.
\<close>

theorem ValidateToken_complete:
  assumes "checkTokenFormat uaaToken = Ok jwtToken" and "uaaPublicKey v \<noteq> []"
    and "authentic lib (issuer v) (uaaPublicKey v) jwtToken t"
    and "MapClaims_Valid (tokClaims t) (unixTime v (timeReadings v)) = None"
    and "tokClaims t ''scope'' = Some (ClaimList (map ClaimStr scopes))"
    and "set scopes \<inter> set desired \<noteq> {}"
  shows "ValidateToken lib uaaToken desired v = (Ok (), v\<lparr>timeReadings := Suc (timeReadings v)\<rparr>)"
  using assms ValidateToken_authentic(1) [OF assms(1-3)] by (simp add: timely_def MapClaims_Valid_cases)

theorem ValidateToken_complete_witness:
  "fst (ValidateToken (ex_lib (ex_token 900 2000 [''scope'' \<mapsto> ClaimList [ClaimStr ''s'']]))
     ''Bearer jwt'' [''r'', ''s''] ex_validator) = Ok ()"
proof -
  let ?t = "ex_token 900 2000 [''scope'' \<mapsto> ClaimList [ClaimStr ''s'']]"
  have "checkTokenFormat ''Bearer jwt'' = Ok ''jwt''"
    by (simp add: checkTokenFormat_def EqualFold_def lower_ascii_def char_of_def
        bit_Suc_0_iff)
  moreover have "uaaPublicKey ex_validator \<noteq> []"
      "authentic (ex_lib ?t) (issuer ex_validator) (uaaPublicKey ex_validator) ''jwt'' ?t"
      "MapClaims_Valid (tokClaims ?t) (unixTime ex_validator (timeReadings ex_validator)) = None"
      "tokClaims ?t ''scope'' = Some (ClaimList (map ClaimStr [''s'']))"
      "set [''s''] \<inter> set [''r'', ''s''] \<noteq> {}"
    by (simp_all add: authentic_def token_eval)
  ultimately show ?thesis
    using ValidateToken_complete [of "''Bearer jwt''" "''jwt''" ex_validator "ex_lib ?t" ?t "[''s'']" "[''r'', ''s'']"]
    by simp
qed

lemma getUaaTokenKey_key:
  assumes "getUaaTokenKey lib force v = (x, v')"
  shows "uaaPublicKey v' = uaaPublicKey v \<or> pemBlock lib (uaaPublicKey v')"
  using assms
  by (auto simp: getUaaTokenKey_def bindE_def api_TokenKey_def checkPublicKey_def
      split: sum.splits if_splits)

lemma decode_loop_key:
  "decode_loop lib jwtToken n force prev v = (x, v') \<Longrightarrow>
   uaaPublicKey v' = uaaPublicKey v \<or> pemBlock lib (uaaPublicKey v')"
proof (induction n arbitrary: force prev v)
  case (Suc n)
  obtain y v1 where g: "getUaaTokenKey lib force v = (y, v1)"
    by (cases "getUaaTokenKey lib force v")
  from getUaaTokenKey_key [OF this] Suc.prems g show ?case
    by (fastforce simp: bindE_def dest!: Suc.IH jwt_Parse_keeps split: go.splits prod.splits option.splits if_splits)
qed simp

text \<open>
  Validating a token terminates with at most two requests for the key to the UAA server, and
  whatever the outcome, the key the validator holds afterwards is the one it held or one that is PEM
  encoded.
\<close>

theorem ValidateToken_key_requests:
  assumes "ValidateToken lib uaaToken desired v = (x, v')"
  shows "keyRequests v' \<le> keyRequests v + 2 \<and>
    (uaaPublicKey v' = uaaPublicKey v \<or> pemBlock lib (uaaPublicKey v'))"
proof -
  from assms consider "v' = v"
    | jwtToken y where "decode_loop lib jwtToken 2 False (None, None) v = (y, v')"
    by (auto simp: ValidateToken_def bindE_def split: go.splits prod.splits option.splits if_splits)
  then show ?thesis
    by cases (auto dest: decode_loop_requests decode_loop_key)
qed

theorem ValidateToken_key_requests_witness:
  "keyRequests (snd (ValidateToken (ex_lib (ex_token 900 2000 Map.empty)) ''bearer jwt'' [] ex_validator)) \<le> 2"
  using ValidateToken_key_requests [OF prod.collapse [symmetric],
      of "ex_lib (ex_token 900 2000 Map.empty)" "''bearer jwt''" "[]" ex_validator]
  by (simp add: ex_validator_def)

text \<open>
  (C40) The check of the issue date is waived by dropping the whole validation error. So a token that
  the issuer signed with the cached key and whose issue date is in the future, or is not a number,
  is accepted for one of its scopes whatever its other time claims say, an expiry in the past
  included. And a signed token whose time claims hold but which has no list of texts as its scope
  makes the validator panic instead of being refused.
\<close>

theorem ValidateToken_gaps:
  assumes "checkTokenFormat uaaToken = Ok jwtToken" and "uaaPublicKey v \<noteq> []"
    and "authentic lib (issuer v) (uaaPublicKey v) jwtToken t"
    and "now = unixTime v (timeReadings v)"
  shows "(\<not> VerifyIssuedAt (tokClaims t) now \<and>
      tokClaims t ''scope'' = Some (ClaimList (map ClaimStr scopes)) \<and> set scopes \<inter> set desired \<noteq> {} \<longrightarrow>
      fst (ValidateToken lib uaaToken desired v) = Ok ()) \<and>
    (MapClaims_Valid (tokClaims t) now = None \<and>
      (\<nexists>scopes. tokClaims t ''scope'' = Some (ClaimList (map ClaimStr scopes))) \<longrightarrow>
      is_panic (fst (ValidateToken lib uaaToken desired v)))"
  using ValidateToken_authentic [OF assms(1-3)] unfolding assms(4)
  by (simp add: timely_def MapClaims_Valid_cases)

lemma ex_authentic:
  "authentic (ex_lib (ex_token iat expiry scope)) (issuer ex_validator) (uaaPublicKey ex_validator) ''jwt''
     (ex_token iat expiry scope)"
  "checkTokenFormat ''bearer jwt'' = Ok ''jwt''" "uaaPublicKey ex_validator \<noteq> []"
  "unixTime ex_validator (timeReadings ex_validator) = 1000"
  by (simp_all add: authentic_def token_eval)

theorem ValidateToken_gaps_witness:
  "\<not> VerifyExpiresAt (tokClaims (ex_token 1001 10 [''scope'' \<mapsto> ClaimList [ClaimStr ''s'']])) 1000 \<and>
   fst (ValidateToken (ex_lib (ex_token 1001 10 [''scope'' \<mapsto> ClaimList [ClaimStr ''s'']]))
     ''bearer jwt'' [''s''] ex_validator) = Ok () \<and>
   is_panic (fst (ValidateToken (ex_lib (ex_token 900 2000 Map.empty)) ''bearer jwt'' [''s''] ex_validator))"
proof -
  let ?t = "ex_token 1001 10 [''scope'' \<mapsto> ClaimList [ClaimStr ''s'']]" and ?u = "ex_token 900 2000 Map.empty"
  have t: "\<not> VerifyExpiresAt (tokClaims ?t) 1000" "\<not> VerifyIssuedAt (tokClaims ?t) 1000"
    "tokClaims ?t ''scope'' = Some (ClaimList (map ClaimStr [''s'']))"
    by (simp_all add: token_eval)
  have u: "MapClaims_Valid (tokClaims ?u) 1000 = None" "tokClaims ?u ''scope'' = None"
    by (simp_all add: token_eval)
  note gap = ValidateToken_gaps [OF ex_authentic(2,3,1) ex_authentic(4) [symmetric], of _ _ _ "[''s'']" "[''s'']"]
  have "fst (ValidateToken (ex_lib ?t) ''bearer jwt'' [''s''] ex_validator) = Ok ()"
    using gap t(2,3) by simp
  moreover have "is_panic (fst (ValidateToken (ex_lib ?u) ''bearer jwt'' [''s''] ex_validator))"
    using gap u by simp
  ultimately show ?thesis using t(1) by blast
qed

end
