(* ===== verification/Token_Fetcher.thy ===== *)
theory Token_Fetcher
  imports Prelude
begin

text \<open>
  The client-side token cache of \<open>uaaclient/token_fetcher.go\<close>. The answers of the UAA server to
  \<open>api.Token\<close> are a function of the number of requests made; a pause between two attempts is counted.
\<close>

record oauth2_token =
  accessToken :: string
  tokenExpiry :: time

record tokenFetcher =
  cachedToken :: "oauth2_token option"
  refetchTokenTime :: time
  maxNumberOfRetries :: nat
  expirationBufferInSec :: int
  tokenAnswers :: "nat \<Rightarrow> oauth2_token option \<times> go_error option"
  tokenRequests :: nat
  fetcherClock :: "nat \<Rightarrow> time"
  fetcherTicks :: nat
  pauses :: nat

definition api_Token :: "(tokenFetcher, oauth2_token option \<times> go_error option) action" where
  "api_Token c = (Ok (tokenAnswers c (tokenRequests c)), c\<lparr>tokenRequests := Suc (tokenRequests c)\<rparr>)"

text \<open>The cached token is asked for its age only if there is one.\<close>

definition canReturnCachedToken :: "(tokenFetcher, bool) action" where
  "canReturnCachedToken c =
     (if cachedToken c = None then (Ok False, c)
      else (Ok (fetcherClock c (fetcherTicks c) < refetchTokenTime c),
            c\<lparr>fetcherTicks := Suc (fetcherTicks c)\<rparr>))"

definition updateCachedToken :: "oauth2_token \<Rightarrow> (tokenFetcher, unit) action" where
  "updateCachedToken token =
     modifyE (\<lambda>c. c\<lparr>cachedToken := Some token,
       refetchTokenTime := tokenExpiry token + int64 (int64 (- 1 * expirationBufferInSec c) * second)\<rparr>)"

text \<open>The loop, with the number of retries left. A token is taken even if an error comes with it.\<close>

primrec fetch_loop :: "nat \<Rightarrow> (tokenFetcher, oauth2_token option \<times> go_error option) action" where
  "fetch_loop 0 =
     bindE api_Token (\<lambda>answer. case answer of
        (Some token, err) \<Rightarrow> bindE (updateCachedToken token) (\<lambda>_. returnE (Some token, err))
      | (None, err) \<Rightarrow> returnE (None, err))"
| "fetch_loop (Suc n) =
     bindE api_Token (\<lambda>answer. case answer of
        (Some token, err) \<Rightarrow> bindE (updateCachedToken token) (\<lambda>_. returnE (Some token, err))
      | (None, err) \<Rightarrow> bindE (modifyE (\<lambda>c. c\<lparr>pauses := Suc (pauses c)\<rparr>)) (\<lambda>_. fetch_loop n))"

definition FetchToken :: "bool \<Rightarrow> (tokenFetcher, oauth2_token option \<times> go_error option) action" where
  "FetchToken forceUpdate =
     bindE (if forceUpdate then returnE False else canReturnCachedToken) (\<lambda>cached.
     if cached then bindE (getE cachedToken) (\<lambda>token. returnE (token, None))
     else bindE (getE maxNumberOfRetries) fetch_loop)"

section \<open>Requests and results\<close>

text \<open>The first answer with a token, within the attempts allowed.\<close>

lemma fetch_loop_result:
  assumes "fetch_loop n c = (x, c')"
  shows "\<exists>k\<le>n. tokenRequests c' = tokenRequests c + Suc k \<and> pauses c' = pauses c + k \<and>
    (\<forall>i<k. fst (tokenAnswers c (tokenRequests c + i)) = None) \<and>
    x = Ok (tokenAnswers c (tokenRequests c + k)) \<and>
    (case fst (tokenAnswers c (tokenRequests c + k)) of
       None \<Rightarrow> k = n \<and> cachedToken c' = cachedToken c
     | Some t \<Rightarrow> cachedToken c' = Some t \<and>
         refetchTokenTime c' = tokenExpiry t + int64 (int64 (- expirationBufferInSec c) * second))"
  using assms
proof (induction n arbitrary: c)
  case 0
  then show ?case
    by (cases "tokenAnswers c (tokenRequests c)")
      (auto simp: bindE_def api_Token_def updateCachedToken_def split: option.splits)
next
  case (Suc n)
  obtain tok err where a: "tokenAnswers c (tokenRequests c) = (tok, err)"
    by (cases "tokenAnswers c (tokenRequests c)")
  show ?case
  proof (cases tok)
    case None
    let ?c = "c\<lparr>tokenRequests := Suc (tokenRequests c), pauses := Suc (pauses c)\<rparr>"
    have "fetch_loop n ?c = (x, c')"
      using Suc.prems None a by (simp add: bindE_def api_Token_def)
    from Suc.IH [OF this] obtain k where k: "k \<le> n"
      "tokenRequests c' = Suc (tokenRequests c + Suc k)" "pauses c' = Suc (pauses c + k)"
      "\<forall>i<k. fst (tokenAnswers c (Suc (tokenRequests c + i))) = None"
      "x = Ok (tokenAnswers c (Suc (tokenRequests c + k)))"
      "case fst (tokenAnswers c (Suc (tokenRequests c + k))) of
         None \<Rightarrow> k = n \<and> cachedToken c' = cachedToken c
       | Some t \<Rightarrow> cachedToken c' = Some t \<and>
           refetchTokenTime c' = tokenExpiry t + int64 (int64 (- expirationBufferInSec c) * second)"
      by (auto split: option.splits)
    moreover have "\<forall>i<Suc k. fst (tokenAnswers c (tokenRequests c + i)) = None"
      using k(4) a None by (auto simp: less_Suc_eq_0_disj)
    ultimately show ?thesis
      by (intro exI [of _ "Suc k"]) (auto split: option.splits)
  next
    case (Some t)
    with Suc.prems a show ?thesis
      by (intro exI [of _ 0]) (auto simp: bindE_def api_Token_def updateCachedToken_def)
  qed
qed

text \<open>
  (C37) \<open>FetchToken\<close> gives the cached token without a request exactly while it is not asked for a new
  one and the cached one is not due for renewal. Otherwise it makes at most one request more than
  the retries allowed, with a pause between each two, returns the first answer with a token and
  caches it until \<open>expirationBufferInSec\<close> before it expires, or returns the last answer and keeps
  the cache.
\<close>

theorem FetchToken_result:
  assumes "FetchToken forceUpdate c = (x, c')"
    and "usable = (\<not> forceUpdate \<and> cachedToken c \<noteq> None \<and> fetcherClock c (fetcherTicks c) < refetchTokenTime c)"
  shows "if usable
    then x = Ok (cachedToken c, None) \<and> tokenRequests c' = tokenRequests c \<and> cachedToken c' = cachedToken c
    else \<exists>k\<le>maxNumberOfRetries c.
      tokenRequests c' = tokenRequests c + Suc k \<and> pauses c' = pauses c + k \<and>
      (\<forall>i<k. fst (tokenAnswers c (tokenRequests c + i)) = None) \<and>
      x = Ok (tokenAnswers c (tokenRequests c + k)) \<and>
      (case fst (tokenAnswers c (tokenRequests c + k)) of
         None \<Rightarrow> k = maxNumberOfRetries c \<and> cachedToken c' = cachedToken c
       | Some t \<Rightarrow> cachedToken c' = Some t \<and>
           refetchTokenTime c' = tokenExpiry t + int64 (int64 (- expirationBufferInSec c) * second))"
proof (cases "forceUpdate \<or> cachedToken c = None")
  case True
  then have "fetch_loop (maxNumberOfRetries c) c = (x, c')"
    using assms(1) by (auto simp: FetchToken_def canReturnCachedToken_def bindE_def split: if_splits)
  from fetch_loop_result [OF this] True assms(2) show ?thesis by auto
next
  case False
  let ?c = "c\<lparr>fetcherTicks := Suc (fetcherTicks c)\<rparr>"
  show ?thesis
  proof (cases usable)
    case True
    with False assms show ?thesis
      by (auto simp: FetchToken_def canReturnCachedToken_def bindE_def)
  next
    case stale: False
    with False assms have "fetch_loop (maxNumberOfRetries c) ?c = (x, c')"
      by (auto simp: FetchToken_def canReturnCachedToken_def bindE_def)
    from fetch_loop_result [OF this] stale show ?thesis by (simp cong: option.case_cong)
  qed
qed

definition ex_fetcher :: tokenFetcher where
  "ex_fetcher =
     \<lparr>cachedToken = None, refetchTokenTime = 0, maxNumberOfRetries = 3, expirationBufferInSec = 30,
      tokenAnswers = (\<lambda>n. if n < 2 then (None, Some (ErrorString ''down'')) else (Some \<lparr>accessToken = ''a'', tokenExpiry = 100000000000\<rparr>, None)),
      tokenRequests = 0, fetcherClock = int, fetcherTicks = 0, pauses = 0\<rparr>"

theorem FetchToken_result_witness:
  "\<exists>k\<le>3. tokenRequests (snd (FetchToken False ex_fetcher)) = Suc k \<and>
     fst (FetchToken False ex_fetcher) = Ok (tokenAnswers ex_fetcher k)"
  using FetchToken_result [OF prod.collapse [symmetric] refl, of False ex_fetcher]
  by (auto simp: ex_fetcher_def)

end
