(* ===== verification/Config.thy ===== *)
theory Config
  imports Router_Groups Go_Time
begin

text \<open>
  The configuration of the server: \<open>config/config.go\<close>. The YAML decoder and the file system are
  parameters; the package variables of \<open>models\<close> that \<open>validate\<close> sets are the state.
\<close>

section \<open>The configuration\<close>

record MetronConfig =
  mcAddress :: string
  mcPort :: string

record OAuthConfig =
  oaTokenEndpoint :: string
  oaPort :: uint16
  oaSkipSSLValidation :: bool
  oaClientName :: string
  oaClientSecret :: string
  oaCACerts :: string

record SqlDB_config =
  sqHost :: string
  sqPort :: uint16
  sqSchema :: string
  sqType :: string
  sqUsername :: string
  sqPassword :: string
  sqCACert :: string
  sqSkipSSLValidation :: bool
  sqSkipHostnameValidation :: bool
  sqMaxIdleConns :: int
  sqMaxOpenConns :: int
  sqConnMaxLifetime :: int

record APIConfig =
  apListenPort :: uint16
  apHTTPEnabled :: bool
  apMTLSListenPort :: uint16
  apMTLSClientCAPath :: string
  apMTLSServerCertPath :: string
  apMTLSServerKeyPath :: string

record ClientLocketConfig =
  lcLocketAddress :: string
  lcLocketCACertFile :: string
  lcLocketClientCertFile :: string
  lcLocketClientKeyFile :: string
  lcLocketClientKeepAliveTime :: int
  lcLocketClientKeepAliveTimeout :: int

record Config =
  cfAPI :: APIConfig
  cfAdminPort :: uint16
  cfDebugAddress :: string
  cfLogGuid :: string
  cfMetronConfig :: MetronConfig
  cfMaxTTL :: duration
  cfSystemDomain :: string
  cfMetricsReportingIntervalString :: string
  cfMetricsReportingInterval :: duration
  cfStatsdEndpoint :: string
  cfStatsdClientFlushIntervalString :: string
  cfStatsdClientFlushInterval :: duration
  cfOAuth :: OAuthConfig
  cfRouterGroups :: "RouterGroup list"
  cfReservedSystemComponentPorts :: "uint16 list"
  cfFailOnRouterPortConflicts :: bool
  cfSqlDB :: SqlDB_config
  cfLocket :: ClientLocketConfig
  cfUUID :: string
  cfSkipSSLValidation :: bool
  cfLockTTL :: duration
  cfRetryInterval :: duration
  cfLockResouceKey :: string

definition DefaultLockResourceKey :: string where
  "DefaultLockResourceKey = ''routing_api_lock''"

definition DefaultSessionTTL :: duration where
  "DefaultSessionTTL = 15 * second"

definition RetryInterval :: duration where
  "RetryInterval = 5 * second"

section \<open>Validation and defaults\<close>

definition validatePort :: "uint16 \<Rightarrow> go_error option" where
  "validatePort port =
     (if port < 1 then Some (ErrorString (''port number is invalid: '' @ utoa port @ '' (1-65535)'')) else None)"

definition check_port :: "string \<Rightarrow> uint16 \<Rightarrow> (port_settings, unit) action" where
  "check_port what port =
     (case validatePort port of
        Some err \<Rightarrow> failE (ErrorString (what @ error_text err))
      | None \<Rightarrow> returnE ())"

definition check_that :: "bool \<Rightarrow> string \<Rightarrow> (port_settings, unit) action" where
  "check_that ok message = (if ok then returnE () else failE (ErrorString message))"

definition Config_validate :: "bool \<Rightarrow> Config \<Rightarrow> (port_settings, unit) action" where
  "Config_validate authDisabled cfg =
     bindE (check_that (cfSystemDomain cfg \<noteq> []) ''no system_domain specified'') (\<lambda>_.
     bindE (check_that (cfLogGuid cfg \<noteq> []) ''no log_guid specified'') (\<lambda>_.
     bindE (check_that (\<not> (\<not> authDisabled \<and> oaTokenEndpoint (cfOAuth cfg) = [])) ''no token endpoint specified'') (\<lambda>_.
     bindE (check_that (\<not> (\<not> authDisabled \<and> oaTokenEndpoint (cfOAuth cfg) \<noteq> [] \<and> oaPort (cfOAuth cfg) = 0))
              ''routing API requires TLS enabled to get OAuth token'') (\<lambda>_.
     bindE (check_that (cfUUID cfg \<noteq> []) ''no UUID is specified'') (\<lambda>_.
     bindE (check_port ''invalid admin port: '' (cfAdminPort cfg)) (\<lambda>_.
     bindE (check_port ''invalid API listen port: '' (apListenPort (cfAPI cfg))) (\<lambda>_.
     bindE (check_port ''invalid API mTLS listen port: '' (apMTLSListenPort (cfAPI cfg))) (\<lambda>_.
     bindE (modifyE (\<lambda>_. \<lparr>ReservedSystemComponentPorts = cfReservedSystemComponentPorts cfg,
              FailOnRouterPortConflicts = cfFailOnRouterPortConflicts cfg\<rparr>)) (\<lambda>_.
     bindE (check_that (lcLocketAddress (cfLocket cfg) \<noteq> []) ''locket address is required'') (\<lambda>_.
     bindE (getE (\<lambda>settings. RouterGroups_Validate settings (cfRouterGroups cfg))) (\<lambda>err.
     case err of Some e \<Rightarrow> failE e | None \<Rightarrow> returnE ())))))))))))"

definition Config_process :: "Config \<Rightarrow> go_error + Config" where
  "Config_process cfg0 =
     (let cfg1 = (if cfLockTTL cfg0 = 0 then cfg0\<lparr>cfLockTTL := DefaultSessionTTL\<rparr> else cfg0);
          cfg2 = (if cfRetryInterval cfg1 = 0 then cfg1\<lparr>cfRetryInterval := RetryInterval\<rparr> else cfg1);
          cfg3 = (if cfLockResouceKey cfg2 = [] then cfg2\<lparr>cfLockResouceKey := DefaultLockResourceKey\<rparr> else cfg2);
          cfg4 = cfg3\<lparr>cfSqlDB := (cfSqlDB cfg3)\<lparr>sqSkipSSLValidation := cfSkipSSLValidation cfg3\<rparr>\<rparr>;
          cfg5 = cfg4\<lparr>cfOAuth := (cfOAuth cfg4)\<lparr>oaSkipSSLValidation := cfSkipSSLValidation cfg4\<rparr>\<rparr>
      in case ParseDuration (cfMetricsReportingIntervalString cfg5) of
           Inl err \<Rightarrow> Inl err
         | Inr metricsReportingInterval \<Rightarrow>
             let cfg6 = cfg5\<lparr>cfMetricsReportingInterval := metricsReportingInterval\<rparr>
             in case ParseDuration (cfStatsdClientFlushIntervalString cfg6) of
                  Inl err \<Rightarrow> Inl err
                | Inr statsdClientFlushInterval \<Rightarrow>
                    let cfg7 = cfg6\<lparr>cfStatsdClientFlushInterval := statsdClientFlushInterval\<rparr>
                    in Inr (if cfMaxTTL cfg7 = 0 then cfg7\<lparr>cfMaxTTL := 2 * (60 * second)\<rparr> else cfg7))"

definition NewConfigFromBytes ::
    "(string \<Rightarrow> go_error + Config) \<Rightarrow> string \<Rightarrow> bool \<Rightarrow> (port_settings, Config) action" where
  "NewConfigFromBytes unmarshal bytes authDisabled =
     (case unmarshal bytes of
        Inl err \<Rightarrow> failE err
      | Inr config \<Rightarrow>
          bindE (Config_validate authDisabled config) (\<lambda>_.
          case Config_process config of Inl err \<Rightarrow> failE err | Inr config' \<Rightarrow> returnE config'))"

definition NewConfigFromFile ::
    "(string \<Rightarrow> go_error + string) \<Rightarrow> (string \<Rightarrow> go_error + Config) \<Rightarrow> string \<Rightarrow> bool \<Rightarrow>
     (port_settings, Config) action" where
  "NewConfigFromFile readFile unmarshal configFile authDisabled =
     (case readFile configFile of
        Inl err \<Rightarrow> failE err
      | Inr c \<Rightarrow> NewConfigFromBytes unmarshal c authDisabled)"

text \<open>\<open>cmd/config-validator\<close>: the exit status and the message that is logged.\<close>

definition config_validator ::
    "(string \<Rightarrow> go_error + string) \<Rightarrow> (string \<Rightarrow> go_error + Config) \<Rightarrow> string \<Rightarrow> bool \<Rightarrow>
     (port_settings, nat \<times> string) action" where
  "config_validator readFile unmarshal configFile devMode =
     tryE (NewConfigFromFile readFile unmarshal configFile devMode) (\<lambda>result. case result of
        Inl err \<Rightarrow> returnE (1, ''failed-to-load-config: '' @ error_text err)
      | Inr _ \<Rightarrow> returnE (0, ''config-loaded-successfully''))"

section \<open>What is accepted\<close>

definition complete_config :: "bool \<Rightarrow> Config \<Rightarrow> bool" where
  "complete_config authDisabled cfg \<longleftrightarrow>
     cfSystemDomain cfg \<noteq> [] \<and> cfLogGuid cfg \<noteq> [] \<and> cfUUID cfg \<noteq> [] \<and> lcLocketAddress (cfLocket cfg) \<noteq> [] \<and>
     (authDisabled \<or> oaTokenEndpoint (cfOAuth cfg) \<noteq> [] \<and> oaPort (cfOAuth cfg) \<noteq> 0) \<and>
     cfAdminPort cfg \<noteq> 0 \<and> apListenPort (cfAPI cfg) \<noteq> 0 \<and> apMTLSListenPort (cfAPI cfg) \<noteq> 0"

definition settings_of :: "Config \<Rightarrow> port_settings" where
  "settings_of cfg = \<lparr>ReservedSystemComponentPorts = cfReservedSystemComponentPorts cfg,
     FailOnRouterPortConflicts = cfFailOnRouterPortConflicts cfg\<rparr>"

definition or_default :: "'a \<Rightarrow> 'a \<Rightarrow> 'a \<Rightarrow> 'a" where
  "or_default zero v dflt = (if v = zero then dflt else v)"

definition completed :: "duration \<Rightarrow> duration \<Rightarrow> Config \<Rightarrow> Config" where
  "completed metrics statsd cfg =
     cfg\<lparr>cfLockTTL := or_default 0 (cfLockTTL cfg) (15 * second),
         cfRetryInterval := or_default 0 (cfRetryInterval cfg) (5 * second),
         cfLockResouceKey := or_default [] (cfLockResouceKey cfg) ''routing_api_lock'',
         cfSqlDB := (cfSqlDB cfg)\<lparr>sqSkipSSLValidation := cfSkipSSLValidation cfg\<rparr>,
         cfOAuth := (cfOAuth cfg)\<lparr>oaSkipSSLValidation := cfSkipSSLValidation cfg\<rparr>,
         cfMetricsReportingInterval := metrics, cfStatsdClientFlushInterval := statsd,
         cfMaxTTL := or_default 0 (cfMaxTTL cfg) (120 * second)\<rparr>"

lemma check_port_eq: "check_port what port = check_that (port \<noteq> 0) (what @ ''port number is invalid: 0 (1-65535)'')"
proof (cases "port = 0")
  case True
  then show ?thesis
    by (simp add: check_port_def check_that_def validatePort_def utoa_def nat_digits.simps digit_char_def char_of_def bit_Suc_0_iff)
next
  case False
  then have "\<not> port < 1" by (metis word_less_1)
  with False show ?thesis by (simp add: check_port_def check_that_def validatePort_def)
qed

lemma bind_check:
  "bindE (check_that ok message) k s = (if ok then k () s else (Fail (ErrorString message), s))"
  by (simp add: check_that_def bindE_def)

lemma Config_process_result:
  "Config_process cfg =
     (case (ParseDuration (cfMetricsReportingIntervalString cfg), ParseDuration (cfStatsdClientFlushIntervalString cfg)) of
        (Inl e, _) \<Rightarrow> Inl e
      | (Inr _, Inl e) \<Rightarrow> Inl e
      | (Inr m, Inr f) \<Rightarrow> Inr (completed m f cfg))"
  by (simp add: Config_process_def completed_def or_default_def Let_def DefaultSessionTTL_def RetryInterval_def
      DefaultLockResourceKey_def second_def split: sum.splits)

lemma Config_validate_result:
  "Config_validate authDisabled cfg s = (x, s') \<Longrightarrow>
   (x = Ok () \<longleftrightarrow> complete_config authDisabled cfg \<and> RouterGroups_Validate (settings_of cfg) (cfRouterGroups cfg) = None) \<and>
   (x = Ok () \<longrightarrow> s' = settings_of cfg) \<and> (s' = s \<or> s' = settings_of cfg) \<and> \<not> is_panic x"
  by (auto simp: Config_validate_def check_port_eq bind_check complete_config_def settings_of_def
      split: if_splits option.splits)

text \<open>
  (C26) \<open>NewConfigFromBytes\<close> accepts a decoded configuration exactly if it is complete (system domain,
  log guid, UUID, locket address, the three ports, and, unless authentication is disabled, the token
  endpoint with its port), its router groups are valid against its own reserved ports, and both
  intervals are durations. The accepted configuration is the decoded one with the parsed intervals, the
  defaults for a missing lock TTL, retry interval, lock key and maximal TTL, and the switch for
  certificate checks copied to the database and UAA settings; the package variables of the port
  validation are set to the configuration's. Otherwise the result is an error, never a panic.
\<close>

theorem NewConfigFromBytes_accepts:
  assumes "unmarshal bytes = Inr cfg"
    and "NewConfigFromBytes unmarshal bytes authDisabled s = (x, s')"
  shows "((\<exists>c. x = Ok c) \<longleftrightarrow> complete_config authDisabled cfg \<and>
      RouterGroups_Validate (settings_of cfg) (cfRouterGroups cfg) = None \<and>
      (\<exists>m. ParseDuration (cfMetricsReportingIntervalString cfg) = Inr m) \<and>
      (\<exists>f. ParseDuration (cfStatsdClientFlushIntervalString cfg) = Inr f)) \<and>
    (case x of
       Ok c \<Rightarrow> s' = settings_of cfg \<and>
         (\<exists>m f. ParseDuration (cfMetricsReportingIntervalString cfg) = Inr m \<and>
            ParseDuration (cfStatsdClientFlushIntervalString cfg) = Inr f \<and> c = completed m f cfg)
     | Fail e \<Rightarrow> True
     | Panic p \<Rightarrow> False)"
proof -
  obtain v sv where v: "Config_validate authDisabled cfg s = (v, sv)" by (cases "Config_validate authDisabled cfg s")
  from Config_validate_result [OF v] assms(2) show ?thesis
    by (cases v) (auto simp: NewConfigFromBytes_def assms(1) bindE_def v Config_process_result split: sum.splits)
qed

definition ex_config :: Config where
  "ex_config =
     \<lparr>cfAPI = \<lparr>apListenPort = 3000, apHTTPEnabled = True, apMTLSListenPort = 3001, apMTLSClientCAPath = [],
        apMTLSServerCertPath = [], apMTLSServerKeyPath = []\<rparr>,
      cfAdminPort = 9999, cfDebugAddress = [], cfLogGuid = ''my_logs'',
      cfMetronConfig = \<lparr>mcAddress = ''1.2.3.4'', mcPort = ''4567''\<rparr>, cfMaxTTL = 0,
      cfSystemDomain = ''example.com'', cfMetricsReportingIntervalString = Itoa 30 @ ''s'',
      cfMetricsReportingInterval = 0, cfStatsdEndpoint = ''localhost:8125'',
      cfStatsdClientFlushIntervalString = Itoa 1 @ ''s'', cfStatsdClientFlushInterval = 0,
      cfOAuth = \<lparr>oaTokenEndpoint = ''127.0.0.1'', oaPort = 8080, oaSkipSSLValidation = False, oaClientName = [],
        oaClientSecret = [], oaCACerts = []\<rparr>,
      cfRouterGroups = [], cfReservedSystemComponentPorts = [5555], cfFailOnRouterPortConflicts = True,
      cfSqlDB = \<lparr>sqHost = ''localhost'', sqPort = 3306, sqSchema = ''routing'', sqType = ''mysql'', sqUsername = [],
        sqPassword = [], sqCACert = [], sqSkipSSLValidation = False, sqSkipHostnameValidation = False,
        sqMaxIdleConns = 2, sqMaxOpenConns = 5, sqConnMaxLifetime = 1200\<rparr>,
      cfLocket = \<lparr>lcLocketAddress = ''localhost:5678'', lcLocketCACertFile = [], lcLocketClientCertFile = [],
        lcLocketClientKeyFile = [], lcLocketClientKeepAliveTime = 0, lcLocketClientKeepAliveTimeout = 0\<rparr>,
      cfUUID = ''fake-uuid'', cfSkipSSLValidation = True, cfLockTTL = 0, cfRetryInterval = 0, cfLockResouceKey = []\<rparr>"

theorem NewConfigFromBytes_accepts_witness:
  "\<exists>c. fst (NewConfigFromBytes (\<lambda>_. Inr ex_config) [] False default_port_settings) = Ok c \<and>
     cfMaxTTL c = 120 * second \<and> cfMetricsReportingInterval c = 30 * second \<and> sqSkipSSLValidation (cfSqlDB c)"
proof -
  have c: "complete_config False ex_config" "RouterGroups_Validate (settings_of ex_config) (cfRouterGroups ex_config) = None"
    by (simp_all add: complete_config_def ex_config_def)
  have p: "ParseDuration (cfMetricsReportingIntervalString ex_config) = Inr (30 * second)"
      "ParseDuration (cfStatsdClientFlushIntervalString ex_config) = Inr (1 * second)"
    using ParseDuration_seconds [of 30] ParseDuration_seconds [of 1] by (simp_all add: ex_config_def)
  have m: "cfMaxTTL ex_config = 0" "cfSkipSSLValidation ex_config" by (simp_all add: ex_config_def)
  show ?thesis
    using NewConfigFromBytes_accepts [of "\<lambda>_. Inr ex_config" "[]" ex_config False, OF refl prod.collapse [symmetric],
        of default_port_settings] c p m
    by (auto simp: completed_def or_default_def split: go.splits)
qed

end
