(* ===== verification/Connection.thy ===== *)
theory Connection
  imports Sql_Db Uaa Token_Fetcher Config
begin

text \<open>
  How the server reaches its database and UAA: \<open>ConnectionString\<close> and \<open>NewSqlDB\<close> of \<open>db/db_sql.go\<close>, the
  MySQL connection string of \<open>db/mysql_connection_string_builder.go\<close>, and the constructors of
  \<open>uaaclient/\<close>; and the settings of the API client's transport in \<open>client.go\<close>. Certificates and the checks of \<open>crypto/x509\<close>, the file system's answers, and opening a
  database or a UAA client are parameters.
\<close>

section \<open>TLS\<close>

text \<open>
  The fields of a \<open>tls.Config\<close> that the program sets. \<open>tlVerifyPeer\<close> is the pool that the callback
  \<open>VerifyPeerCertificate\<close> checks against, if it is set.
\<close>

record 'c tls_config =
  tlServerName :: string
  tlRootCAs :: "'c list option"
  tlInsecureSkipVerify :: bool
  tlVerifyPeer :: "'c list option"

definition zero_tls_config :: "'c tls_config" where
  "zero_tls_config = \<lparr>tlServerName = [], tlRootCAs = None, tlInsecureSkipVerify = False, tlVerifyPeer = None\<rparr>"

text \<open>
  \<open>xParsePEM\<close> gives the certificates of a PEM text, \<open>xParse\<close> one certificate of a handshake,
  \<open>xVerify roots intermediates now leaf\<close> checks a chain and \<open>xHost\<close> the name of the server.
\<close>

record 'c x509 =
  xParsePEM :: "string \<Rightarrow> 'c list"
  xParse :: "string \<Rightarrow> go_error + 'c"
  xVerify :: "'c list \<Rightarrow> 'c list \<Rightarrow> time \<Rightarrow> 'c \<Rightarrow> go_error option"
  xHost :: "string \<Rightarrow> 'c \<Rightarrow> go_error option"

primrec parse_certificates :: "'c x509 \<Rightarrow> string list \<Rightarrow> go_error + 'c list" where
  "parse_certificates x [] = Inr []"
| "parse_certificates x (asn1Data # rawCerts) =
     (case xParse x asn1Data of
        Inl err \<Rightarrow> Inl (ErrorString (''tls: failed to parse certificate from server: '' @ error_text err))
      | Inr cert \<Rightarrow>
          (case parse_certificates x rawCerts of Inl err \<Rightarrow> Inl err | Inr certs \<Rightarrow> Inr (cert # certs)))"

definition VerifyCertificatesIgnoreHostname :: "'c x509 \<Rightarrow> string list \<Rightarrow> 'c list \<Rightarrow> time \<Rightarrow> unit go" where
  "VerifyCertificatesIgnoreHostname x rawCerts caCertPool now =
     (case parse_certificates x rawCerts of
        Inl err \<Rightarrow> Fail err
      | Inr [] \<Rightarrow> Panic ''index out of range''
      | Inr (cert # intermediates) \<Rightarrow>
          (case xVerify x caCertPool intermediates now cert of Some err \<Rightarrow> Fail err | None \<Rightarrow> Ok ()))"

text \<open>
  What a TLS client accepts, as documented for \<open>crypto/tls\<close>: unless \<open>InsecureSkipVerify\<close> is set, the chain
  is checked against \<open>RootCAs\<close> (by default those of the host) and the leaf against the server's name;
  then the callback is asked.
\<close>

definition handshake :: "'c x509 \<Rightarrow> 'c list \<Rightarrow> 'c tls_config \<Rightarrow> time \<Rightarrow> string list \<Rightarrow> bool" where
  "handshake x host_roots t now rawCerts \<longleftrightarrow>
     (case parse_certificates x rawCerts of
        Inr (cert # intermediates) \<Rightarrow>
          (tlInsecureSkipVerify t \<or>
             xVerify x (case tlRootCAs t of None \<Rightarrow> host_roots | Some cas \<Rightarrow> cas) intermediates now cert = None \<and>
             xHost x (tlServerName t) cert = None) \<and>
          (case tlVerifyPeer t of
             None \<Rightarrow> True
           | Some cas \<Rightarrow> VerifyCertificatesIgnoreHostname x rawCerts cas now = Ok ())
      | _ \<Rightarrow> False)"

section \<open>The database\<close>

text \<open>
  The registry of the MySQL driver, the files the program writes, and the answers of the file system.
\<close>

record 'c conn_env =
  tlsRegistry :: "string \<rightharpoonup> 'c tls_config"
  files :: "string \<rightharpoonup> string"
  mkdirTemp :: "go_error + string"
  writeFile :: "go_error option"

definition readBool :: "string \<Rightarrow> bool option" where
  "readBool s =
     (if s \<in> set [''1'', ''true'', ''TRUE'', ''True''] then Some True
      else if s \<in> set [''0'', ''false'', ''FALSE'', ''False''] then Some False else None)"

definition RegisterTLSConfig :: "string \<Rightarrow> 'c tls_config \<Rightarrow> ('c conn_env, unit) action" where
  "RegisterTLSConfig key t =
     (if readBool key \<noteq> None \<or> map lower_ascii key = ''skip-verify'' \<or> map lower_ascii key = ''preferred''
      then failE (ErrorString (''key '' @ [CHR 0x27] @ key @ [CHR 0x27] @ '' is reserved''))
      else modifyE (tlsRegistry_update (\<lambda>r. r(key \<mapsto> t))))"

definition mysql_tls :: "'c x509 \<Rightarrow> SqlDB_config \<Rightarrow> 'c tls_config" where
  "mysql_tls x cfg =
     (let rootCA = xParsePEM x (sqCACert cfg);
          t = zero_tls_config\<lparr>tlServerName := sqHost cfg, tlRootCAs := Some rootCA\<rparr>
      in if sqSkipHostnameValidation cfg then t\<lparr>tlInsecureSkipVerify := True, tlVerifyPeer := Some rootCA\<rparr> else t)"

definition MySQL_Build :: "'c x509 \<Rightarrow> SqlDB_config \<Rightarrow> ('c conn_env, string) action" where
  "MySQL_Build x cfg =
     (let queryString = ''?parseTime=true'';
          conn = (\<lambda>query. sqUsername cfg @ '':'' @ sqPassword cfg @ ''@tcp('' @ sqHost cfg @ '':'' @ utoa (sqPort cfg) @
            '')/'' @ sqSchema cfg @ query)
      in if sqSkipSSLValidation cfg
         then bindE (RegisterTLSConfig ''dbTLSSkipVerify'' (zero_tls_config\<lparr>tlInsecureSkipVerify := True\<rparr>)) (\<lambda>_.
              returnE (conn (queryString @ ''&tls='' @ ''dbTLSSkipVerify'')))
         else if sqCACert cfg \<noteq> []
         then bindE (RegisterTLSConfig ''dbTLSCertVerify'' (mysql_tls x cfg)) (\<lambda>_.
              returnE (conn (queryString @ ''&tls='' @ ''dbTLSCertVerify'')))
         else returnE (conn queryString))"

definition MkdirTemp :: "('c conn_env, string) action" where
  "MkdirTemp e = (case mkdirTemp e of Inl err \<Rightarrow> (Fail err, e) | Inr dir \<Rightarrow> (Ok dir, e))"

definition WriteFile :: "string \<Rightarrow> string \<Rightarrow> ('c conn_env, unit) action" where
  "WriteFile path content e =
     (case writeFile e of
        Some err \<Rightarrow> (Fail err, e)
      | None \<Rightarrow> (Ok (), e\<lparr>files := (files e)(path \<mapsto> content)\<rparr>))"

definition postgres_query :: "SqlDB_config \<Rightarrow> ('c conn_env, string) action" where
  "postgres_query cfg =
     (if sqCACert cfg = [] then returnE ''?sslmode=disable''
      else if sqSkipSSLValidation cfg then returnE ''?sslmode=require''
      else bindE MkdirTemp (\<lambda>tempDir.
           let certPath = tempDir @ ''/postgres_cert.pem''
           in bindE (WriteFile certPath (sqCACert cfg)) (\<lambda>_.
              returnE (''?sslmode=verify-full&sslrootcert='' @ certPath))))"

definition ConnectionString :: "'c x509 \<Rightarrow> SqlDB_config \<Rightarrow> ('c conn_env, string) action" where
  "ConnectionString x cfg =
     (if sqType cfg = ''mysql'' then MySQL_Build x cfg
      else if sqType cfg = ''postgres''
      then bindE (postgres_query cfg) (\<lambda>queryString.
           returnE (''postgres://'' @ sqUsername cfg @ '':'' @ sqPassword cfg @ ''@'' @ sqHost cfg @ '':'' @
             utoa (sqPort cfg) @ ''/'' @ sqSchema cfg @ queryString))
      else returnE [])"

text \<open>
  \<open>NewSqlDB\<close> on an opened database; \<open>gormOpen dialect connStr\<close> opens it. The result has the limits of
  the connection pool beside the \<open>SqlDB\<close>.
\<close>

record 's opened =
  opDb :: "'s SqlDB"
  opMaxIdleConns :: int
  opMaxOpenConns :: int
  opConnMaxLifetime :: duration

definition NewSqlDB ::
    "'c x509 \<Rightarrow> (string \<Rightarrow> string \<Rightarrow> go_error + 's) \<Rightarrow> world \<Rightarrow> SqlDB_config option \<Rightarrow> ('c conn_env, 's opened) action" where
  "NewSqlDB x gormOpen w config =
     (case config of
        None \<Rightarrow> failE (ErrorString ''sql configuration cannot be nil'')
      | Some cfg \<Rightarrow>
          bindE (ConnectionString x cfg) (\<lambda>connStr.
          if sqType cfg \<noteq> ''postgres'' \<and> sqType cfg \<noteq> ''mysql''
          then failE (ErrorString (''unknown type '' @ sqType cfg))
          else case gormOpen (sqType cfg) connStr of
            Inl err \<Rightarrow> failE err
          | Inr s \<Rightarrow>
              returnE \<lparr>opDb = NewSqlDB_value s w, opMaxIdleConns = sqMaxIdleConns cfg,
                opMaxOpenConns = sqMaxOpenConns cfg, opConnMaxLifetime = seconds (sqConnMaxLifetime cfg)\<rparr>))"

section \<open>UAA\<close>

record uaa_Config =
  ucPort :: uint16
  ucProtocol :: string
  ucSkipSSLValidation :: bool
  ucClientName :: string
  ucClientSecret :: string
  ucCACerts :: string
  ucTokenEndpoint :: string
  ucRequestTimeout :: duration

text \<open>What \<open>uaa.New\<close> is given: the client credentials, if any, and the settings of the HTTP client.\<close>

record 'c uaa_settings =
  usTokenURL :: string
  usCredentials :: "(string \<times> string) option"
  usTLS :: "'c tls_config"
  usTimeout :: duration
  usSkipSSLValidation :: bool

definition NewAPI ::
    "'c x509 \<Rightarrow> (string \<Rightarrow> go_error + string) \<Rightarrow> ('c uaa_settings \<Rightarrow> go_error + 'api) \<Rightarrow> uaa_Config \<Rightarrow> go_error + 'api" where
  "NewAPI x readFile uaaNew cfg =
     (if ucPort cfg = 0 then Inl (ErrorString ''tls-not-enabled: UAA client requires TLS enabled'')
      else
        let t = zero_tls_config\<lparr>tlInsecureSkipVerify := ucSkipSSLValidation cfg\<rparr>;
            with_cas =
              (if ucCACerts cfg = [] then Inr t
               else case readFile (ucCACerts cfg) of
                 Inl err \<Rightarrow> Inl (ErrorString (''failed to read ca cert file: '' @ error_text err))
               | Inr certBytes \<Rightarrow>
                   if xParsePEM x certBytes = [] then Inl (ErrorString ''unable to load caCert'')
                   else Inr (t\<lparr>tlRootCAs := Some (xParsePEM x certBytes)\<rparr>));
            protocol = (if ucProtocol cfg = [] then ''https'' else ucProtocol cfg);
            tokenURL = protocol @ ''://'' @ ucTokenEndpoint cfg @ '':'' @ utoa (ucPort cfg)
        in case with_cas of
             Inl err \<Rightarrow> Inl err
           | Inr tlsConfig \<Rightarrow>
               uaaNew \<lparr>usTokenURL = tokenURL,
                 usCredentials =
                   (if ucClientName cfg \<noteq> [] \<and> ucClientSecret cfg \<noteq> []
                    then Some (ucClientName cfg, ucClientSecret cfg) else None),
                 usTLS = tlsConfig,
                 usTimeout = (if ucRequestTimeout cfg > 0 then ucRequestTimeout cfg else 0),
                 usSkipSSLValidation = ucSkipSSLValidation cfg\<rparr>)"

text \<open>The answers of UAA to a client, and the clock the jwt library reads.\<close>

record uaa_API =
  uaIssuer :: "go_error + string"
  uaTokenKeys :: "nat \<Rightarrow> go_error + string"
  uaUnixTime :: "nat \<Rightarrow> int"
  uaTokens :: "nat \<Rightarrow> oauth2_token option \<times> go_error option"

text \<open>\<open>None\<close>: the validator of the developer mode, which accepts every token.\<close>

definition NewTokenValidator ::
    "jwt_lib \<Rightarrow> 'c x509 \<Rightarrow> (string \<Rightarrow> go_error + string) \<Rightarrow> ('c uaa_settings \<Rightarrow> go_error + uaa_API) \<Rightarrow>
     bool \<Rightarrow> uaa_Config \<Rightarrow> tokenValidator option go" where
  "NewTokenValidator lib x readFile uaaNew devMode cfg =
     (if devMode then Ok None
      else case NewAPI x readFile uaaNew cfg of
        Inl err \<Rightarrow> Fail err
      | Inr api \<Rightarrow>
          (case uaIssuer api of
             Inl err \<Rightarrow> Fail err
           | Inr iss \<Rightarrow>
               (case uaTokenKeys api 0 of
                  Inl err \<Rightarrow> Fail err
                | Inr key \<Rightarrow>
                    (case checkPublicKey lib key of
                       Ok _ \<Rightarrow> Ok (Some \<lparr>issuer = iss, uaaPublicKey = key, keyAnswers = uaTokenKeys api,
                                  keyRequests = 1, unixTime = uaUnixTime api, timeReadings = 0\<rparr>)
                     | Fail err \<Rightarrow> Fail err
                     | Panic p \<Rightarrow> Panic p))))"

definition NewTokenFetcher ::
    "'c x509 \<Rightarrow> (string \<Rightarrow> go_error + string) \<Rightarrow> ('c uaa_settings \<Rightarrow> go_error + uaa_API) \<Rightarrow>
     bool \<Rightarrow> uaa_Config \<Rightarrow> (nat \<Rightarrow> time) \<Rightarrow> nat \<Rightarrow> int \<Rightarrow> go_error + tokenFetcher option" where
  "NewTokenFetcher x readFile uaaNew devMode cfg clk retries expirationBuffer =
     (if devMode then Inr None
      else case NewAPI x readFile uaaNew cfg of
        Inl err \<Rightarrow> Inl err
      | Inr api \<Rightarrow>
          Inr (Some \<lparr>cachedToken = None, refetchTokenTime = zero_time, maxNumberOfRetries = retries,
            expirationBufferInSec = expirationBuffer, tokenAnswers = uaTokens api, tokenRequests = 0,
            fetcherClock = clk, fetcherTicks = 0, pauses = 0\<rparr>))"

definition noOp_FetchToken :: "bool \<Rightarrow> ('f, oauth2_token option \<times> go_error option) action" where
  "noOp_FetchToken forceUpdate = returnE (Some \<lparr>accessToken = [], tokenExpiry = zero_time\<rparr>, None)"

text \<open>The \<open>TokenValidator\<close> that the handlers call.\<close>

definition validator_of :: "jwt_lib \<Rightarrow> string \<Rightarrow> string list \<Rightarrow> (tokenValidator option, unit) action" where
  "validator_of lib token permissions v =
     (case v of
        None \<Rightarrow> noOp_ValidateToken token permissions v
      | Some u \<Rightarrow> (case ValidateToken lib token permissions u of (r, u') \<Rightarrow> (r, Some u')))"

section \<open>The client of the API\<close>

text \<open>
  The settings of the two HTTP clients that \<open>NewClientWithTLSConfig\<close> makes, by the options of
  \<open>code.cloudfoundry.org/cfhttp/v2\<close>, which are applied in order.
\<close>

record 'c http_settings =
  hsRequestTimeout :: duration
  hsDialTimeout :: duration
  hsKeepAliveTimeout :: duration
  hsIdleConnTimeout :: duration
  hsDisableKeepAlives :: bool
  hsTLS :: "'c tls_config option"

definition WithStreamingDefaults :: "'c http_settings \<Rightarrow> 'c http_settings" where
  "WithStreamingDefaults c =
     c\<lparr>hsKeepAliveTimeout := 30 * second, hsDisableKeepAlives := False, hsRequestTimeout := 0\<rparr>"

definition WithRequestTimeout :: "duration \<Rightarrow> 'c http_settings \<Rightarrow> 'c http_settings" where
  "WithRequestTimeout t c = c\<lparr>hsRequestTimeout := t\<rparr>"

definition WithTLSConfig :: "'c tls_config \<Rightarrow> 'c http_settings \<Rightarrow> 'c http_settings" where
  "WithTLSConfig t c = c\<lparr>hsTLS := Some t\<rparr>"

definition cfhttp_NewClient :: "('c http_settings \<Rightarrow> 'c http_settings) list \<Rightarrow> 'c http_settings" where
  "cfhttp_NewClient options =
     fold (\<lambda>v cfg. v cfg) options
       \<lparr>hsRequestTimeout = 0, hsDialTimeout = 5 * second, hsKeepAliveTimeout = 0,
        hsIdleConnTimeout = 90 * second, hsDisableKeepAlives = False, hsTLS = None\<rparr>"

record 'c client_settings =
  csHttpClient :: "'c http_settings"
  csStreamingHTTPClient :: "'c http_settings"
  csHost :: string
  csAuthToken :: string

definition defaultHttpTimeout :: duration where
  "defaultHttpTimeout = 60 * second"

definition NewClientWithTLSConfig :: "string \<Rightarrow> 'c tls_config \<Rightarrow> 'c client_settings" where
  "NewClientWithTLSConfig url tlsConfig =
     \<lparr>csHttpClient = cfhttp_NewClient [WithRequestTimeout defaultHttpTimeout, WithTLSConfig tlsConfig],
      csStreamingHTTPClient = cfhttp_NewClient [WithStreamingDefaults, WithTLSConfig tlsConfig],
      csHost = url, csAuthToken = []\<rparr>"

definition NewClient :: "string \<Rightarrow> bool \<Rightarrow> 'c client_settings" where
  "NewClient url skipTLSVerification =
     NewClientWithTLSConfig url (zero_tls_config\<lparr>tlInsecureSkipVerify := skipTLSVerification\<rparr>)"

text \<open>
  Requests end after a minute, event streams never; and both clients verify servers unless told not to.
\<close>

lemma NewClient_settings:
  "hsRequestTimeout (csHttpClient (NewClient url skip)) = 60 * second"
  "hsRequestTimeout (csStreamingHTTPClient (NewClient url skip)) = 0"
  "c \<in> {csHttpClient (NewClient url skip), csStreamingHTTPClient (NewClient url skip)} \<Longrightarrow>
   map_option tlInsecureSkipVerify (hsTLS c) = Some skip"
  by (auto simp: NewClient_def NewClientWithTLSConfig_def cfhttp_NewClient_def WithRequestTimeout_def
      WithTLSConfig_def WithStreamingDefaults_def defaultHttpTimeout_def)

section \<open>Which servers are trusted\<close>

lemma RegisterTLSConfig_ok:
  "RegisterTLSConfig ''dbTLSSkipVerify'' t = modifyE (tlsRegistry_update (\<lambda>r. r(''dbTLSSkipVerify'' \<mapsto> t)))"
  "RegisterTLSConfig ''dbTLSCertVerify'' t = modifyE (tlsRegistry_update (\<lambda>r. r(''dbTLSCertVerify'' \<mapsto> t)))"
  by (simp_all add: RegisterTLSConfig_def readBool_def lower_ascii_def char_of_def)

lemma mysql_handshake:
  "handshake x host_roots (mysql_tls x cfg) now rawCerts \<longleftrightarrow>
     (\<exists>cert intermediates. parse_certificates x rawCerts = Inr (cert # intermediates) \<and>
        xVerify x (xParsePEM x (sqCACert cfg)) intermediates now cert = None \<and>
        (sqSkipHostnameValidation cfg \<or> xHost x (sqHost cfg) cert = None))"
  by (cases "sqSkipHostnameValidation cfg")
    (auto simp: handshake_def mysql_tls_def Let_def zero_tls_config_def VerifyCertificatesIgnoreHostname_def
      split: sum.splits list.splits option.splits)

text \<open>
  (C29) The connection to a MySQL database for which a CA certificate is configured and the checks are not
  switched off uses a registered TLS configuration that lets a server in exactly if its certificates
  parse, their chain verifies against the configured CA, and, unless the check of the host name is
  switched off, the leaf is for the configured host. In particular switching off the check of the
  name, which sets \<open>InsecureSkipVerify\<close>, does not switch off the check of the chain.
\<close>

theorem mysql_connection_is_verified:
  assumes "sqType cfg = ''mysql''" and "sqCACert cfg \<noteq> []" and "\<not> sqSkipSSLValidation cfg"
    and "ConnectionString x cfg e = (r, e')"
  shows "\<exists>t prefix. tlsRegistry e' ''dbTLSCertVerify'' = Some t \<and> r = Ok (prefix @ ''&tls=dbTLSCertVerify'') \<and>
    (\<forall>host_roots now rawCerts. handshake x host_roots t now rawCerts \<longleftrightarrow>
       (\<exists>cert intermediates. parse_certificates x rawCerts = Inr (cert # intermediates) \<and>
          xVerify x (xParsePEM x (sqCACert cfg)) intermediates now cert = None \<and>
          (sqSkipHostnameValidation cfg \<or> xHost x (sqHost cfg) cert = None)))"
proof -
  let ?prefix = "sqUsername cfg @ '':'' @ sqPassword cfg @ ''@tcp('' @ sqHost cfg @ '':'' @ utoa (sqPort cfg) @
    '')/'' @ sqSchema cfg @ ''?parseTime=true''"
  have "tlsRegistry e' ''dbTLSCertVerify'' = Some (mysql_tls x cfg)" "r = Ok (?prefix @ ''&tls=dbTLSCertVerify'')"
    using assms by (auto simp: ConnectionString_def MySQL_Build_def Let_def RegisterTLSConfig_ok)
  with mysql_handshake [of x _ cfg] show ?thesis by blast
qed

definition ex_x509 :: "string x509" where
  "ex_x509 =
     \<lparr>xParsePEM = (\<lambda>pem. [pem]), xParse = Inr,
      xVerify = (\<lambda>roots ints now cert. if list_ex (\<lambda>ca. cert = ''db '' @ ca) roots then None else Some (ErrorString ''unknown authority'')),
      xHost = (\<lambda>host cert. Some (ErrorString ''no name''))\<rparr>"

definition ex_conn_env :: "string conn_env" where
  "ex_conn_env = \<lparr>tlsRegistry = Map.empty, files = Map.empty, mkdirTemp = Inr ''/tmp/1'', writeFile = None\<rparr>"

definition ex_sql_config :: SqlDB_config where
  "ex_sql_config = (cfSqlDB ex_config)\<lparr>sqCACert := ''ca'', sqSkipHostnameValidation := True\<rparr>"

theorem mysql_connection_is_verified_witness:
  "\<exists>t. tlsRegistry (snd (ConnectionString ex_x509 ex_sql_config ex_conn_env)) ''dbTLSCertVerify'' = Some t \<and>
     handshake ex_x509 [] t 0 [''db ca''] \<and> \<not> handshake ex_x509 [] t 0 [''db other'']"
  using mysql_connection_is_verified [of ex_sql_config, OF _ _ _ prod.collapse [symmetric], of ex_x509 ex_conn_env]
  by (auto simp: ex_sql_config_def ex_config_def ex_x509_def)

end
