(* ===== verification/Ordered_Group.thy ===== *)
theory Ordered_Group
  imports Prelude
begin

text \<open>
  The ordered group of processes that the server is: \<open>orderedGroup\<close> of
  \<open>vendor/github.com/tedsuo/ifrit/grouper/ordered.go\<close>. A member is known by its position. The group
  interleaves with its members, which become ready and exit at any time.
\<close>

section \<open>The group\<close>

text \<open>
  \<open>Starting k\<close>: the loop of \<open>orderedStart\<close> waits in its \<open>select\<close> for member \<open>k\<close>. \<open>Stopping i\<close>: the loop of \<open>stop\<close>
  still has the members below \<open>i\<close> before it; \<open>Awaiting i\<close>: it has signalled member \<open>i\<close> and waits for it.
\<close>

datatype group_phase = Starting nat | GroupRunning | Stopping nat | Awaiting nat | GroupDone

text \<open>Signals are numbers; the server makes its group with \<open>os.Interrupt\<close> as the termination signal.\<close>

type_synonym os_signal = nat

definition terminationSignal :: os_signal where
  "terminationSignal = 2"

text \<open>\<open>stopSignal\<close> is the signal that \<open>stop\<close> hands on to the members.\<close>

record group_state =
  phase :: group_phase
  stopSignal :: os_signal
  started :: nat
  readyMembers :: "nat set"
  exitedMembers :: "nat \<rightharpoonup> go_error option"
  signalled :: "nat list"
  errTrace :: "(nat \<times> go_error option) list"

text \<open>What \<open>Run\<close> returns at the end: the trace, if one of its events has an error.\<close>

definition group_result :: "group_state \<Rightarrow> (nat \<times> go_error option) list option" where
  "group_result s = (if list_ex (\<lambda>(i, e). e \<noteq> None) (errTrace s) then Some (errTrace s) else None)"

definition enter_start :: "nat \<Rightarrow> nat \<Rightarrow> group_state \<Rightarrow> group_state" where
  "enter_start n k s = (if k < n then s\<lparr>phase := Starting k, started := Suc k\<rparr> else s\<lparr>phase := GroupRunning\<rparr>)"

definition group_start :: "nat \<Rightarrow> group_state" where
  "group_start n = enter_start n 0
     \<lparr>phase = GroupRunning, stopSignal = terminationSignal, started = 0, readyMembers = {}, exitedMembers = Map.empty, signalled = [], errTrace = []\<rparr>"

text \<open>A signal that arrives while \<open>stop\<close> waits is handed on if it differs from the last one; otherwise nothing changes.\<close>

inductive group_step :: "nat \<Rightarrow> group_state \<Rightarrow> group_state \<Rightarrow> bool" for n where
  member_ready: "i < started s \<Longrightarrow> exitedMembers s i = None \<Longrightarrow>
    group_step n s (s\<lparr>readyMembers := insert i (readyMembers s)\<rparr>)"
| member_exits: "i < started s \<Longrightarrow> exitedMembers s i = None \<Longrightarrow>
    group_step n s (s\<lparr>exitedMembers := (exitedMembers s)(i \<mapsto> e)\<rparr>)"
| start_ready: "phase s = Starting k \<Longrightarrow> k \<in> readyMembers s \<Longrightarrow> group_step n s (enter_start n (Suc k) s)"
| start_exit: "phase s = Starting k \<Longrightarrow> i \<le> k \<Longrightarrow> exitedMembers s i = Some e \<Longrightarrow>
    group_step n s (s\<lparr>phase := Stopping (Suc k), stopSignal := terminationSignal, errTrace := [(i, e)]\<rparr>)"
| start_signal: "phase s = Starting k \<Longrightarrow>
    group_step n s (s\<lparr>phase := Stopping (Suc k), stopSignal := sig\<rparr>)"
| run_exit: "phase s = GroupRunning \<Longrightarrow> exitedMembers s i = Some e \<Longrightarrow>
    group_step n s (s\<lparr>phase := Stopping n, stopSignal := terminationSignal, errTrace := [(i, e)]\<rparr>)"
| run_signal: "phase s = GroupRunning \<Longrightarrow> group_step n s (s\<lparr>phase := Stopping n, stopSignal := sig\<rparr>)"
| stop_skip: "phase s = Stopping (Suc i) \<Longrightarrow> i \<in> fst ` set (errTrace s) \<Longrightarrow>
    group_step n s (s\<lparr>phase := Stopping i\<rparr>)"
| stop_signal: "phase s = Stopping (Suc i) \<Longrightarrow> i \<notin> fst ` set (errTrace s) \<Longrightarrow>
    group_step n s (s\<lparr>phase := Awaiting i, signalled := signalled s @ [i]\<rparr>)"
| stop_forward: "phase s = Awaiting i \<Longrightarrow> sig \<noteq> stopSignal s \<Longrightarrow>
    group_step n s (s\<lparr>stopSignal := sig, signalled := signalled s @ [i]\<rparr>)"
| stop_exit: "phase s = Awaiting i \<Longrightarrow> exitedMembers s i = Some e \<Longrightarrow>
    group_step n s (s\<lparr>phase := Stopping i, errTrace := errTrace s @ [(i, e)]\<rparr>)"
| stop_done: "phase s = Stopping 0 \<Longrightarrow> group_step n s (s\<lparr>phase := GroupDone\<rparr>)"

inductive group_reachable :: "nat \<Rightarrow> group_state \<Rightarrow> bool" for n where
  group_init: "group_reachable n (group_start n)"
| group_next: "group_reachable n s \<Longrightarrow> group_step n s s' \<Longrightarrow> group_reachable n s'"

section \<open>Order\<close>

text \<open>The members from this one on have exited, as far as they were started.\<close>

definition stop_bound :: "group_state \<Rightarrow> nat" where
  "stop_bound s =
     (case phase s of Starting k \<Rightarrow> started s | GroupRunning \<Rightarrow> started s | Stopping i \<Rightarrow> i
      | Awaiting i \<Rightarrow> Suc i | GroupDone \<Rightarrow> 0)"

definition phase_inv :: "nat \<Rightarrow> group_state \<Rightarrow> bool" where
  "phase_inv n s \<longleftrightarrow>
     (case phase s of
        Starting k \<Rightarrow> started s = Suc k \<and> signalled s = [] \<and> errTrace s = []
      | GroupRunning \<Rightarrow> started s = n \<and> (\<forall>i. i < n \<longrightarrow> i \<in> readyMembers s) \<and> signalled s = [] \<and> errTrace s = []
      | Stopping i \<Rightarrow> i \<le> started s
      | Awaiting i \<Rightarrow> i < started s
      | GroupDone \<Rightarrow> True)"

definition group_inv :: "nat \<Rightarrow> group_state \<Rightarrow> bool" where
  "group_inv n s \<longleftrightarrow>
     phase_inv n s \<and> started s \<le> n \<and>
     (\<forall>i. Suc i < started s \<longrightarrow> i \<in> readyMembers s) \<and>
     (\<forall>i. i \<in> fst ` set (errTrace s) \<longrightarrow> (\<exists>e. exitedMembers s i = Some e)) \<and>
     (\<forall>j. stop_bound s \<le> j \<longrightarrow> j < started s \<longrightarrow> (\<exists>e. exitedMembers s j = Some e)) \<and>
     (\<forall>i. i \<in> set (signalled s) \<longrightarrow> stop_bound s \<le> Suc i)"

lemma group_inv_start: "group_inv n (group_start n)"
  by (auto simp: group_inv_def phase_inv_def stop_bound_def group_start_def enter_start_def)

lemma bound_down:
  "\<forall>j. Suc i \<le> j \<longrightarrow> j < m \<longrightarrow> P j \<Longrightarrow> P i \<Longrightarrow> \<forall>j. i \<le> j \<longrightarrow> j < m \<longrightarrow> P j"
  by (metis Suc_leI le_neq_implies_less)

lemma group_inv_step: "group_step n s s' \<Longrightarrow> group_inv n s \<Longrightarrow> group_inv n s'"
proof (induction rule: group_step.induct)
  case (start_ready s k)
  then have s: "started s = Suc k" "signalled s = []" "errTrace s = []" "Suc k \<le> n"
      and r: "\<forall>i. i < k \<longrightarrow> i \<in> readyMembers s"
    by (simp_all add: group_inv_def phase_inv_def)
  have all: "\<forall>i. i < Suc k \<longrightarrow> i \<in> readyMembers s"
    using r start_ready.hyps(2) by (simp add: less_Suc_eq)
  show ?case
  proof (cases "Suc k < n")
    case True
    with s all show ?thesis by (simp add: group_inv_def phase_inv_def stop_bound_def enter_start_def)
  next
    case False
    with s(4) have "n = Suc k" by simp
    with s all show ?thesis by (simp add: group_inv_def phase_inv_def stop_bound_def enter_start_def)
  qed
next
  case (stop_skip s i)
  then have "\<exists>e. exitedMembers s i = Some e" and "\<forall>j. Suc i \<le> j \<longrightarrow> j < started s \<longrightarrow> (\<exists>e. exitedMembers s j = Some e)"
    by (simp_all add: group_inv_def stop_bound_def)
  from bound_down [OF this(2,1)] stop_skip show ?case
    by (simp add: group_inv_def phase_inv_def stop_bound_def le_SucI)
next
  case (stop_exit s i e)
  then have "\<exists>e. exitedMembers s i = Some e" and "\<forall>j. Suc i \<le> j \<longrightarrow> j < started s \<longrightarrow> (\<exists>e. exitedMembers s j = Some e)"
    by (simp_all add: group_inv_def stop_bound_def)
  from bound_down [OF this(2,1)] stop_exit show ?case
    by (simp add: group_inv_def phase_inv_def stop_bound_def le_SucI)
next
  case (stop_done s)
  then show ?case by (simp add: group_inv_def phase_inv_def stop_bound_def)
next
  case (member_exits i s e)
  then show ?case
    by (cases "phase s") (auto simp: group_inv_def phase_inv_def stop_bound_def)
next
  case (member_ready i s)
  then show ?case
    by (cases "phase s") (auto simp: group_inv_def phase_inv_def stop_bound_def)
qed (auto simp: group_inv_def phase_inv_def stop_bound_def)

lemma group_inv_reachable: "group_reachable n s \<Longrightarrow> group_inv n s"
  by (induction rule: group_reachable.induct) (auto intro: group_inv_start group_inv_step)

lemma group_order:
  assumes "group_reachable n s"
  shows "Suc i < started s \<Longrightarrow> i \<in> readyMembers s"
    and "i \<in> set (signalled s) \<Longrightarrow> i < j \<Longrightarrow> j < started s \<Longrightarrow> \<exists>e. exitedMembers s j = Some e"
    and "phase s = GroupDone \<Longrightarrow> i < started s \<Longrightarrow> \<exists>e. exitedMembers s i = Some e"
  using group_inv_reachable [OF assms] by (auto simp: group_inv_def stop_bound_def)

text \<open>Every member can come to be started.\<close>

definition starting_at :: "nat \<Rightarrow> group_state" where
  "starting_at k = \<lparr>phase = Starting k, stopSignal = terminationSignal, started = Suc k, readyMembers = {..<k}, exitedMembers = Map.empty,
     signalled = [], errTrace = []\<rparr>"

lemma starting_at_reachable: "k < n \<Longrightarrow> group_reachable n (starting_at k)"
proof (induction k)
  case 0
  then have "group_start n = starting_at 0"
    by (simp add: group_start_def enter_start_def starting_at_def)
  then show ?case using group_init [of n] by simp
next
  case (Suc k)
  let ?s = "(starting_at k)\<lparr>readyMembers := insert k {..<k}\<rparr>"
  have "group_step n (starting_at k) ((starting_at k)\<lparr>readyMembers := insert k (readyMembers (starting_at k))\<rparr>)"
    by (rule member_ready) (simp_all add: starting_at_def)
  then have "group_reachable n ?s"
    using Suc by (simp add: starting_at_def group_next)
  moreover have "group_step n ?s (enter_start n (Suc k) ?s)"
    by (rule start_ready) (simp_all add: starting_at_def)
  moreover have "enter_start n (Suc k) ?s = starting_at (Suc k)"
    using Suc.prems by (simp add: enter_start_def starting_at_def lessThan_Suc)
  ultimately show ?case by (metis group_next)
qed

end
