(* ===== verification/Server.thy ===== *)
theory Server
  imports Routing Requests Migrations Metrics Connection Ordered_Group
begin

text \<open>
  The server process: \<open>cmd/routing-api/main.go\<close>, the route register of \<open>helpers/helpers.go\<close> and the
  migration runner. A runner of ifrit is modelled by what it does until it closes its ready channel
  or returns, and by its loop on what its channels deliver.
\<close>

section \<open>Runners\<close>

datatype runner_start = BecameReady | Returned "go_error option"

definition Runner_Run :: "'s schema_db option \<Rightarrow> ('s, runner_start) action" where
  "Runner_Run sqlDB =
     tryE (RunAllMigration sqlDB) (\<lambda>r. case r of
       Inl err2 \<Rightarrow> returnE (Returned (Some err2))
     | Inr _ \<Rightarrow> returnE BecameReady)"

text \<open>\<open>seedRouterGroups\<close>; the error of the read is ignored.\<close>

definition seed_group :: "'d DB \<Rightarrow> RouterGroup \<Rightarrow> (('u, 'd) server, unit) action" where
  "seed_group db rg =
     bindE (onEnv uuid_NewV4) (\<lambda>guid. onDb (db_SaveRouterGroup db (rg\<lparr>rgGuid := guid\<rparr>)))"

definition seedRouterGroups :: "'d DB \<Rightarrow> RouterGroup list \<Rightarrow> (('u, 'd) server, runner_start) action" where
  "seedRouterGroups db groups =
     tryE (if groups \<noteq> []
           then tryE (onDb (db_ReadRouterGroups db)) (\<lambda>r.
                if (case r of Inl _ \<Rightarrow> [] | Inr routerGroups \<Rightarrow> routerGroups) = []
                then forE (seed_group db) groups else returnE ())
           else returnE ())
       (\<lambda>r. case r of Inl err \<Rightarrow> returnE (Returned (Some err)) | Inr _ \<Rightarrow> returnE BecameReady)"

definition constructStopper :: "'d DB \<Rightarrow> ('d, unit) action" where
  "constructStopper db = db_CancelWatches db"

section \<open>The route register\<close>

text \<open>A ticker with an interval that is not positive panics when it is made.\<close>

definition NewTicker :: "duration \<Rightarrow> duration go" where
  "NewTicker d = (if d \<le> 0 then Panic ''non-positive interval for NewTicker'' else Ok d)"

definition constructRouteRegister ::
    "string \<Rightarrow> uint16 \<Rightarrow> string \<Rightarrow> string \<Rightarrow> duration \<Rightarrow> (Route \<times> duration) go" where
  "constructRouteRegister ip port logGuid systemDomain maxTTL =
     (let host = ''api.'' @ systemDomain @ ''/routing'';
          route = NewRoute host port ip logGuid [] (int_seconds maxTTL);
          registerInterval = go_div (int_seconds maxTTL) 2
      in map_go (\<lambda>ticker. (route, ticker)) (NewTicker (seconds registerInterval)))"

datatype register_input = RegisterTick | RegisterSignal

text \<open>What \<open>Run\<close> returns, if it does, on what its channels deliver.\<close>

primrec register_loop :: "'d DB \<Rightarrow> Route \<Rightarrow> register_input list \<Rightarrow> ('d, go_error option option) action" where
  "register_loop db route [] = returnE None"
| "register_loop db route (i # is) =
     (case i of
        RegisterTick \<Rightarrow> tryE (db_SaveRoute db route) (\<lambda>_. register_loop db route is)
      | RegisterSignal \<Rightarrow>
          tryE (db_DeleteRoute db route) (\<lambda>r. case r of
            Inl err \<Rightarrow> returnE (Some (Some err))
          | Inr _ \<Rightarrow> returnE (Some None)))"

definition RouteRegister_Run :: "'d DB \<Rightarrow> Route \<Rightarrow> register_input list \<Rightarrow> ('d, go_error option option) action" where
  "RouteRegister_Run db route inputs =
     tryE (db_SaveRoute db route) (\<lambda>r. case r of
       Inl err \<Rightarrow> returnE (Some (Some (ErrorString (''registration error: '' @ error_text err))))
     | Inr _ \<Rightarrow> register_loop db route inputs)"

section \<open>The lock\<close>

text \<open>
  The acquirer runs the lock in a goroutine, which makes the acquirer ready once the lock is held and
  hands on the lock's error at the end; the acquirer itself only waits for a signal, then returns
  without an error while the goroutine goes on.
\<close>

datatype acquirer_input = LockHeld | LockEnded "go_error option" | AcquirerSignal string

record acquirer =
  acReady :: bool
  acReturned :: "go_error option option"
  acLockErrs :: "go_error option list"

primrec acquirer_step :: "acquirer_input \<Rightarrow> acquirer \<Rightarrow> acquirer" where
  "acquirer_step LockHeld a = a\<lparr>acReady := True\<rparr>"
| "acquirer_step (LockEnded err) a = a\<lparr>acLockErrs := acLockErrs a @ [err]\<rparr>"
| "acquirer_step (AcquirerSignal signal) a =
     (if acReturned a = None then a\<lparr>acReturned := Some None\<rparr> else a)"

definition lock_acquirer :: "acquirer_input list \<Rightarrow> acquirer" where
  "lock_acquirer inputs = fold acquirer_step inputs \<lparr>acReady = False, acReturned = None, acLockErrs = []\<rparr>"

text \<open>A lock that fails does not end the acquirer, nor does it become ready without the lock.\<close>

lemma lock_acquirer_waits:
  "acReady (lock_acquirer inputs) \<longleftrightarrow> LockHeld \<in> set inputs"
  "acReturned (lock_acquirer inputs) = (if \<exists>signal. AcquirerSignal signal \<in> set inputs then Some None else None)"
proof -
  have "acReady (fold acquirer_step inputs a) \<longleftrightarrow> acReady a \<or> LockHeld \<in> set inputs" for a
  proof (induction inputs arbitrary: a)
    case (Cons i inputs)
    then show ?case by (cases i) auto
  qed simp
  then show "acReady (lock_acquirer inputs) \<longleftrightarrow> LockHeld \<in> set inputs"
    by (simp add: lock_acquirer_def)
  have "acReturned (fold acquirer_step inputs a) =
      (if acReturned a = None \<and> (\<exists>signal. AcquirerSignal signal \<in> set inputs) then Some None else acReturned a)" for a
  proof (induction inputs arbitrary: a)
    case (Cons i inputs)
    then show ?case by (cases i) auto
  qed simp
  then show "acReturned (lock_acquirer inputs) = (if \<exists>signal. AcquirerSignal signal \<in> set inputs then Some None else None)"
    by (simp add: lock_acquirer_def)
qed

text \<open>
  The releaser forwards signals to the lock and returns the lock's error after a pause; \<open>None\<close>: it is
  still running. The signals it has forwarded come first.
\<close>

datatype releaser_input = ReleaserSignal string | LockReturned "go_error option"

primrec lock_releaser ::
    "duration \<Rightarrow> releaser_input list \<Rightarrow> string list \<times> (duration \<times> go_error option) option" where
  "lock_releaser retryInterval [] = ([], None)"
| "lock_releaser retryInterval (i # is) =
     (case i of
        ReleaserSignal signal \<Rightarrow>
          (case lock_releaser retryInterval is of (released, r) \<Rightarrow> (signal # released, r))
      | LockReturned err \<Rightarrow> ([], Some (int64 (retryInterval + 5 * second), err)))"

section \<open>Starting the server\<close>

definition checkFlags :: "string \<Rightarrow> string \<Rightarrow> go_error option" where
  "checkFlags configPath ip =
     (if configPath = [] then Some (ErrorString ''no configuration file provided'')
      else if ip = [] then Some (ErrorString ''no ip address provided'')
      else None)"

definition isSql :: "SqlDB_config \<Rightarrow> bool" where
  "isSql sqlDB \<longleftrightarrow> sqHost sqlDB \<noteq> [] \<and> sqPort sqlDB > 0 \<and> sqSchema sqlDB \<noteq> []"

text \<open>
  The members of the group in their order, by name. What they do is in \<open>lock_acquirer\<close>, \<open>Runner_Run\<close>,
  \<open>seedRouterGroups\<close>, the handlers, the route register, \<open>constructStopper\<close>, \<open>Metrics\<close>, \<open>CleanupRoutes\<close> and
  \<open>lock_releaser\<close>; the lock itself and the listening of the HTTP servers are code outside the sources.
\<close>

definition server_members :: "Config \<Rightarrow> string list" where
  "server_members cfg =
     [''lock-acquirer'', ''migration'', ''seed-router-groups''] @
     (if apHTTPEnabled (cfAPI cfg) then [''api-server'', ''route-register''] else []) @
     [''api-mtls-server''] @
     [''admin-server'', ''conn-stopper'', ''metrics''] @
     (if isSql (cfSqlDB cfg) then [''sql-route-pruner''] else []) @
     [''lock-releaser'']"

text \<open>What \<open>main\<close> reaches outside the sources.\<close>

record ('c, 's) main_env =
  meReadFile :: "string \<Rightarrow> go_error + string"
  meUnmarshal :: "string \<Rightarrow> go_error + Config"
  meDropsonde :: "string \<Rightarrow> string \<Rightarrow> go_error option"
  meX509 :: "'c x509"
  meGormOpen :: "string \<Rightarrow> string \<Rightarrow> go_error + 's"
  meGorm :: "'s gorm_db"
  meStatsd :: "string \<Rightarrow> duration \<Rightarrow> go_error option"
  meLocket :: "ClientLocketConfig \<Rightarrow> go_error option"
  meUaaNew :: "'c uaa_settings \<Rightarrow> go_error + uaa_API"
  meJwt :: jwt_lib
  meTlsServer :: "APIConfig \<Rightarrow> go_error option"
  meUrlParse :: "string \<Rightarrow> go_error + string"
  meDecodeRoutes :: "string \<Rightarrow> go_error + Route list"
  meDecodeTcp :: "string \<Rightarrow> go_error + TcpRouteMapping list"
  meDecodeRouterGroup :: "string \<Rightarrow> go_error + RouterGroup"
  meWorld :: world

definition uaa_config :: "Config \<Rightarrow> uaa_Config" where
  "uaa_config cfg =
     \<lparr>ucPort = oaPort (cfOAuth cfg), ucProtocol = [], ucSkipSSLValidation = oaSkipSSLValidation (cfOAuth cfg),
      ucClientName = oaClientName (cfOAuth cfg), ucClientSecret = oaClientSecret (cfOAuth cfg),
      ucCACerts = oaCACerts (cfOAuth cfg), ucTokenEndpoint = oaTokenEndpoint (cfOAuth cfg), ucRequestTimeout = 0\<rparr>"

text \<open>The handlers share the database, the validator and the maximal TTL in seconds.\<close>

definition server_handler :: "('c, 's) main_env \<Rightarrow> port_settings \<Rightarrow> Config \<Rightarrow> (tokenValidator option, 's SqlDB) handler" where
  "server_handler me ports cfg =
     \<lparr>hUaa = validator_of (meJwt me), hDb = SqlDB_DB (NewGormClient (meGorm me)),
      hValidator = NewValidator (meUrlParse me), hMaxTTL = int_seconds (cfMaxTTL cfg), hPorts = ports,
      hDecodeRoutes = meDecodeRoutes me, hDecodeTcp = meDecodeTcp me, hDecodeRouterGroup = meDecodeRouterGroup me\<rparr>"

datatype 'a startup = Exit1 | Crash string | Group 'a

primrec or_exit :: "'a go \<Rightarrow> ('a \<Rightarrow> 'b startup) \<Rightarrow> 'b startup" where
  "or_exit (Ok x) k = k x"
| "or_exit (Fail e) k = Exit1"
| "or_exit (Panic p) k = Crash p"

definition unless_err :: "go_error option \<Rightarrow> 'b startup \<Rightarrow> 'b startup" where
  "unless_err err k = (if err = None then k else Exit1)"

text \<open>\<open>logger.Fatal\<close> panics with the error.\<close>

definition unless_fatal :: "go_error option \<Rightarrow> 'b startup \<Rightarrow> 'b startup" where
  "unless_fatal err k = (case err of None \<Rightarrow> k | Some e \<Rightarrow> Crash (error_text e))"

record ('c, 's) running =
  rnConfig :: Config
  rnMembers :: "string list"
  rnRegister :: "(Route \<times> duration) option"
  rnDb :: "'s opened"
  rnUaa :: "tokenValidator option"
  rnApi :: "(tokenValidator option, 's SqlDB) http_handler mux"

text \<open>
  \<open>main\<close> up to the start of the group. \<open>apiRoutes\<close> and \<open>adminRoutes\<close> are the orders in which the routes
  come out of their maps, \<open>inputs\<close> what the event streams get.
\<close>

definition main ::
    "('c, 's) main_env \<Rightarrow> string \<Rightarrow> bool \<Rightarrow> string \<Rightarrow> rata_route list \<Rightarrow> rata_route list \<Rightarrow> stream_input list \<Rightarrow>
     port_settings \<Rightarrow> 'c conn_env \<Rightarrow> ('c, 's) running startup" where
  "main me configPath devMode ip apiRoutes adminRoutes inputs s e =
     unless_err (checkFlags configPath ip)
     (case NewConfigFromFile (meReadFile me) (meUnmarshal me) configPath devMode s of (r, ports) \<Rightarrow>
      or_exit r (\<lambda>cfg.
      unless_err (meDropsonde me (mcAddress (cfMetronConfig cfg) @ '':'' @ mcPort (cfMetronConfig cfg)) (cfLogGuid cfg))
      (or_exit (fst (NewSqlDB (meX509 me) (meGormOpen me) (meWorld me) (Some (cfSqlDB cfg)) e)) (\<lambda>database.
      unless_err (meStatsd me (cfStatsdEndpoint cfg) (cfStatsdClientFlushInterval cfg))
      (or_exit (sum_go (admin_handler adminRoutes (server_handler me ports cfg))) (\<lambda>adminServer.
       or_exit (NewTicker (cfMetricsReportingInterval cfg)) (\<lambda>metricsTicker.
       unless_fatal (meLocket me (cfLocket cfg))
       (or_exit (NewTokenValidator (meJwt me) (meX509 me) (meReadFile me) (meUaaNew me) devMode (uaa_config cfg)) (\<lambda>uaaClient.
        or_exit (if apHTTPEnabled (cfAPI cfg)
                 then (case apiHandler apiRoutes (server_handler me ports cfg) inputs of
                         Inl err \<Rightarrow> Fail err
                       | Inr _ \<Rightarrow> map_go Some (constructRouteRegister ip (apListenPort (cfAPI cfg)) (cfLogGuid cfg)
                                    (cfSystemDomain cfg) (cfMaxTTL cfg)))
                 else Ok None) (\<lambda>register.
        unless_fatal (meTlsServer me (cfAPI cfg))
        (or_exit (sum_go (apiHandler apiRoutes (server_handler me ports cfg) inputs)) (\<lambda>mtlsHandler.
         Group \<lparr>rnConfig = cfg, rnMembers = server_members cfg, rnRegister = register, rnDb = database,
           rnUaa = uaaClient, rnApi = mtlsHandler\<rparr>))))))))))))"

section \<open>Which configurations start\<close>

lemma constructRouteRegister_result:
  assumes "- (2 ^ 63) \<le> maxTTL" and "maxTTL < 2 ^ 63"
  shows "constructRouteRegister ip port logGuid systemDomain maxTTL =
    (if maxTTL < 2 * second then Panic ''non-positive interval for NewTicker''
     else Ok (NewRoute (''api.'' @ systemDomain @ ''/routing'') port ip logGuid [] (int_seconds maxTTL),
              (int_seconds maxTTL div 2) * second))"
proof -
  define t where "t = int_seconds maxTTL"
  have "\<bar>t\<bar> \<le> 9223372037"
  proof (cases "0 \<le> maxTTL")
    case True
    then show ?thesis using int_seconds_bounds(1,2) [of maxTTL] assms by (simp add: t_def)
  next
    case False
    then show ?thesis using int_seconds_bounds(1,2) [of "- maxTTL"] assms by (simp add: t_def int_seconds_minus)
  qed
  then have "seconds (go_div t 2) = go_div t 2 * second"
    by (subst seconds_exact) (auto simp: go_div_def second_def abs_mult sgn_if)
  moreover have "go_div t 2 \<le> 0 \<longleftrightarrow> t < 2"
    by (auto simp: go_div_def sgn_if)
  moreover have "t < 2 \<longleftrightarrow> maxTTL < 2 * second"
    unfolding t_def by (rule int_seconds_short [OF assms])
  moreover have "2 \<le> t \<Longrightarrow> go_div t 2 = t div 2"
    by (simp add: go_div_def)
  ultimately show ?thesis
    by (auto simp: constructRouteRegister_def NewTicker_def t_def [symmetric] second_def mult_le_0_iff Let_def)
qed

lemma admin_handler_mux:
  assumes "mset routes = mset AdminRoutesMap"
  shows "\<exists>mux. admin_handler routes h = Inr mux"
proof -
  have plain: "list_all plain_pattern AdminRoutesMap" "distinct (map snd AdminRoutesMap)"
      "list_all (\<lambda>r. map_of (admin_actions h) (fst r) \<noteq> None) AdminRoutesMap"
    by (simp_all add: AdminRoutesMap_def plain_pattern_def http_verbs_def admin_actions_def)
  have set: "set routes = set AdminRoutesMap" using assms by (rule mset_eq_setD)
  have "mset (map snd routes) = mset (map snd AdminRoutesMap)" using assms by (simp only: mset_map)
  then have "distinct (map snd routes)"
    by (rule mset_eq_imp_distinct_iff [THEN iffD2, OF _ plain(2)])
  then have "NewRouter_add (map_of (admin_actions h)) routes [] =
      Inr ([] @ map (\<lambda>(n, m, p). (m, p, Serve (the (map_of (admin_actions h) n)))) routes)"
    using plain(1,3) set by (intro NewRouter_plain) (simp_all add: list_all_iff)
  then show ?thesis by (simp add: admin_handler_def NewRouter_def)
qed

text \<open>The services and files that a configuration names are there.\<close>

definition available :: "('c, 's) main_env \<Rightarrow> bool \<Rightarrow> 'c conn_env \<Rightarrow> Config \<Rightarrow> bool" where
  "available me devMode e cfg \<longleftrightarrow>
     meDropsonde me (mcAddress (cfMetronConfig cfg) @ '':'' @ mcPort (cfMetronConfig cfg)) (cfLogGuid cfg) = None \<and>
     (\<exists>d. fst (NewSqlDB (meX509 me) (meGormOpen me) (meWorld me) (Some (cfSqlDB cfg)) e) = Ok d) \<and>
     meStatsd me (cfStatsdEndpoint cfg) (cfStatsdClientFlushInterval cfg) = None \<and>
     meLocket me (cfLocket cfg) = None \<and>
     (\<exists>u. NewTokenValidator (meJwt me) (meX509 me) (meReadFile me) (meUaaNew me) devMode (uaa_config cfg) = Ok u) \<and>
     meTlsServer me (cfAPI cfg) = None"

text \<open>
  (C25) With every service available, \<open>main\<close> starts the group of processes for an accepted configuration
  exactly if its metrics interval is positive and, with the HTTP listener enabled, its maximal TTL is at
  least two seconds; otherwise it crashes, because a ticker is made with an interval that is not
  positive. With the listener enabled the server registers itself with the maximal TTL in seconds,
  renewing at least twice in that time.
\<close>

theorem main_starts_iff:
  assumes "mset apiRoutes = mset RoutesMap" and "mset adminRoutes = mset AdminRoutesMap"
    and "configPath \<noteq> []" and "ip \<noteq> []"
    and "NewConfigFromFile (meReadFile me) (meUnmarshal me) configPath devMode s = (Ok cfg, ports)"
    and "- (2 ^ 63) \<le> cfMaxTTL cfg" and "cfMaxTTL cfg < 2 ^ 63"
    and "available me devMode e cfg"
  shows "case main me configPath devMode ip apiRoutes adminRoutes inputs s e of
      Group r \<Rightarrow> 0 < cfMetricsReportingInterval cfg \<and> (apHTTPEnabled (cfAPI cfg) \<longrightarrow> 2 * second \<le> cfMaxTTL cfg) \<and>
        rnConfig r = cfg \<and> rnMembers r = server_members cfg \<and>
        (if apHTTPEnabled (cfAPI cfg)
         then \<exists>route interval. rnRegister r = Some (route, interval) \<and>
           reTTL (rEntity route) = Some (int_seconds (cfMaxTTL cfg)) \<and>
           0 < interval \<and> 2 * interval \<le> int_seconds (cfMaxTTL cfg) * second
         else rnRegister r = None)
    | Crash p \<Rightarrow> p = ''non-positive interval for NewTicker'' \<and>
        (cfMetricsReportingInterval cfg \<le> 0 \<or> apHTTPEnabled (cfAPI cfg) \<and> cfMaxTTL cfg < 2 * second)
    | Exit1 \<Rightarrow> False"
proof -
  let ?h = "server_handler me ports cfg"
  obtain mux where api: "apiHandler apiRoutes ?h inputs = Inr mux"
    using apiHandler_mux [OF assms(1)] by blast
  obtain amux where adm: "admin_handler adminRoutes ?h = Inr amux"
    using admin_handler_mux [OF assms(2)] by blast
  obtain d u where avail: "fst (NewSqlDB (meX509 me) (meGormOpen me) (meWorld me) (Some (cfSqlDB cfg)) e) = Ok d"
      "NewTokenValidator (meJwt me) (meX509 me) (meReadFile me) (meUaaNew me) devMode (uaa_config cfg) = Ok u"
    using assms(8) by (auto simp: available_def)
  note run = main_def checkFlags_def assms(3-5) api adm avail NewTicker_def unless_err_def unless_fatal_def
    assms(8) [unfolded available_def, simplified]
  have ttl: "2 \<le> int_seconds (cfMaxTTL cfg)" if "\<not> cfMaxTTL cfg < 2 * second"
    using int_seconds_short [OF assms(6,7)] that by linarith
  have reg: "reTTL (rEntity (NewRoute h port ip' l rs n)) = Some n" for h port ip' l rs n
    by (simp add: NewRoute_def)
  show ?thesis
  proof (cases "cfMetricsReportingInterval cfg \<le> 0")
    case False
    then show ?thesis
      using ttl
      by (auto simp: run constructRouteRegister_result [OF assms(6,7)] reg second_def)
  qed (simp add: run)
qed

lemma ex_config_accepted:
  "NewConfigFromFile (\<lambda>_. Inr []) (\<lambda>_. Inr ex_config) path True s =
     (Ok (completed (30 * second) second ex_config), settings_of ex_config)"
proof -
  obtain v sv where v: "Config_validate True ex_config s = (v, sv)" by (cases "Config_validate True ex_config s")
  have c: "complete_config True ex_config" "RouterGroups_Validate (settings_of ex_config) (cfRouterGroups ex_config) = None"
    by (simp_all add: complete_config_def ex_config_def)
  have p: "ParseDuration (cfMetricsReportingIntervalString ex_config) = Inr (30 * second)"
      "ParseDuration (cfStatsdClientFlushIntervalString ex_config) = Inr second"
    using ParseDuration_seconds [of 30] ParseDuration_seconds [of 1] by (simp_all add: ex_config_def)
  show ?thesis
    using Config_validate_result [OF v] c
    by (simp add: NewConfigFromFile_def NewConfigFromBytes_def bindE_def v Config_process_result p)
qed

definition ex_main_env :: "(string, mem) main_env" where
  "ex_main_env =
     \<lparr>meReadFile = (\<lambda>_. Inr []), meUnmarshal = (\<lambda>_. Inr ex_config), meDropsonde = (\<lambda>_ _. None), meX509 = ex_x509,
      meGormOpen = (\<lambda>_ _. Inr empty_mem), meGorm = mem_db, meStatsd = (\<lambda>_ _. None), meLocket = (\<lambda>_. None),
      meUaaNew = (\<lambda>_. Inl (ErrorString ''unreachable'')), meJwt = ex_lib (ex_token 0 0 Map.empty), meTlsServer = (\<lambda>_. None),
      meUrlParse = Inr, meDecodeRoutes = (\<lambda>_. Inr []), meDecodeTcp = (\<lambda>_. Inr []),
      meDecodeRouterGroup = (\<lambda>_. Inr ex_rg), meWorld = ex_world\<rparr>"

theorem main_starts_iff_witness:
  "case main ex_main_env ''config.yml'' True ''10.0.0.9'' RoutesMap AdminRoutesMap [] default_port_settings ex_conn_env of
     Group r \<Rightarrow> rnMembers r =
        [''lock-acquirer'', ''migration'', ''seed-router-groups'', ''api-server'', ''route-register'', ''api-mtls-server'',
         ''admin-server'', ''conn-stopper'', ''metrics'', ''sql-route-pruner'', ''lock-releaser'']
   | _ \<Rightarrow> False"
proof -
  define cfg where "cfg = completed (30 * second) second ex_config"
  have read: "NewConfigFromFile (meReadFile ex_main_env) (meUnmarshal ex_main_env) ''config.yml'' True default_port_settings =
      (Ok cfg, settings_of ex_config)"
    by (simp add: ex_main_env_def ex_config_accepted cfg_def)
  have cfg: "cfMaxTTL cfg = 120000000000" "cfMetricsReportingInterval cfg = 30000000000" "server_members cfg =
        [''lock-acquirer'', ''migration'', ''seed-router-groups'', ''api-server'', ''route-register'', ''api-mtls-server'',
         ''admin-server'', ''conn-stopper'', ''metrics'', ''sql-route-pruner'', ''lock-releaser'']"
    by (simp_all add: cfg_def completed_def or_default_def ex_config_def server_members_def isSql_def second_def)
  have "available ex_main_env True ex_conn_env cfg"
    by (simp add: available_def ex_main_env_def NewSqlDB_def ConnectionString_def MySQL_Build_def Let_def
        RegisterTLSConfig_ok NewTokenValidator_def cfg_def completed_def ex_config_def bindE_def)
  from main_starts_iff [OF refl refl _ _ read _ _ this, of "''10.0.0.9''" "[]"] show ?thesis
    by (simp add: cfg second_def split: startup.splits)
qed

section \<open>Registering the server\<close>

definition only_route :: "('s \<Rightarrow> Route list) \<Rightarrow> ('s \<Rightarrow> 'r) \<Rightarrow> Route \<Rightarrow> 's SqlDB \<Rightarrow> 's SqlDB \<Rightarrow> bool" where
  "only_route rrows others route d d' \<longleftrightarrow>
     others (store d') = others (store d) \<and> tcpEventHub d' = tcpEventHub d \<and> locker d' = locker d \<and>
     (\<forall>k. k \<noteq> route_key route \<longrightarrow>
        table_of route_key (rrows (store d')) k = table_of route_key (rrows (store d)) k)"

lemma only_route_trans:
  "only_route rrows others route d d' \<Longrightarrow> only_route rrows others route d' d'' \<Longrightarrow> only_route rrows others route d d''"
  by (simp add: only_route_def)

context sql_store
begin

abbreviation own_row :: "Route \<Rightarrow> 's SqlDB \<Rightarrow> Route option" where
  "own_row route d \<equiv> table_of route_key (rrows (store d)) (route_key route)"

lemma register_save:
  assumes "table_wf route_key route_guid (rrows (store d))" and "good_uuids (env d)"
    and "reTTL (rEntity route) = Some ttl" and "SaveRoute cl route d = (x, d')"
  shows "table_wf route_key route_guid (rrows (store d')) \<and> good_uuids (env d') \<and>
    only_route rrows (\<lambda>s. (trows s, grows s)) route d d' \<and>
    (case x of Ok _ \<Rightarrow> own_row route d' \<noteq> None | Fail e \<Rightarrow> own_row route d' = own_row route d | Panic p \<Rightarrow> False)"
proof -
  have "good_uuids (env d')"
    using run_op_uuids [of cl "SaveOp route" d] assms(2,4) by (simp add: run_op_def good_uuids_def)
  then show ?thesis
    using http_save_result [OF assms(1,2) assms(4) [unfolded SaveRoute_def]] assms(3)
    by (cases x) (auto simp: only_route_def)
qed

lemma register_delete:
  assumes "table_wf route_key route_guid (rrows (store d))" and "DeleteRoute cl route d = (x, d')"
  shows "table_wf route_key route_guid (rrows (store d')) \<and>
    only_route rrows (\<lambda>s. (trows s, grows s)) route d d' \<and>
    (case x of Ok _ \<Rightarrow> own_row route d' = None | Fail e \<Rightarrow> own_row route d' = own_row route d | Panic p \<Rightarrow> False)"
  using http_delete_result [OF assms(1) assms(2) [unfolded DeleteRoute_def]]
  by (cases x) (auto simp: only_route_def)

lemma register_loop_result:
  assumes "table_wf route_key route_guid (rrows (store d))" and "good_uuids (env d)"
    and "reTTL (rEntity route) = Some ttl" and "own_row route d \<noteq> None"
    and "register_loop (SqlDB_DB cl) route is d = (x, d')"
  shows "table_wf route_key route_guid (rrows (store d')) \<and>
    only_route rrows (\<lambda>s. (trows s, grows s)) route d d' \<and>
    (case x of
       Ok None \<Rightarrow> RegisterSignal \<notin> set is \<and> own_row route d' \<noteq> None
     | Ok (Some None) \<Rightarrow> RegisterSignal \<in> set is \<and> own_row route d' = None
     | Ok (Some (Some e)) \<Rightarrow> RegisterSignal \<in> set is \<and> own_row route d' \<noteq> None
     | Fail e \<Rightarrow> False | Panic p \<Rightarrow> False)"
  using assms
proof (induction "is" arbitrary: d)
  case Nil
  then show ?case by (auto simp: only_route_def)
next
  case (Cons i "is")
  show ?case
  proof (cases i)
    case RegisterTick
    obtain y d1 where sv: "SaveRoute cl route d = (y, d1)" by (cases "SaveRoute cl route d")
    note res = register_save [OF Cons.prems(1-3) sv]
    then have own: "own_row route d1 \<noteq> None" and "\<not> is_panic y"
      using Cons.prems(4) by (cases y; simp)+
    then have "register_loop (SqlDB_DB cl) route is d1 = (x, d')"
      using Cons.prems(5) sv RegisterTick by (cases y) (simp_all add: tryE_def)
    from Cons.IH [OF _ _ Cons.prems(3) own this] res RegisterTick show ?thesis
      using only_route_trans by (auto split: go.splits option.splits)
  next
    case RegisterSignal
    obtain y d1 where dl: "DeleteRoute cl route d = (y, d1)" by (cases "DeleteRoute cl route d")
    from register_delete [OF Cons.prems(1) dl] Cons.prems(4,5) dl RegisterSignal show ?thesis
      by (cases y) (auto simp: tryE_def)
  qed
qed

end

text \<open>
  (C27) The server's own route. Once the first registration has succeeded, the register keeps an entry
  for its route in the table, whatever becomes of the later renewals, until it is signalled; then it
  returns without an error exactly if it has removed the entry. If the first registration fails it
  returns at once and the table is as before. No other entry, no TCP route, no router group and no
  lock is ever changed, and the register does not panic.
\<close>

theorem RouteRegister_keeps_route:
  assumes "sql_store db rrows trows grows rstored tstored gstored"
    and "table_wf route_key route_guid (rrows (store d))" and "good_uuids (env d)"
    and "constructRouteRegister ip port logGuid systemDomain maxTTL = Ok (route, interval)"
    and "RouteRegister_Run (SqlDB_DB (NewGormClient db)) route inputs d = (x, d')"
    and "own = (\<lambda>d. table_of route_key (rrows (store d)) (route_key route))"
  shows "only_route rrows (\<lambda>s. (trows s, grows s)) route d d' \<and>
    (case x of
       Ok None \<Rightarrow> RegisterSignal \<notin> set inputs \<and> own d' \<noteq> None
     | Ok (Some None) \<Rightarrow> RegisterSignal \<in> set inputs \<and> own d' = None
     | Ok (Some (Some e)) \<Rightarrow> RegisterSignal \<in> set inputs \<and> own d' \<noteq> None \<or> own d' = own d
     | Fail e \<Rightarrow> False | Panic p \<Rightarrow> False)"
proof -
  let ?c = "NewGormClient db"
  have ttl: "reTTL (rEntity route) = Some (int_seconds maxTTL)"
    using assms(4) by (cases "NewTicker (seconds (go_div (int_seconds maxTTL) 2))")
      (auto simp: constructRouteRegister_def Let_def NewRoute_def)
  obtain y d1 where sv: "SaveRoute ?c route d = (y, d1)" by (cases "SaveRoute ?c route d")
  note res = sql_store.register_save [OF assms(1-3) ttl sv]
  show ?thesis
  proof (cases y)
    case (Ok u)
    with res have own: "table_of route_key (rrows (store d1)) (route_key route) \<noteq> None"
      and d1: "table_wf route_key route_guid (rrows (store d1))" "good_uuids (env d1)"
        "only_route rrows (\<lambda>s. (trows s, grows s)) route d d1"
      by simp_all
    have "register_loop (SqlDB_DB ?c) route inputs d1 = (x, d')"
      using assms(5) sv Ok by (simp add: RouteRegister_Run_def tryE_def)
    from sql_store.register_loop_result [OF assms(1) d1(1,2) ttl own this] d1(3) show ?thesis
      unfolding assms(6) using only_route_trans by (auto split: go.splits option.splits)
  qed (use res sv assms(5,6) in \<open>auto simp: RouteRegister_Run_def tryE_def\<close>)
qed

definition ex_own_route :: Route where
  "ex_own_route = NewRoute ''api.example.com/routing'' 3000 ''10.0.0.9'' ''my_logs'' [] 120"

lemma ex_register:
  "constructRouteRegister ''10.0.0.9'' 3000 ''my_logs'' ''example.com'' (120 * second) = Ok (ex_own_route, 60 * second)"
  "fst (RouteRegister_Run (SqlDB_DB (NewGormClient mem_db)) ex_own_route [] ex_db) = Ok None"
proof -
  have "int_seconds (120 * second) = 120"
    using int_seconds_bounds(3) [of "120 * second"] by (simp add: second_def)
  then show "constructRouteRegister ''10.0.0.9'' 3000 ''my_logs'' ''example.com'' (120 * second) = Ok (ex_own_route, 60 * second)"
    by (subst constructRouteRegister_result) (simp_all add: second_def ex_own_route_def)
  show "fst (RouteRegister_Run (SqlDB_DB (NewGormClient mem_db)) ex_own_route [] ex_db) = Ok None"
    by (simp add: RouteRegister_Run_def tryE_def ex_own_route_def sql_run_defs ex_defs mem_eval)
qed

theorem RouteRegister_keeps_route_witness:
  "table_of route_key (mroutes (store (snd
      (RouteRegister_Run (SqlDB_DB (NewGormClient mem_db)) ex_own_route [] ex_db)))) (route_key ex_own_route) \<noteq> None"
  using RouteRegister_keeps_route [OF mem.sql_store_axioms _ ex_uuids(1) ex_register(1) prod.collapse [symmetric] refl,
      of "[]"] ex_register(2)
  by (simp add: ex_tables small_tables)

section \<open>Seeding router groups\<close>

text \<open>The identifiers still to be drawn are new: not in the table, and all different.\<close>

definition fresh_uuids :: "world \<Rightarrow> string set \<Rightarrow> bool" where
  "fresh_uuids w used \<longleftrightarrow>
     (\<forall>n g. draws w \<le> n \<longrightarrow> uuids w n = Inr g \<longrightarrow> g \<noteq> [] \<and> g \<notin> used \<and> (\<forall>m. n < m \<longrightarrow> uuids w m \<noteq> Inr g))"

lemma fresh_uuids_draw:
  assumes "fresh_uuids w used" and "uuids w (draws w) = Inr g"
  shows "g \<noteq> []" "g \<notin> used" "fresh_uuids (w\<lparr>draws := Suc (draws w)\<rparr>) (insert g used)"
proof -
  note fresh = assms(1) [unfolded fresh_uuids_def, rule_format]
  show "g \<noteq> []" "g \<notin> used" using fresh [OF order_refl assms(2)] by simp_all
  have "h \<noteq> [] \<and> h \<notin> used \<and> h \<noteq> g \<and> (\<forall>m. n < m \<longrightarrow> uuids w m \<noteq> Inr h)"
    if "Suc (draws w) \<le> n" "uuids w n = Inr h" for n h
    using fresh [OF Suc_leD [OF that(1)] that(2)] fresh [OF order_refl assms(2)] that by auto
  then show "fresh_uuids (w\<lparr>draws := Suc (draws w)\<rparr>) (insert g used)"
    by (simp add: fresh_uuids_def)
qed

text \<open>Some of the groups, from the first on, have been entered under new identifiers.\<close>

definition entered ::
    "(string \<rightharpoonup> string \<times> string \<times> string) \<Rightarrow> RouterGroup list \<Rightarrow> nat \<Rightarrow> (string \<rightharpoonup> string \<times> string \<times> string) \<Rightarrow> bool" where
  "entered before groups n after \<longleftrightarrow>
     (\<exists>guids. length guids = n \<and> n \<le> length groups \<and> distinct guids \<and> set guids \<inter> dom before = {} \<and>
        after = before ++ map_of (zip guids (map (rg_merge None) groups)))"

lemma entered_none: "entered before groups 0 before"
  by (simp add: entered_def)

lemma entered_step:
  assumes "g \<notin> dom before" and "entered (before(g \<mapsto> rg_merge None rg)) groups n after"
  shows "entered before (rg # groups) (Suc n) after"
proof -
  obtain guids where guids: "length guids = n" "n \<le> length groups" "distinct guids"
      "set guids \<inter> dom (before(g \<mapsto> rg_merge None rg)) = {}"
      "after = before(g \<mapsto> rg_merge None rg) ++ map_of (zip guids (map (rg_merge None) groups))"
    using assms(2) by (auto simp: entered_def)
  have "g \<notin> dom (map_of (zip guids (map (rg_merge None) groups)))"
    using guids(4) by (auto dest!: map_of_SomeD set_zip_leftD)
  then have "after = before ++ map_of (zip (g # guids) (map (rg_merge None) (rg # groups)))"
    by (auto simp: guids(5) fun_eq_iff map_add_def dom_def split: option.splits)
  with guids assms(1) show ?thesis
    unfolding entered_def by (intro exI [of _ "g # guids"]) auto
qed

lemma seed_group_apply:
  "seed_group db rg s =
     (let s1 = s\<lparr>srvEnv := (srvEnv s)\<lparr>draws := Suc (draws (srvEnv s))\<rparr>\<rparr>
      in case uuids (srvEnv s) (draws (srvEnv s)) of
           Inl e \<Rightarrow> (Fail e, s1)
         | Inr guid \<Rightarrow> (case db_SaveRouterGroup db (rg\<lparr>rgGuid := guid\<rparr>) (srvDb s) of (y, d) \<Rightarrow> (y, s1\<lparr>srvDb := d\<rparr>)))"
  by (simp add: seed_group_def bindE_def zoom_def uuid_NewV4_def Let_def split: sum.splits)

context sql_store
begin

lemma seed_groups_result:
  assumes "rgs_wf (srvDb s)" and "list_all (\<lambda>g. mGuid (rgModel g) = []) groups"
    and "fresh_uuids (srvEnv s) (dom (rg_table (grows (store (srvDb s)))))"
    and "forE (seed_group (SqlDB_DB cl)) groups s = (x, s')"
  shows "rg_rest (srvDb s') = rg_rest (srvDb s) \<and>
    (\<exists>n. entered (rg_table (grows (store (srvDb s)))) groups n (rg_table (grows (store (srvDb s')))) \<and>
       (case x of Ok _ \<Rightarrow> n = length groups | Fail e \<Rightarrow> n < length groups | Panic p \<Rightarrow> False))"
  using assms
proof (induction groups arbitrary: s)
  case Nil
  then show ?case by (auto simp: entered_none intro: exI [of _ 0])
next
  case (Cons rg groups)
  let ?before = "rg_table (grows (store (srvDb s)))"
  let ?w = "(srvEnv s)\<lparr>draws := Suc (draws (srvEnv s))\<rparr>"
  show ?case
  proof (cases "uuids (srvEnv s) (draws (srvEnv s))")
    case (Inl e)
    then have "seed_group (SqlDB_DB cl) rg s = (Fail e, s\<lparr>srvEnv := ?w\<rparr>)" by (simp add: seed_group_apply)
    with Cons.prems(4) have "x = Fail e" "srvDb s' = srvDb s"
      by (auto simp: bindE_def)
    then show ?thesis using entered_none by auto
  next
    case (Inr guid)
    obtain y d where sv: "SaveRouterGroup cl (rg\<lparr>rgGuid := guid\<rparr>) (srvDb s) = (y, d)"
      by (cases "SaveRouterGroup cl (rg\<lparr>rgGuid := guid\<rparr>) (srvDb s)")
    have guid: "guid \<noteq> []" "guid \<notin> dom ?before" and later: "fresh_uuids ?w (insert guid (dom ?before))"
      using fresh_uuids_draw [OF Cons.prems(3) Inr] by simp_all
    have run: "(case y of Ok _ \<Rightarrow> forE (seed_group (SqlDB_DB cl)) groups (s\<lparr>srvEnv := ?w, srvDb := d\<rparr>)
        | Fail e \<Rightarrow> (Fail e, s\<lparr>srvEnv := ?w, srvDb := d\<rparr>) | Panic p \<Rightarrow> (Panic p, s\<lparr>srvEnv := ?w, srvDb := d\<rparr>)) = (x, s')"
      using Cons.prems(4) seed_group_apply [of "SqlDB_DB cl" rg s] Inr sv
      by (cases y) (auto simp: bindE_def)
    have "rgGuid (rg\<lparr>rgGuid := guid\<rparr>) \<noteq> []" "mGuid (rgModel (rg\<lparr>rgGuid := guid\<rparr>)) = [] \<or>
        mGuid (rgModel (rg\<lparr>rgGuid := guid\<rparr>)) = rgGuid (rg\<lparr>rgGuid := guid\<rparr>)"
      using guid(1) Cons.prems(2) by simp_all
    note save = SaveRouterGroup_result [OF Cons.prems(1) this sv]
    show ?thesis
    proof (cases y)
      case (Ok u)
      have "rg_merge (?before guid) (rg\<lparr>rgGuid := guid\<rparr>) = rg_merge None rg"
        using guid(2) by (auto simp: rg_merge_def split: option.splits)
      with save Ok have d: "rg_rest d = rg_rest (srvDb s)" "rgs_wf d"
          "rg_table (grows (store d)) = ?before(guid \<mapsto> rg_merge None rg)"
        by simp_all
      let ?s1 = "s\<lparr>srvEnv := ?w, srvDb := d\<rparr>"
      have "rgs_wf (srvDb ?s1)" "list_all (\<lambda>g. mGuid (rgModel g) = []) groups"
          "fresh_uuids (srvEnv ?s1) (dom (rg_table (grows (store (srvDb ?s1)))))"
          "forE (seed_group (SqlDB_DB cl)) groups ?s1 = (x, s')"
        using d(2,3) Cons.prems(2) later run Ok by simp_all
      note ih = Cons.IH [OF this]
      have "srvDb ?s1 = d" by simp
      from ih [unfolded this d(3)] obtain n where n: "rg_rest (srvDb s') = rg_rest d"
          "entered (?before(guid \<mapsto> rg_merge None rg)) groups n (rg_table (grows (store (srvDb s'))))"
          "case x of Ok _ \<Rightarrow> n = length groups | Fail e \<Rightarrow> n < length groups | Panic p \<Rightarrow> False"
        by blast
      from entered_step [OF guid(2) n(2)] n(1,3) d(1) show ?thesis
        by (auto split: go.splits intro!: exI [of _ "Suc n"])
    qed (use save run entered_none in \<open>auto intro: exI [of _ 0]\<close>)
  qed
qed

end

text \<open>
  (C28) Seeding enters the router groups of the configuration under new identifiers, one by one in their
  order, if the list that was read is empty, and leaves a table with router groups as it is. If it
  becomes ready after an empty list, all groups of the configuration are entered; if it returns an
  error, the first of them are. It never changes or removes an entry that was there, and touches
  neither routes nor locks. A failed read counts as an empty list.
\<close>

theorem seedRouterGroups_seeds:
  assumes "sql_store db rrows trows grows rstored tstored gstored"
    and "table_wf rg_guid rg_guid (grows (store (srvDb s)))"
    and "list_all (\<lambda>g. mGuid (rgModel g) = []) groups"
    and "before = rg_table (grows (store (srvDb s)))" and "fresh_uuids (srvEnv s) (dom before)"
    and "ReadRouterGroups (NewGormClient db) (srvDb s) = (listed, d)"
    and "seedRouterGroups (SqlDB_DB (NewGormClient db)) groups s = (x, s')"
  shows "rrows (store (srvDb s')) = rrows (store (srvDb s)) \<and> trows (store (srvDb s')) = trows (store (srvDb s)) \<and>
    locker (srvDb s') = locker (srvDb s) \<and>
    (\<exists>n. entered before groups n (rg_table (grows (store (srvDb s')))) \<and>
       (case x of
          Ok BecameReady \<Rightarrow> n = (if (\<exists>gs. listed = Ok gs) \<and> before \<noteq> Map.empty then 0 else length groups)
        | Ok (Returned err) \<Rightarrow> err \<noteq> None \<and> n < length groups \<and> \<not> ((\<exists>gs. listed = Ok gs) \<and> before \<noteq> Map.empty)
        | Fail e \<Rightarrow> False | Panic p \<Rightarrow> False))"
proof (cases "groups = []")
  case True
  with assms(7) show ?thesis
    by (auto simp: seedRouterGroups_def tryE_def entered_none assms(4) intro!: exI [of _ 0])
next
  case False
  let ?c = "NewGormClient db"
  have reads: "rrows (store d) = rrows (store (srvDb s))" "trows (store d) = trows (store (srvDb s))"
      "grows (store d) = grows (store (srvDb s))" "locker d = locker (srvDb s)" "\<not> is_panic listed"
    using sql_store.ReadRouterGroups_reads [OF assms(1,6)] sql_store.same_db_def [OF assms(1)] by simp_all
  have empty: "gs = [] \<longleftrightarrow> before = Map.empty" if lst: "listed = Ok gs" for gs
  proof -
    obtain rows where rows: "gs = ToRouterGroups rows" "set rows = set (grows (store (srvDb s)))"
      using sql_store.ReadRouterGroups_content [OF assms(1) assms(6) [unfolded lst]] by blast
    have "set (map rgGuid gs) = dom before"
      using sql_store.listed_guids [OF assms(1) rows(2)] by (simp add: rows(1) assms(4))
    then show ?thesis by (metis dom_eq_empty_conv list.set(1) map_is_Nil_conv set_empty)
  qed
  show ?thesis
  proof (cases "(\<exists>gs. listed = Ok gs) \<and> before \<noteq> Map.empty")
    case True
    then obtain gs where "listed = Ok gs" "gs \<noteq> []" using empty by auto
    with True False assms(7) reads show ?thesis
      by (auto simp: seedRouterGroups_def tryE_def zoom_def assms(4,6) entered_none intro: exI [of _ 0])
  next
    case seeds: False
    obtain y s1 where run: "forE (seed_group (SqlDB_DB ?c)) groups (s\<lparr>srvDb := d\<rparr>) = (y, s1)"
      by (cases "forE (seed_group (SqlDB_DB ?c)) groups (s\<lparr>srvDb := d\<rparr>)")
    have "(case y of Ok _ \<Rightarrow> (Ok BecameReady, s1) | Fail e \<Rightarrow> (Ok (Returned (Some e)), s1) | Panic p \<Rightarrow> (Panic p, s1)) = (x, s')"
      using assms(7) False seeds empty reads(5) run
      by (cases listed; cases y) (auto simp: seedRouterGroups_def tryE_def zoom_def assms(6))
    with sql_store.seed_groups_result [OF assms(1) _ assms(3) _ run] seeds assms(2,4,5) reads show ?thesis
      by (cases y) auto
  qed
qed

lemma ex_seeds:
  "fst (ReadRouterGroups (NewGormClient mem_db) (srvDb (ex_server ex_db))) = Ok []"
  "fst (seedRouterGroups (SqlDB_DB (NewGormClient mem_db)) [ex_rg] (ex_server ex_db)) = Ok BecameReady"
  by (simp_all add: seedRouterGroups_def tryE_def zoom_def bindE_def seed_group_apply SaveRouterGroup_def ReadRouterGroup_def
      ReadRouterGroups_def isWriteLocked_def isReadLocked_def recordNotFound_def ToRouterGroups_def ex_server_def ex_defs mem_eval sql_run_defs)

lemma ex_world_fresh: "fresh_uuids (srvEnv (ex_server d)) {}"
  by (auto simp: fresh_uuids_def ex_server_def ex_world_def)

theorem seedRouterGroups_seeds_witness:
  "\<exists>guid. rg_table (mrgs (store (srvDb (snd
     (seedRouterGroups (SqlDB_DB (NewGormClient mem_db)) [ex_rg] (ex_server ex_db)))))) =
   [guid \<mapsto> (''default-tcp'', ''tcp'', ''1024-2048'')]"
proof -
  have e: "rg_table (mrgs (store (srvDb (ex_server ex_db)))) = Map.empty" "table_wf rg_guid rg_guid (mrgs (store (srvDb (ex_server ex_db))))"
    by (simp_all add: ex_server_def ex_tables small_rg_tables small_tables)
  have "list_all (\<lambda>g. mGuid (rgModel g) = []) [ex_rg]" by (simp add: ex_rg_values)
  from seedRouterGroups_seeds [OF mem.sql_store_axioms e(2) this refl _ prod.collapse [symmetric] prod.collapse [symmetric],
      unfolded e(1)] ex_seeds ex_world_fresh [of ex_db]
  have "entered Map.empty [ex_rg] 1 (rg_table (mrgs (store (srvDb (snd
     (seedRouterGroups (SqlDB_DB (NewGormClient mem_db)) [ex_rg] (ex_server ex_db)))))))"
    by simp
  then show ?thesis
    by (auto simp: entered_def length_Suc_conv ex_rg_values)
qed

section \<open>The order of the processes\<close>

definition early_members :: "string list" where
  "early_members = [''lock-acquirer'', ''migration'', ''seed-router-groups'']"

lemma server_members_early:
  "i < 3 \<Longrightarrow> server_members cfg ! i = early_members ! i" "3 < length (server_members cfg)"
  by (auto simp: server_members_def early_members_def less_Suc_eq numeral_3_eq_3)

text \<open>
  (C24) In every state the group of the server's processes can reach, whatever its members do: a process
  other than the first three (which acquire the lock, run the migrations and seed the router groups)
  has been started only after these three have all become ready; a process has been told to stop
  only after every process started later has exited, so the lock, whose releaser is last, is given
  up first; and when the group is done, every process that was started has exited.
\<close>

theorem server_processes_ordered:
  assumes "group_reachable (length (server_members cfg)) s"
  shows "(\<forall>i. i < started s \<longrightarrow> server_members cfg ! i \<notin> set early_members \<longrightarrow>
      set early_members \<subseteq> (\<lambda>j. server_members cfg ! j) ` readyMembers s) \<and>
    (\<forall>i j. i \<in> set (signalled s) \<longrightarrow> i < j \<longrightarrow> j < started s \<longrightarrow> (\<exists>e. exitedMembers s j = Some e)) \<and>
    (phase s = GroupDone \<longrightarrow> (\<forall>i. i < started s \<longrightarrow> (\<exists>e. exitedMembers s i = Some e)))"
proof -
  have "set early_members \<subseteq> (\<lambda>j. server_members cfg ! j) ` readyMembers s"
    if i: "i < started s" "server_members cfg ! i \<notin> set early_members" for i
  proof -
    have "3 \<le> i"
    proof (rule ccontr)
      assume "\<not> 3 \<le> i"
      then have "server_members cfg ! i = early_members ! i" "i < length early_members"
        using server_members_early(1) by (simp_all add: early_members_def)
      with i(2) show False by simp
    qed
    then have ready: "j \<in> readyMembers s" if "j < 3" for j
      using i(1) that by (intro group_order(1) [OF assms]) simp
    have "early_members ! j \<in> (\<lambda>j. server_members cfg ! j) ` readyMembers s" if "j < 3" for j
      using ready [OF that] server_members_early(1) [OF that] by (metis image_eqI)
    moreover have "length early_members = 3" by (simp add: early_members_def)
    ultimately show ?thesis by (auto simp: in_set_conv_nth)
  qed
  with group_order(2,3) [OF assms] show ?thesis by blast
qed

theorem server_processes_ordered_witness:
  "group_reachable (length (server_members ex_config)) (starting_at 5) \<and>
   server_members ex_config ! 5 = ''api-mtls-server'' \<and>
   set early_members \<subseteq> (\<lambda>j. server_members ex_config ! j) ` readyMembers (starting_at 5)"
proof -
  have m: "server_members ex_config ! 5 = ''api-mtls-server''" "5 < length (server_members ex_config)"
    by (simp_all add: server_members_def ex_config_def isSql_def)
  then have r: "group_reachable (length (server_members ex_config)) (starting_at 5)"
    by (intro starting_at_reachable) simp
  have "''api-mtls-server'' \<notin> set early_members" "5 < started (starting_at 5)"
    by (simp_all add: early_members_def starting_at_def)
  with server_processes_ordered [OF r] m(1) have
    "set early_members \<subseteq> (\<lambda>j. server_members ex_config ! j) ` readyMembers (starting_at 5)" by metis
  with r m(1) show ?thesis by blast
qed

end
