(* ===== verification/Subscription.thy ===== *)
theory Subscription
  imports Event_Stream Api_Client
begin

text \<open>
  Subscribing to events: the operations of \<open>client.go\<close> and \<open>event_source.go\<close> that open and read an event
  stream, over the event source of \<open>vendor/github.com/vito/go-sse/sse\<close>, which reconnects by itself. It may
  try for ever, so connecting and reading return an option, \<open>None\<close> if they do not return.
\<close>

section \<open>Connections\<close>

text \<open>
  A connection is the response body with its reader: the identifier of the last event, the lines that
  are left, and how the body ends (\<open>None\<close> is \<open>io.EOF\<close>); and what closing the body returns.
\<close>

record ReadCloser =
  lastID :: string
  buf :: "string list"
  bodyEnd :: "go_error option"
  closeSource :: "go_error option"
  rcClosed :: bool

record stream_response =
  srStatusCode :: nat
  srStatus :: string
  srBody :: string
  srEnd :: "go_error option"
  srClose :: "go_error option"

definition NewReadCloser :: "stream_response \<Rightarrow> ReadCloser" where
  "NewReadCloser res =
     \<lparr>lastID = [], buf = read_lines (srBody res), bodyEnd = srEnd res, closeSource = srClose res,
      rcClosed = False\<rparr>"

definition alreadyClosedError :: go_error where
  "alreadyClosedError = ErrorString ''ReadCloser already closed''"

definition ReadCloser_Close :: "ReadCloser \<Rightarrow> go_error option \<times> ReadCloser" where
  "ReadCloser_Close rc =
     (if rcClosed rc then (Some alreadyClosedError, rc) else (closeSource rc, rc\<lparr>rcClosed := True\<rparr>))"

text \<open>The result on the left is the error that ended the body.\<close>

definition ReadCloser_Next :: "ReadCloser \<Rightarrow> (go_error option + sse_event) \<times> ReadCloser" where
  "ReadCloser_Next rc =
     (case Sse_Next (lastID rc, buf rc) of
        None \<Rightarrow> (Inl (bodyEnd rc), rc\<lparr>buf := []\<rparr>)
      | Some (event, i, rest) \<Rightarrow> (Inr event, rc\<lparr>lastID := i, buf := rest\<rparr>))"

section \<open>The event source\<close>

text \<open>
  The network and the other goroutines: the answers to the requests in the order they are sent, the
  token the client has at each of them, and whether another goroutine calls \<open>Close\<close> while the source
  waits for the \<open>n\<close>-th time (for a response, for input, or for the retry interval). The requests that were
  sent are kept with their \<open>Last-Event-ID\<close>, which is empty if the header is missing.
\<close>

record network =
  answers :: "nat \<Rightarrow> go_error + stream_response"
  tokens :: "nat \<Rightarrow> string"
  closes :: "nat \<Rightarrow> bool"
  waits :: nat
  sent :: "(api_request \<times> string) list"

record sse_EventSource =
  currentReadCloser :: "ReadCloser option"
  lastEventID :: string
  isClosed :: bool
  retryInterval :: duration
  maxRetries :: uint16
  net :: network

type_synonym 'a run = "('a go \<times> sse_EventSource) option"

definition ErrSourceClosed :: go_error where
  "ErrSourceClosed = ErrorString ''source closed''"

definition EOF :: go_error where
  "EOF = ErrorString ''EOF''"

definition createEventSource :: "duration \<Rightarrow> uint16 \<Rightarrow> network \<Rightarrow> sse_EventSource" where
  "createEventSource interval retries w =
     \<lparr>currentReadCloser = None, lastEventID = [], isClosed = False, retryInterval = interval,
      maxRetries = retries, net = w\<rparr>"

definition EventSource_Close :: "(sse_EventSource, unit) action" where
  "EventSource_Close s =
     (let s1 = s\<lparr>isClosed := True\<rparr>
      in case currentReadCloser s1 of
           None \<Rightarrow> (Ok (), s1)
         | Some rc \<Rightarrow>
             (case ReadCloser_Close rc of
                (Some err, rc') \<Rightarrow> (Fail err, s1\<lparr>currentReadCloser := Some rc'\<rparr>)
              | (None, _) \<Rightarrow> (Ok (), s1\<lparr>currentReadCloser := None\<rparr>)))"

text \<open>A point where the source waits, and another goroutine may close it.\<close>

definition block :: "sse_EventSource \<Rightarrow> sse_EventSource" where
  "block s =
     (let w = net s; s1 = s\<lparr>net := w\<lparr>waits := Suc (waits w)\<rparr>\<rparr>
      in if closes w (waits w) then snd (EventSource_Close s1) else s1)"

text \<open>Sending a request: it is recorded, and answered while the source waits.\<close>

definition Do :: "api_request \<Rightarrow> sse_EventSource \<Rightarrow> (go_error + stream_response) \<times> sse_EventSource" where
  "Do req s =
     (answers (net s) (length (sent (net s))),
      block (s\<lparr>net := (net s)\<lparr>sent := sent (net s) @ [(req, lastEventID s)]\<rparr>\<rparr>))"

definition waitForRetry :: "sse_EventSource \<Rightarrow> go_error option \<times> sse_EventSource" where
  "waitForRetry s =
     (let s1 = block (s\<lparr>currentReadCloser := None\<rparr>)
      in (if isClosed s1 then Some ErrSourceClosed else None, s1))"

definition shouldRetry :: "uint16 \<Rightarrow> uint16 \<Rightarrow> bool" where
  "shouldRetry limit retries \<longleftrightarrow> limit = 0 \<or> limit > 0 \<and> retries \<le> limit"

definition reestablish :: "nat \<Rightarrow> bool" where
  "reestablish statusCode \<longleftrightarrow> statusCode \<in> {500, 502, 503, 504}"

text \<open>\<open>createRequest\<close> makes the request from the token of the moment; the counter has 16 bits.\<close>

partial_function (option) establish ::
    "(string \<Rightarrow> api_request go) \<Rightarrow> uint16 \<Rightarrow> sse_EventSource \<Rightarrow> ReadCloser run" where
  "establish create connectionRetries s =
     (case create (tokens (net s) (length (sent (net s)))) of
        Fail err \<Rightarrow> Some (Fail err, s)
      | Panic p \<Rightarrow> Some (Panic p, s)
      | Ok req \<Rightarrow>
          (case Do req s of
             (Inl err, s1) \<Rightarrow>
               if \<not> shouldRetry (maxRetries s1) (connectionRetries + 1) then Some (Fail err, s1)
               else (case waitForRetry s1 of
                       (Some err', s2) \<Rightarrow> Some (Fail err', s2)
                     | (None, s2) \<Rightarrow> establish create (connectionRetries + 1) s2)
           | (Inr res, s1) \<Rightarrow>
               if srStatusCode res = 200 then Some (Ok (NewReadCloser res), s1)
               else if reestablish (srStatusCode res)
               then (case waitForRetry s1 of
                       (Some err', s2) \<Rightarrow> Some (Fail err', s2)
                     | (None, s2) \<Rightarrow> establish create connectionRetries s2)
               else Some (Fail (BadResponseError (srStatusCode res) (srStatus res)), s1)))"

definition establishConnection :: "(string \<Rightarrow> api_request go) \<Rightarrow> sse_EventSource \<Rightarrow> ReadCloser run" where
  "establishConnection create s = establish create 0 s"

definition Config_Connect ::
    "duration \<Rightarrow> uint16 \<Rightarrow> (string \<Rightarrow> api_request go) \<Rightarrow> network \<Rightarrow> unit run" where
  "Config_Connect interval retries create w =
     Option.bind (establishConnection create (createEventSource interval retries w)) (\<lambda>(r, s).
       case r of
         Ok readCloser \<Rightarrow> Some (Ok (), s\<lparr>currentReadCloser := Some readCloser\<rparr>)
       | Fail err \<Rightarrow> Some (Fail err, s)
       | Panic p \<Rightarrow> Some (Panic p, s))"

definition ensureReadCloser :: "(string \<Rightarrow> api_request go) \<Rightarrow> sse_EventSource \<Rightarrow> ReadCloser run" where
  "ensureReadCloser create s =
     (case currentReadCloser s of
        Some readCloser \<Rightarrow> Some (Ok readCloser, s)
      | None \<Rightarrow>
          Option.bind (establishConnection create s) (\<lambda>(r, s1).
            case r of
              Ok newReadCloser \<Rightarrow>
                if isClosed s1 then Some (Fail ErrSourceClosed, s1)
                else Some (Ok newReadCloser, s1\<lparr>currentReadCloser := Some newReadCloser\<rparr>)
            | Fail err \<Rightarrow> Some (Fail err, s1)
            | Panic p \<Rightarrow> Some (Panic p, s1)))"

text \<open>
  Reading from the connection. If the source is closed while it waits for input, the read fails as it
  does when the body ends with an error: \<open>Inl None\<close> is \<open>io.EOF\<close>, \<open>Inl (Some err)\<close> another error.
\<close>

definition read_current ::
    "ReadCloser \<Rightarrow> sse_EventSource \<Rightarrow> (go_error option + sse_event) \<times> sse_EventSource" where
  "read_current readCloser s =
     (let s1 = block s
      in if isClosed s1 then (Inl (Some (ErrorString ''http: read on closed response body'')), s1)
         else case ReadCloser_Next readCloser of
           (r, readCloser') \<Rightarrow> (r, s1\<lparr>currentReadCloser := Some readCloser'\<rparr>))"

definition note_event :: "sse_event \<Rightarrow> sse_EventSource \<Rightarrow> sse_EventSource" where
  "note_event event s =
     (let s1 = s\<lparr>lastEventID := sseID event\<rparr>
      in if sseRetry event \<noteq> 0 then s1\<lparr>retryInterval := sseRetry event\<rparr> else s1)"

text \<open>\<open>waitForRetry\<close> gives up the connection, so closing it before has no further effect.\<close>

partial_function (option) read_on ::
    "(string \<Rightarrow> api_request go) \<Rightarrow> sse_EventSource \<Rightarrow> sse_event run" where
  "read_on create s =
     Option.bind (ensureReadCloser create s) (\<lambda>(r, s1).
       case r of
         Fail err \<Rightarrow> Some (Fail err, s1)
       | Panic p \<Rightarrow> Some (Panic p, s1)
       | Ok readCloser \<Rightarrow>
           (case read_current readCloser s1 of
              (Inr event, s2) \<Rightarrow> Some (Ok event, note_event event s2)
            | (Inl None, s2) \<Rightarrow> Some (Fail EOF, s2)
            | (Inl (Some err), s2) \<Rightarrow>
                (case waitForRetry s2 of
                   (Some err', s3) \<Rightarrow> Some (Fail err', s3)
                 | (None, s3) \<Rightarrow> read_on create s3)))"

definition EventSource_Next :: "(string \<Rightarrow> api_request go) \<Rightarrow> sse_EventSource \<Rightarrow> sse_event run" where
  "EventSource_Next create s =
     (if isClosed s then Some (Fail ErrSourceClosed, s) else read_on create s)"

section \<open>The client\<close>

definition defaultMaxRetries :: uint16 where
  "defaultMaxRetries = 0"

text \<open>
  The token is added before the error is looked at. The empty request that comes with an error has no
  header to add it to.
\<close>

definition RequestCreator :: "'w client \<Rightarrow> string \<Rightarrow> string \<Rightarrow> api_request go" where
  "RequestCreator c routeName token =
     (case CreateRequest c routeName Map.empty of
        Inl err \<Rightarrow> Panic ''assignment to entry in nil map''
      | Inr (meth, url) \<Rightarrow>
          Ok \<lparr>aqMethod = meth, aqURL = url, aqQuery = [], aqBody = [], aqAuthorization = ''bearer '' @ token\<rparr>)"

definition doSubscribe :: "'w client \<Rightarrow> string \<Rightarrow> uint16 \<Rightarrow> network \<Rightarrow> unit run" where
  "doSubscribe c routeName retries w =
     Option.bind (Config_Connect second retries (RequestCreator c routeName) w) (\<lambda>(r, s).
       Some (case r of
               Fail (BadResponseError code status) \<Rightarrow>
                 if code = 401 then Fail (ApiError ''unauthorized'' ''unauthorized'') else r
             | _ \<Rightarrow> r, s))"

definition SubscribeToEventsWithMaxRetries :: "'w client \<Rightarrow> uint16 \<Rightarrow> network \<Rightarrow> unit run" where
  "SubscribeToEventsWithMaxRetries c retries = doSubscribe c ''EventStream'' retries"

definition SubscribeToTcpEventsWithMaxRetries :: "'w client \<Rightarrow> uint16 \<Rightarrow> network \<Rightarrow> unit run" where
  "SubscribeToTcpEventsWithMaxRetries c retries = doSubscribe c ''TcpRouteEventStream'' retries"

definition SubscribeToEvents :: "'w client \<Rightarrow> network \<Rightarrow> unit run" where
  "SubscribeToEvents c = doSubscribe c ''EventStream'' defaultMaxRetries"

definition SubscribeToTcpEvents :: "'w client \<Rightarrow> network \<Rightarrow> unit run" where
  "SubscribeToTcpEvents c = doSubscribe c ''TcpRouteEventStream'' defaultMaxRetries"

definition eventSource_Next ::
    "'w client \<Rightarrow> string \<Rightarrow> (string \<Rightarrow> go_error + 'r) \<Rightarrow> sse_EventSource \<Rightarrow> (string \<times> 'r) run" where
  "eventSource_Next c routeName unmarshal s =
     Option.bind (EventSource_Next (RequestCreator c routeName) s) (\<lambda>(r, s').
       Some (case r of
               Ok rawEvent \<Rightarrow>
                 (case convertRawEvent unmarshal rawEvent of Inl err \<Rightarrow> Fail err | Inr event \<Rightarrow> Ok event)
             | Fail err \<Rightarrow> Fail err
             | Panic p \<Rightarrow> Panic p, s'))"

definition tcpEventSource_Next ::
    "'w client \<Rightarrow> (string \<Rightarrow> go_error + TcpRouteMapping) \<Rightarrow> sse_EventSource \<Rightarrow> (string \<times> TcpRouteMapping) run" where
  "tcpEventSource_Next c unmarshal = eventSource_Next c ''TcpRouteEventStream'' unmarshal"

definition doClose :: "(sse_EventSource, unit) action" where
  "doClose = bindE EventSource_Close (\<lambda>_. returnE ())"

section \<open>Waiting\<close>

lemma block_frame [simp]:
  "maxRetries (block s) = maxRetries s" "lastEventID (block s) = lastEventID s"
  "answers (net (block s)) = answers (net s)" "tokens (net (block s)) = tokens (net s)"
  "closes (net (block s)) = closes (net s)" "sent (net (block s)) = sent (net s)"
  by (auto simp: block_def Let_def EventSource_Close_def split: option.splits prod.splits)

definition undisturbed :: "sse_EventSource \<Rightarrow> bool" where
  "undisturbed s \<longleftrightarrow> \<not> isClosed s \<and> (\<forall>n. \<not> closes (net s) n)"

lemma block_undisturbed:
  "undisturbed s \<Longrightarrow>
   undisturbed (block s) \<and> currentReadCloser (block s) = currentReadCloser s"
  by (simp add: undisturbed_def block_def Let_def)

lemma Do_eq:
  assumes "Do req s = (r, s')"
  shows "r = answers (net s) (length (sent (net s)))" "maxRetries s' = maxRetries s"
    "answers (net s') = answers (net s)" "tokens (net s') = tokens (net s)"
    "sent (net s') = sent (net s) @ [(req, lastEventID s)]" "undisturbed s \<Longrightarrow> undisturbed s'"
  using assms block_undisturbed [of "s\<lparr>net := (net s)\<lparr>sent := sent (net s) @ [(req, lastEventID s)]\<rparr>\<rparr>"]
  by (auto simp: Do_def undisturbed_def)

lemma waitForRetry_eq:
  assumes "waitForRetry s = (r, s')"
  shows "maxRetries s' = maxRetries s" "answers (net s') = answers (net s)"
    "tokens (net s') = tokens (net s)" "sent (net s') = sent (net s)"
    "undisturbed s \<Longrightarrow> r = None \<and> undisturbed s' \<and> currentReadCloser s' = None"
  using assms block_undisturbed [of "s\<lparr>currentReadCloser := None\<rparr>"]
  by (auto simp: waitForRetry_def Let_def undisturbed_def)

section \<open>Retrying\<close>

lemma establish_bounded:
  assumes "unat n \<le> unat (maxRetries s)" and "0 < maxRetries s" and "maxRetries s < 65535"
    and "\<And>k res. answers (net s) k = Inr res \<Longrightarrow> \<not> reestablish (srStatusCode res)"
  shows "\<exists>r s'. establish create n s = Some (r, s') \<and>
    length (sent (net s')) \<le> length (sent (net s)) + (unat (maxRetries s) - unat n) + 1"
  using assms
proof (induction "unat (maxRetries s) - unat n" arbitrary: n s rule: less_induct)
  case less
  let ?k = "length (sent (net s))"
  show ?case
  proof (cases "create (tokens (net s) ?k)")
    case (Ok req)
    obtain a s1 where d: "Do req s = (a, s1)" by fastforce
    note d' = Do_eq [OF d]
    show ?thesis
    proof (cases a)
      case (Inr res)
      then show ?thesis
        using Ok d d' less.prems(4) [of ?k res] by (subst establish.simps) simp
    next
      case (Inl err)
      have "unat (n + 1) = Suc (unat n)"
        using less.prems(1,3) by (simp add: unat_word_ariths word_less_nat_alt)
      show ?thesis
      proof (cases "shouldRetry (maxRetries s) (n + 1)")
        case False
        then show ?thesis
          using Ok Inl d d' by (subst establish.simps) simp
      next
        case True
        obtain r s2 where w: "waitForRetry s1 = (r, s2)" by fastforce
        note w' = waitForRetry_eq [OF w]
        have le: "unat (n + 1) \<le> unat (maxRetries s)"
          using True less.prems(2) by (auto simp: shouldRetry_def word_le_nat_alt)
        have same: "maxRetries s2 = maxRetries s" "answers (net s2) = answers (net s)"
            "length (sent (net s2)) = Suc ?k"
          using d' w' by simp_all
        have dec: "unat (maxRetries s2) - unat (n + 1) < unat (maxRetries s) - unat n"
          using le \<open>unat (n + 1) = Suc (unat n)\<close> same by simp
        have step: "\<exists>r s'. establish create (n + 1) s2 = Some (r, s') \<and>
            length (sent (net s')) \<le> length (sent (net s2)) + (unat (maxRetries s2) - unat (n + 1)) + 1"
          by (rule less.hyps [OF dec]) (use le less.prems same in simp_all)
        show ?thesis
        proof (cases r)
          case None
          then have "establish create n s = establish create (n + 1) s2"
            using Ok Inl d d' w True by (subst establish.simps) simp
          then show ?thesis
            using step dec same le \<open>unat (n + 1) = Suc (unat n)\<close> by auto
        next
          case (Some e)
          then show ?thesis
            using Ok Inl d d' w w' True by (subst establish.simps) simp
        qed
      qed
    qed
  qed (subst establish.simps, simp)+
qed

text \<open>
  Retries without an end: connection errors when the limit is 0 or the largest 16-bit number, and
  answers that ask for another attempt, whatever the limit.
\<close>

definition stuck :: "(string \<Rightarrow> api_request go) \<Rightarrow> sse_EventSource \<Rightarrow> bool" where
  "stuck create s \<longleftrightarrow>
     undisturbed s \<and> (\<forall>t. \<exists>req. create t = Ok req) \<and>
     (maxRetries s \<in> {0, 65535} \<and> (\<forall>k. \<exists>err. answers (net s) k = Inl err) \<or>
      (\<forall>k. \<exists>res. answers (net s) k = Inr res \<and> reestablish (srStatusCode res)))"

lemma shouldRetry_always: "limit \<in> {0, 65535} \<Longrightarrow> shouldRetry limit n"
proof (cases "limit = 0")
  case False
  assume "limit \<in> {0, 65535}"
  with False have "limit = - 1" by (simp add: last_port)
  with False show ?thesis
    by (simp add: shouldRetry_def word_neq_0_conv [symmetric])
qed (simp add: shouldRetry_def)

lemma stuck_answer:
  assumes "stuck create s"
  shows "(\<exists>err. answers (net s) k = Inl err \<and> shouldRetry (maxRetries s) n) \<or>
    (\<exists>res. answers (net s) k = Inr res \<and> srStatusCode res \<noteq> 200 \<and> reestablish (srStatusCode res))"
proof -
  have "srStatusCode res \<noteq> 200" if "reestablish (srStatusCode res)" for res :: stream_response
    using that by (auto simp: reestablish_def)
  then show ?thesis
    using assms shouldRetry_always [of "maxRetries s" n] unfolding stuck_def by metis
qed

lemma establish_not_stuck: "establish create n s = Some x \<Longrightarrow> \<not> stuck create s"
  apply (erule establish.raw_induct [where P = "\<lambda>create n s x. \<not> stuck create s", rotated])
  subgoal premises step for est create n s x
  proof
    assume st: "stuck create s"
    let ?k = "length (sent (net s))"
    obtain req where req: "create (tokens (net s) ?k) = Ok req" using st by (auto simp: stuck_def)
    obtain a s1 where d: "Do req s = (a, s1)" by fastforce
    obtain r s2 where w: "waitForRetry s1 = (r, s2)" by fastforce
    note d' = Do_eq [OF d] and w' = waitForRetry_eq [OF w]
    have r: "r = None" and st2: "stuck create s2"
      using st d' w' by (simp_all add: stuck_def)
    have no: "est create m s2 = None" for m
      using step(1) [of create m s2] st2 by (cases "est create m s2") auto
    show False
      using stuck_answer [OF st, of ?k "n + 1"] step(2) d' by (auto simp: req d w r no)
  qed
  done

lemma establish_stuck: "stuck create s \<Longrightarrow> establish create n s = None"
  using establish_not_stuck [of create n s] by (cases "establish create n s") auto


text \<open>
  Whether a request can be created depends on the client's URL and the route only, not on the token of
  the moment, which the request carries.
\<close>

lemma RequestCreator_cases:
  "CreateRequest c routeName Map.empty = Inl err \<Longrightarrow>
   RequestCreator c routeName token = Panic ''assignment to entry in nil map''"
  "CreateRequest c routeName Map.empty = Inr target \<Longrightarrow>
   \<exists>req. RequestCreator c routeName token = Ok req \<and> aqAuthorization req = ''bearer '' @ token"
  by (auto simp: RequestCreator_def split: prod.splits)

lemmas RequestCreator_Ok = RequestCreator_cases(2)

lemma createEventSource_frame [simp]:
  "maxRetries (createEventSource i r w) = r" "net (createEventSource i r w) = w"
  "undisturbed (createEventSource i r w) \<longleftrightarrow> (\<forall>n. \<not> closes w n)"
  by (simp_all add: createEventSource_def undisturbed_def)

lemma doSubscribe_None: "doSubscribe c routeName retries w = None \<longleftrightarrow>
    establish (RequestCreator c routeName) 0 (createEventSource second retries w) = None"
  by (auto simp: doSubscribe_def Config_Connect_def establishConnection_def split: bind_splits go.splits)

lemma doSubscribe_sent:
  assumes "establish (RequestCreator c routeName) 0 (createEventSource second retries w) = Some (r, s)"
  shows "\<exists>r' s'. doSubscribe c routeName retries w = Some (r', s') \<and> sent (net s') = sent (net s)"
  using assms by (cases r) (simp_all add: doSubscribe_def Config_Connect_def establishConnection_def)

text \<open>
  (C11) Subscribing panics at once if no request can be created, as for a client whose URL does not
  parse. Otherwise it makes no more attempts than one more than the limit on the retries, and returns,
  if no answer of the server is a gateway error, which is retried without being counted. Without a limit
  (0, the default) and with the limit 65535, which the 16-bit counter never exceeds, it does not return
  while the server cannot be reached; and while the server answers with a gateway error it does not
  return whatever the limit.
\<close>

theorem doSubscribe_retries:
  "case CreateRequest c routeName Map.empty of
     Inl err \<Rightarrow> \<exists>s. doSubscribe c routeName retries w = Some (Panic ''assignment to entry in nil map'', s) \<and> net s = w
   | Inr target \<Rightarrow>
       (0 < retries \<and> retries < 65535 \<and>
         (\<forall>k res. answers w k = Inr res \<longrightarrow> \<not> reestablish (srStatusCode res)) \<longrightarrow>
         (\<exists>r s. doSubscribe c routeName retries w = Some (r, s) \<and>
           length (sent (net s)) \<le> length (sent w) + unat retries + 1)) \<and>
       ((\<forall>n. \<not> closes w n) \<and> retries \<in> {0, 65535} \<and> (\<forall>k. \<exists>err. answers w k = Inl err) \<longrightarrow>
         doSubscribe c routeName retries w = None) \<and>
       ((\<forall>n. \<not> closes w n) \<and> (\<forall>k. \<exists>res. answers w k = Inr res \<and> reestablish (srStatusCode res)) \<longrightarrow>
         doSubscribe c routeName retries w = None)"
proof (cases "CreateRequest c routeName Map.empty")
  case (Inl err)
  have "establish (RequestCreator c routeName) 0 (createEventSource second retries w) =
      Some (Panic ''assignment to entry in nil map'', createEventSource second retries w)"
    by (subst establish.simps) (simp add: RequestCreator_cases(1) [OF Inl])
  then show ?thesis
    using Inl by (simp add: doSubscribe_def Config_Connect_def establishConnection_def)
next
  case (Inr target)
  let ?s = "createEventSource second retries w" and ?create = "RequestCreator c routeName"
  have ok: "\<exists>req. ?create t = Ok req" for t
    using RequestCreator_Ok [OF Inr, of t] by blast
  have "\<exists>r s. doSubscribe c routeName retries w = Some (r, s) \<and>
        length (sent (net s)) \<le> length (sent w) + unat retries + 1"
    if "0 < retries" "retries < 65535" "\<And>k res. answers w k = Inr res \<Longrightarrow> \<not> reestablish (srStatusCode res)"
    using establish_bounded [of 0 ?s ?create] that doSubscribe_sent [of c routeName retries w] by fastforce
  moreover have "doSubscribe c routeName retries w = None" if "stuck ?create ?s"
    using establish_stuck [OF that] by (simp add: doSubscribe_None)
  ultimately show ?thesis
    using ok Inr by (simp add: stuck_def)
qed

lemma ex_creates:
  "CreateRequest (ex_client groups) ''EventStream'' Map.empty = Inr (''GET'', ''http://api/routing/v1/events'')"
  by (simp add: CreateRequest_def CreatePath_def RoutesMap_def ex_client_def)

text \<open>A refused token ends the attempt, with an error of another type than the other requests have.\<close>

lemma doSubscribe_unauthorized:
  assumes "CreateRequest c routeName Map.empty = Inr target" and "answers w (length (sent w)) = Inr res" and "srStatusCode res = 401"
  shows "\<exists>s. doSubscribe c routeName retries w = Some (Fail (ApiError ''unauthorized'' ''unauthorized''), s)"
proof -
  let ?s = "createEventSource second retries w"
  obtain req where req: "RequestCreator c routeName (tokens w (length (sent w))) = Ok req"
    using RequestCreator_Ok [OF assms(1)] by blast
  obtain a s1 where d: "Do req ?s = (a, s1)" by fastforce
  have "establish (RequestCreator c routeName) 0 ?s = Some (Fail (BadResponseError 401 (srStatus res)), s1)"
    by (subst establish.simps) (use req d Do_eq [OF d] assms(2,3) in \<open>simp add: reestablish_def\<close>)
  then show ?thesis
    by (simp add: doSubscribe_def Config_Connect_def establishConnection_def)
qed

definition ex_network :: "(nat \<Rightarrow> go_error + stream_response) \<Rightarrow> network" where
  "ex_network a = \<lparr>answers = a, tokens = (\<lambda>n. if n = 0 then ''t0'' else ''t1''), closes = (\<lambda>_. False), waits = 0, sent = []\<rparr>"

theorem doSubscribe_retries_witness:
  "(\<exists>r s. doSubscribe (ex_client []) ''EventStream'' 2 (ex_network (\<lambda>_. Inl (ErrorString ''refused''))) = Some (r, s) \<and>
      length (sent (net s)) \<le> 3) \<and>
   doSubscribe (ex_client []) ''EventStream'' 0 (ex_network (\<lambda>_. Inl (ErrorString ''refused''))) = None \<and>
   doSubscribe (ex_client []) ''EventStream'' 2
     (ex_network (\<lambda>_. Inr \<lparr>srStatusCode = 503, srStatus = ''503'', srBody = [], srEnd = None, srClose = None\<rparr>)) = None"
  using doSubscribe_retries [of "ex_client []" "''EventStream''" 2 "ex_network (\<lambda>_. Inl (ErrorString ''refused''))"]
    doSubscribe_retries [of "ex_client []" "''EventStream''" 0 "ex_network (\<lambda>_. Inl (ErrorString ''refused''))"]
    doSubscribe_retries [of "ex_client []" "''EventStream''" 2
      "ex_network (\<lambda>_. Inr \<lparr>srStatusCode = 503, srStatus = ''503'', srBody = [], srEnd = None, srClose = None\<rparr>)"]
  by (simp add: ex_creates ex_network_def reestablish_def numeral_3_eq_3)

section \<open>Reading across connections\<close>

text \<open>The results of calling \<open>Next\<close> a number of times.\<close>

primrec next_events ::
    "(string \<Rightarrow> api_request go) \<Rightarrow> nat \<Rightarrow> sse_EventSource \<Rightarrow> (sse_event go list \<times> sse_EventSource) option" where
  "next_events create 0 s = Some ([], s)"
| "next_events create (Suc k) s =
     Option.bind (EventSource_Next create s) (\<lambda>(r, s').
       Option.bind (next_events create k s') (\<lambda>(rs, s''). Some (r # rs, s'')))"

definition stream_bytes :: "sse_event list \<Rightarrow> string" where
  "stream_bytes evs = concat (map sse_Write evs)"

text \<open>
  The source is connected: the connection still carries \<open>evs\<close>, then it breaks if there are further
  connections, which will carry \<open>rest\<close>, and ends if there are none.
\<close>

definition carries :: "stream_response \<Rightarrow> sse_event list \<Rightarrow> bool \<Rightarrow> bool" where
  "carries res evs final \<longleftrightarrow>
     srStatusCode res = 200 \<and> srBody res = stream_bytes evs \<and> (srEnd res = None \<longleftrightarrow> final)"

fun serves :: "network \<Rightarrow> nat \<Rightarrow> sse_event list list \<Rightarrow> bool" where
  "serves w k [] = True"
| "serves w k (evs # rest) = ((\<exists>res. answers w k = Inr res \<and> carries res evs (rest = [])) \<and> serves w (Suc k) rest)"

definition online :: "sse_EventSource \<Rightarrow> sse_event list \<Rightarrow> sse_event list list \<Rightarrow> bool" where
  "online s evs rest \<longleftrightarrow>
     undisturbed s \<and> serves (net s) (length (sent (net s))) rest \<and>
     (\<exists>rc. currentReadCloser s = Some rc \<and> buf rc = read_lines (stream_bytes evs) \<and>
       (bodyEnd rc = None \<longleftrightarrow> rest = []))"

lemma serves_cong: "answers w = answers w' \<Longrightarrow> serves w k rest = serves w' k rest"
  by (induction w k rest rule: serves.induct) auto

lemma note_event_frame [simp]:
  "undisturbed (note_event e s) = undisturbed s" "net (note_event e s) = net s"
  "currentReadCloser (note_event e s) = currentReadCloser s"
  by (simp_all add: note_event_def undisturbed_def Let_def)

lemma undisturbed_reader [simp]:
  "undisturbed (s\<lparr>currentReadCloser := rc\<rparr>) = undisturbed s"
  by (simp add: undisturbed_def)

lemma online_not_closed: "online s evs rest \<Longrightarrow> \<not> isClosed s"
  by (simp add: online_def undisturbed_def)

text \<open>One round of the loop on an open connection.\<close>

lemma read_on_online:
  assumes "undisturbed s" and "currentReadCloser s = Some rc" and "ReadCloser_Next rc = (r, rc')"
  shows "read_on create s =
    (let s2 = (block s)\<lparr>currentReadCloser := Some rc'\<rparr>
     in case r of
          Inr event \<Rightarrow> Some (Ok event, note_event event s2)
        | Inl None \<Rightarrow> Some (Fail EOF, s2)
        | Inl (Some err) \<Rightarrow> read_on create (snd (waitForRetry s2)))"
proof -
  let ?s2 = "(block s)\<lparr>currentReadCloser := Some rc'\<rparr>"
  have u: "undisturbed (block s)" and "\<not> isClosed (block s)"
    using block_undisturbed [OF assms(1)] by (simp_all add: undisturbed_def)
  then have read: "read_current rc s = (r, ?s2)"
    using assms(3) by (simp add: read_current_def Let_def)
  obtain q s3 where w: "waitForRetry ?s2 = (q, s3)" by fastforce
  then have "q = None"
    using waitForRetry_eq(5) [OF w] u by simp
  with w show ?thesis
    using read assms(2)
    by (subst read_on.simps) (auto simp: ensureReadCloser_def Let_def split: sum.splits option.splits)
qed

lemma online_step:
  assumes "online s (e # evs) rest" and "plain_event e"
  shows "\<exists>s'. EventSource_Next create s = Some (Ok e, s') \<and> online s' evs rest \<and>
    sent (net s') = sent (net s) \<and> tokens (net s') = tokens (net s)"
proof -
  obtain rc where rc: "undisturbed s" "currentReadCloser s = Some rc" "serves (net s) (length (sent (net s))) rest"
      "buf rc = read_lines (sse_Write e @ stream_bytes evs)" "bodyEnd rc = None \<longleftrightarrow> rest = []"
    using assms(1) by (auto simp: online_def stream_bytes_def)
  let ?rc = "rc\<lparr>lastID := sseID e, buf := read_lines (stream_bytes evs)\<rparr>"
  have "ReadCloser_Next rc = (Inr e, ?rc)"
    using rc(4) Sse_Next_Write [OF assms(2)] by (simp add: ReadCloser_Next_def)
  note read_on_online [OF rc(1,2) this, of create]
  then show ?thesis
    using rc online_not_closed [OF assms(1)] block_undisturbed [OF rc(1)]
      serves_cong [of "net (block s)" "net s" "length (sent (net s))" rest]
    by (simp add: EventSource_Next_def online_def Let_def)
qed

lemma ReadCloser_Next_end: "buf rc = [] \<Longrightarrow> ReadCloser_Next rc = (Inl (bodyEnd rc), rc\<lparr>buf := []\<rparr>)"
  by (simp add: ReadCloser_Next_def Sse_Next_def)

lemma online_end:
  assumes "online s [] []"
  shows "\<exists>s'. EventSource_Next create s = Some (Fail EOF, s') \<and> sent (net s') = sent (net s)"
proof -
  obtain rc where rc: "undisturbed s" "currentReadCloser s = Some rc" "buf rc = []" "bodyEnd rc = None"
    using assms by (auto simp: online_def stream_bytes_def)
  show ?thesis
    using read_on_online [OF rc(1,2) ReadCloser_Next_end [OF rc(3)]] rc(4) online_not_closed [OF assms]
    by (simp add: EventSource_Next_def Let_def)
qed

lemma establish_answered:
  assumes "undisturbed s" and "serves (net s) (length (sent (net s))) (evs # rest)"
    and "create (tokens (net s) (length (sent (net s)))) = Ok req"
  shows "\<exists>rc s'. establishConnection create s = Some (Ok rc, s') \<and>
    online (s'\<lparr>currentReadCloser := Some rc\<rparr>) evs rest \<and>
    map fst (sent (net s')) = map fst (sent (net s)) @ [req] \<and> tokens (net s') = tokens (net s)"
proof -
  let ?k = "length (sent (net s))"
  obtain res where res: "answers (net s) ?k = Inr res" "carries res evs (rest = [])" "serves (net s) (Suc ?k) rest"
    using assms(2) by auto
  obtain a s1 where d: "Do req s = (a, s1)" by fastforce
  note d' = Do_eq [OF d]
  have "establishConnection create s = Some (Ok (NewReadCloser res), s1)"
    unfolding establishConnection_def
    by (subst establish.simps) (use assms(3) res d d' in \<open>simp add: carries_def\<close>)
  moreover have "online (s1\<lparr>currentReadCloser := Some (NewReadCloser res)\<rparr>) evs rest"
    using res d' assms(1) serves_cong [of "net s1" "net s" "Suc ?k" rest]
    by (simp add: online_def NewReadCloser_def carries_def)
  ultimately show ?thesis
    using d' by simp
qed

lemma online_reconnects:
  assumes "online s [] (evs # rest)" and "create (tokens (net s) (length (sent (net s)))) = Ok req"
  shows "\<exists>s'. EventSource_Next create s = EventSource_Next create s' \<and> online s' evs rest \<and>
    map fst (sent (net s')) = map fst (sent (net s)) @ [req] \<and> tokens (net s') = tokens (net s)"
proof -
  obtain rc err where rc: "undisturbed s" "currentReadCloser s = Some rc" "buf rc = []" "bodyEnd rc = Some err"
      "serves (net s) (length (sent (net s))) (evs # rest)"
    using assms(1) by (auto simp: online_def stream_bytes_def)
  let ?s2 = "(block s)\<lparr>currentReadCloser := Some (rc\<lparr>buf := []\<rparr>)\<rparr>"
  let ?s3 = "snd (waitForRetry ?s2)"
  note w = waitForRetry_eq [of ?s2, OF prod.collapse [symmetric]]
  have s3: "undisturbed ?s3" "currentReadCloser ?s3 = None" "sent (net ?s3) = sent (net s)"
      "tokens (net ?s3) = tokens (net s)" "answers (net ?s3) = answers (net s)"
    using w block_undisturbed [OF rc(1)] by simp_all
  have again: "read_on create s = read_on create ?s3"
    using read_on_online [OF rc(1,2) ReadCloser_Next_end [OF rc(3)]] rc(4) by (simp add: Let_def)
  obtain rc' s' where e: "establishConnection create ?s3 = Some (Ok rc', s')"
      "online (s'\<lparr>currentReadCloser := Some rc'\<rparr>) evs rest"
      "map fst (sent (net s')) = map fst (sent (net s)) @ [req]" "tokens (net s') = tokens (net s)"
    using establish_answered [of ?s3 evs rest create req] s3 rc(5) assms(2)
      serves_cong [of "net ?s3" "net s" "length (sent (net s))" "evs # rest"] by auto
  let ?s4 = "s'\<lparr>currentReadCloser := Some rc'\<rparr>"
  have "\<not> isClosed s'" using online_not_closed [OF e(2)] by simp
  then have "ensureReadCloser create ?s3 = ensureReadCloser create ?s4"
    using e(1) s3(2) by (simp add: ensureReadCloser_def)
  then have "read_on create ?s3 = read_on create ?s4"
    by (simp add: read_on.simps [of create ?s3] read_on.simps [of create ?s4])
  then have "EventSource_Next create s = EventSource_Next create ?s4"
    using again online_not_closed [OF assms(1)] online_not_closed [OF e(2)]
    by (simp add: EventSource_Next_def)
  with e show ?thesis by (intro exI [of _ ?s4]) simp
qed

text \<open>The tokens the requests are sent with.\<close>

definition authorizations :: "network \<Rightarrow> string list" where
  "authorizations w = map (\<lambda>(req, _). aqAuthorization req) (sent w)"

lemma authorizations_fst: "authorizations w = map aqAuthorization (map fst (sent w))"
  by (simp add: authorizations_def case_prod_beta)

definition bearer_tokens :: "network \<Rightarrow> nat \<Rightarrow> string list" where
  "bearer_tokens w n = map (\<lambda>i. ''bearer '' @ tokens w (length (sent w) + i)) [0..<n]"

lemma bearer_tokens_Cons:
  "tokens w' = tokens w \<Longrightarrow> length (sent w') = Suc (length (sent w)) \<Longrightarrow>
   bearer_tokens w (Suc n) = (''bearer '' @ tokens w (length (sent w))) # bearer_tokens w' n"
  by (simp add: bearer_tokens_def upt_conv_Cons map_Suc_upt [symmetric] del: upt_Suc)

lemma next_events_connection:
  assumes "online s evs rest" and "list_all plain_event evs"
  shows "\<exists>s'. online s' [] rest \<and> sent (net s') = sent (net s) \<and> tokens (net s') = tokens (net s) \<and>
    (\<forall>k. next_events create (length evs + k) s =
      map_option (map_prod (append (map Ok evs)) id) (next_events create k s'))"
  using assms
proof (induction evs arbitrary: s)
  case Nil
  then show ?case
    by (intro exI [of _ s]) (simp add: map_prod_def option.map_ident case_prod_beta)
next
  case (Cons e evs)
  obtain s1 where s1: "EventSource_Next create s = Some (Ok e, s1)" "online s1 evs rest"
      "sent (net s1) = sent (net s)" "tokens (net s1) = tokens (net s)"
    using online_step [OF Cons.prems(1)] Cons.prems(2) by auto
  obtain s' where s': "online s' [] rest" "sent (net s') = sent (net s1)" "tokens (net s') = tokens (net s1)"
      "\<And>k. next_events create (length evs + k) s1 =
        map_option (map_prod (append (map Ok evs)) id) (next_events create k s')"
    using Cons.IH [OF s1(2)] Cons.prems(2) by (metis list.pred_inject(2))
  have step: "next_events create (length (e # evs) + k) s =
      map_option (map_prod (append (map Ok (e # evs))) id) (next_events create k s')" for k
    using s1(1) s'(4) [of k] by (cases "next_events create k s'") (auto simp: map_prod_def)
  show ?case
    by (rule exI [of _ s']) (intro conjI allI step; use s' s1 in simp)
qed

lemma next_events_online:
  assumes "CreateRequest c routeName Map.empty = Inr target" and "online s evs rest" and "list_all plain_event (evs @ concat rest)"
  shows "\<exists>s'. next_events (RequestCreator c routeName) (length evs + Suc (length (concat rest))) s =
      Some (map Ok (evs @ concat rest) @ [Fail EOF], s') \<and>
    authorizations (net s') = authorizations (net s) @ bearer_tokens (net s) (length rest)"
  using assms(2,3)
proof (induction rest arbitrary: s evs)
  case Nil
  obtain s1 where s1: "online s1 [] []" "sent (net s1) = sent (net s)"
      "\<And>k. next_events (RequestCreator c routeName) (length evs + k) s =
        map_option (map_prod (append (map Ok evs)) id) (next_events (RequestCreator c routeName) k s1)"
    using next_events_connection [OF Nil.prems(1), of "RequestCreator c routeName"] Nil.prems(2)
    by (metis list_all_append)
  obtain s' where "EventSource_Next (RequestCreator c routeName) s1 = Some (Fail EOF, s')"
      "sent (net s') = sent (net s1)"
    using online_end [OF s1(1)] by blast
  then show ?case
    using s1(2) s1(3) [of 1] by (simp add: authorizations_def bearer_tokens_def)
next
  case (Cons r rest)
  let ?create = "RequestCreator c routeName"
  obtain s1 where s1: "online s1 [] (r # rest)" "sent (net s1) = sent (net s)" "tokens (net s1) = tokens (net s)"
      "\<And>k. next_events ?create (length evs + k) s =
        map_option (map_prod (append (map Ok evs)) id) (next_events ?create k s1)"
    using next_events_connection [OF Cons.prems(1), of ?create] Cons.prems(2) by (metis list_all_append)
  obtain req where req: "?create (tokens (net s1) (length (sent (net s1)))) = Ok req"
      "aqAuthorization req = ''bearer '' @ tokens (net s1) (length (sent (net s1)))"
    using RequestCreator_Ok [OF assms(1)] by blast
  obtain s2 where s2: "EventSource_Next ?create s1 = EventSource_Next ?create s2" "online s2 r rest"
      "map fst (sent (net s2)) = map fst (sent (net s1)) @ [req]" "tokens (net s2) = tokens (net s1)"
    using online_reconnects [OF s1(1), of ?create req] req(1) by blast
  obtain s' where s': "next_events ?create (length r + Suc (length (concat rest))) s2 =
        Some (map Ok (r @ concat rest) @ [Fail EOF], s')"
      "authorizations (net s') = authorizations (net s2) @ bearer_tokens (net s2) (length rest)"
    using Cons.IH [OF s2(2)] Cons.prems(2) by auto
  have len: "length (sent (net s2)) = Suc (length (sent (net s)))"
    using arg_cong [OF s2(3), of length] s1(2) by simp
  have "bearer_tokens (net s) (length (r # rest)) =
      (''bearer '' @ tokens (net s) (length (sent (net s)))) # bearer_tokens (net s2) (length rest)"
    using s1 s2(4) len by (simp add: bearer_tokens_Cons)
  then have auth: "authorizations (net s') = authorizations (net s) @ bearer_tokens (net s) (length (r # rest))"
    using s'(2) s2(3) s1 req(2) by (simp add: authorizations_fst)
  have "next_events ?create (Suc (length (r @ concat rest))) s1 = next_events ?create (Suc (length (r @ concat rest))) s2"
    using s2(1) by simp
  then show ?case
    using s1(4) [of "Suc (length (r @ concat rest))"] s'(1) auth by auto
qed

text \<open>Subscribing to a server that answers leaves the source connected.\<close>

lemma doSubscribe_connects:
  assumes "CreateRequest c routeName Map.empty = Inr target" and "\<And>n. \<not> closes w n" and "serves w (length (sent w)) (evs # rest)"
  shows "\<exists>s. doSubscribe c routeName retries w = Some (Ok (), s) \<and> online s evs rest \<and>
    authorizations (net s) = authorizations w @ [''bearer '' @ tokens w (length (sent w))] \<and> tokens (net s) = tokens w \<and>
    length (sent (net s)) = Suc (length (sent w))"
proof -
  let ?create = "RequestCreator c routeName" and ?s = "createEventSource second retries w"
  obtain req where req: "?create (tokens w (length (sent w))) = Ok req"
      "aqAuthorization req = ''bearer '' @ tokens w (length (sent w))"
    using RequestCreator_Ok [OF assms(1)] by blast
  obtain rc s1 where s1: "establishConnection ?create ?s = Some (Ok rc, s1)"
      "online (s1\<lparr>currentReadCloser := Some rc\<rparr>) evs rest"
      "map fst (sent (net s1)) = map fst (sent w) @ [req]" "tokens (net s1) = tokens w"
    using establish_answered [of ?s evs rest ?create req] assms(2,3) req(1) by auto
  have "doSubscribe c routeName retries w = Some (Ok (), s1\<lparr>currentReadCloser := Some rc\<rparr>)"
    using s1(1) by (simp add: doSubscribe_def Config_Connect_def)
  moreover have "authorizations (net s1) = authorizations w @ [''bearer '' @ tokens w (length (sent w))]"
    using s1(3) req(2) by (simp add: authorizations_fst)
  ultimately show ?thesis
    using s1(2,4) arg_cong [OF s1(3), of length] by simp
qed

lemma serves_nth:
  assumes "\<And>i. i < length rs \<Longrightarrow>
    \<exists>res. answers w (k + i) = Inr res \<and> carries res (rs ! i) (Suc i = length rs)"
  shows "serves w k rs"
  using assms
proof (induction rs arbitrary: k)
  case (Cons r rs)
  have "serves w (Suc k) rs"
    using Cons.prems [of "Suc _"] by (intro Cons.IH) auto
  then show ?case
    using Cons.prems [of 0] by auto
qed simp

lemma length_streamed_from [simp]: "length (streamed_from n es) = length es"
  by (induction es arbitrary: n) simp_all

lemma handler_bytes:
  assumes "list_all (\<lambda>e. evType e \<noteq> InvalidEvent \<and> (\<exists>j. evValue e = Marshal j)) es"
  shows "fst (event_loop 0 (map (\<lambda>e. FromResult e None) es)) = stream_bytes (streamed_from 0 es)"
    and "list_all plain_event (streamed_from n es)"
proof -
  have "list_all printable (evValue e)" if "e \<in> set es" for e
    using assms that json_text_printable by (fastforce simp: list_all_iff Marshal_def)
  then show "list_all plain_event (streamed_from n es)"
    using plain_streamed_from [of es] by (auto simp: list_all_iff)
  show "fst (event_loop 0 (map (\<lambda>e. FromResult e None) es)) = stream_bytes (streamed_from 0 es)"
    using assms event_loop_events [of es 0] by (simp add: list_all_iff stream_bytes_def)
qed

text \<open>
  (C10) A subscriber keeps reading when its connection breaks. Let the client be able to create a request for
  the stream, which depends on its URL only. If the server's handler writes the events of
  \<open>ess ! i\<close> to the \<open>i\<close>-th connection, every connection but the last breaks off and the last one ends, then the
  subscriber reads the events of all connections in order, then the end, having sent one request per
  connection, each with the token the client had at that moment. The event numbers start from 0 on each
  connection.
\<close>

theorem subscriber_reads_across_connections:
  assumes "CreateRequest c routeName Map.empty = Inr target" and "ess \<noteq> []"
    and "list_all (list_all (\<lambda>e. evType e \<noteq> InvalidEvent \<and> (\<exists>j. evValue e = Marshal j))) ess"
    and "\<And>n. \<not> closes w n"
    and "\<And>i. i < length ess \<Longrightarrow> \<exists>res. answers w (length (sent w) + i) = Inr res \<and> srStatusCode res = 200 \<and>
      srBody res = fst (event_loop 0 (map (\<lambda>e. FromResult e None) (ess ! i))) \<and>
      (srEnd res = None \<longleftrightarrow> Suc i = length ess)"
  shows "\<exists>s s'. doSubscribe c routeName retries w = Some (Ok (), s) \<and>
    next_events (RequestCreator c routeName) (Suc (length (concat ess))) s =
      Some (map Ok (concat (map (streamed_from 0) ess)) @ [Fail EOF], s') \<and>
    authorizations (net s') = authorizations w @ bearer_tokens w (length ess)"
proof -
  let ?rs = "map (streamed_from 0) ess"
  have "serves w (length (sent w)) ?rs"
  proof (rule serves_nth)
    fix i
    assume i: "i < length ?rs"
    then have "list_all (\<lambda>e. evType e \<noteq> InvalidEvent \<and> (\<exists>j. evValue e = Marshal j)) (ess ! i)"
      using assms(3) by (simp add: list_all_length)
    from handler_bytes(1) [OF this] i assms(5) [of i]
    show "\<exists>res. answers w (length (sent w) + i) = Inr res \<and> carries res (?rs ! i) (Suc i = length ?rs)"
      by (auto simp: carries_def)
  qed
  moreover obtain es rest where ess: "ess = es # rest" using assms(2) by (cases ess) auto
  ultimately obtain s where s: "doSubscribe c routeName retries w = Some (Ok (), s)"
      "online s (streamed_from 0 es) (map (streamed_from 0) rest)"
      "authorizations (net s) = authorizations w @ [''bearer '' @ tokens w (length (sent w))]" "tokens (net s) = tokens w"
      "length (sent (net s)) = Suc (length (sent w))"
    using doSubscribe_connects [OF assms(1,4), of "streamed_from 0 es" "map (streamed_from 0) rest" retries] by auto
  have "list_all plain_event (streamed_from 0 es @ concat (map (streamed_from 0) rest))"
    using assms(3) handler_bytes(2) by (fastforce simp: ess list_all_iff)
  from next_events_online [OF assms(1) s(2) this] obtain s' where
    s': "next_events (RequestCreator c routeName) (length es + Suc (length (concat rest))) s =
        Some (map Ok (concat ?rs) @ [Fail EOF], s')"
      "authorizations (net s') = authorizations (net s) @ bearer_tokens (net s) (length rest)"
    by (auto simp: ess length_concat comp_def)
  have "authorizations (net s') = authorizations w @ bearer_tokens w (length ess)"
    using s'(2) s(3) by (simp add: ess bearer_tokens_Cons [OF s(4,5)])
  then show ?thesis
    using s(1) s'(1) by (intro exI [of _ s] exI [of _ s']) (simp add: ess)
qed


definition ex_events :: "Event list list" where
  "ex_events = [[\<lparr>evType = CreateEvent, evValue = Marshal (JArr [])\<rparr>], [\<lparr>evType = DeleteEvent, evValue = Marshal (JArr [])\<rparr>]]"

definition ex_answers :: "nat \<Rightarrow> go_error + stream_response" where
  "ex_answers n = Inr
     \<lparr>srStatusCode = 200, srStatus = ''200 OK'',
      srBody = fst (event_loop 0 (map (\<lambda>e. FromResult e None) (ex_events ! n))),
      srEnd = (if n = 0 then Some (ErrorString ''connection reset'') else None), srClose = None\<rparr>"

theorem subscriber_reads_across_connections_witness:
  "\<exists>s s'. doSubscribe (ex_client []) ''EventStream'' 1 (ex_network ex_answers) = Some (Ok (), s) \<and>
    next_events (RequestCreator (ex_client []) ''EventStream'') 3 s =
      Some (map Ok (concat (map (streamed_from 0) ex_events)) @ [Fail EOF], s') \<and>
    authorizations (net s') = [''bearer t0'', ''bearer t1'']"
proof -
  have "\<exists>s s'. doSubscribe (ex_client []) ''EventStream'' 1 (ex_network ex_answers) = Some (Ok (), s) \<and>
    next_events (RequestCreator (ex_client []) ''EventStream'') (Suc (length (concat ex_events))) s =
      Some (map Ok (concat (map (streamed_from 0) ex_events)) @ [Fail EOF], s') \<and>
    authorizations (net s') = authorizations (ex_network ex_answers) @ bearer_tokens (ex_network ex_answers) (length ex_events)"
    by (rule subscriber_reads_across_connections [OF ex_creates])
      (auto simp: ex_events_def ex_network_def ex_answers_def less_Suc_eq)
  moreover have "Suc (length (concat ex_events)) = 3"
    by (simp add: ex_events_def)
  moreover have "authorizations (ex_network ex_answers) @ bearer_tokens (ex_network ex_answers) (length ex_events) =
      [''bearer t0'', ''bearer t1'']"
    by (simp add: ex_events_def ex_network_def authorizations_def bearer_tokens_def)
  ultimately show ?thesis by simp
qed

end
