(* ===== verification/Pruning.thy ===== *)
theory Pruning
  imports Route_Store
begin

text \<open>
  The pruning of expired routes: \<open>FindExpiredRoutes\<close> and \<open>CleanupRoutes\<close> of \<open>db/db_sql.go\<close>. One
  pass of a pruning goroutine is an operation on the database; the loop that starts the goroutines
  is a step relation in which other requests interleave with them.
\<close>


section \<open>Pruning\<close>

text \<open>The table to search is given by the type of the slice the rows are read into.\<close>

definition FindExpiredRoutes ::
    "'s gormClient \<Rightarrow> ('s gorm_db \<Rightarrow> ('s, 'r) table_ops) \<Rightarrow> ('s SqlDB, 'r list) action" where
  "FindExpiredRoutes c tbl =
     bindE (outside time_Now) (\<lambda>now.
     sql (Client_Find c tbl [CLt ''expires_at'' (VTime (now + (- 1) * second))]))"

text \<open>
  The two goroutines of \<open>CleanupRoutes\<close>, each in two parts, since other requests run between the
  query and the deletion. The result is the message that is logged last. The slice of identifiers
  is made with as many empty strings as there are rows, then the identifiers are appended.
\<close>

definition prune_tcp_delete ::
    "'s gormClient \<Rightarrow> TcpRouteMapping list \<Rightarrow> ('s SqlDB, string) action" where
  "prune_tcp_delete c tcpRoutes =
     (let guids = replicate (length tcpRoutes) [] @ map (\<lambda>route. mGuid (tModel route)) tcpRoutes
      in tryE (sql (Client_Delete c tcp_routes_tbl zero_TcpRouteMapping [CIn ''guid'' (map VStr guids)]))
         (\<lambda>rowsAffected. case rowsAffected of
            Inl err \<Rightarrow> returnE ''failed-to-prune-tcp-routes''
          | Inr _ \<Rightarrow>
              bindE (forE (\<lambda>route. tryE (emitEvent ExpireEvent (TcpObj route)) (\<lambda>_. returnE ())) tcpRoutes)
                (\<lambda>_. returnE ''successfully-finished-pruning-tcp-routes'')))"

definition prune_tcp :: "'s gormClient \<Rightarrow> ('s SqlDB, string) action" where
  "prune_tcp c =
     tryE (FindExpiredRoutes c tcp_routes_tbl) (\<lambda>result. case result of
        Inl err \<Rightarrow> returnE ''failed-to-prune-tcp-routes''
      | Inr tcpRoutes \<Rightarrow> prune_tcp_delete c tcpRoutes)"

definition prune_http_delete ::
    "'s gormClient \<Rightarrow> Route list \<Rightarrow> ('s SqlDB, string) action" where
  "prune_http_delete c httpRoutes =
     (let guids = replicate (length httpRoutes) [] @ map (\<lambda>route. mGuid (rModel route)) httpRoutes
      in tryE (sql (Client_Delete c routes_tbl zero_Route [CIn ''guid'' (map VStr guids)]))
         (\<lambda>rowsAffected. case rowsAffected of
            Inl err \<Rightarrow> returnE ''failed-to-prune-http-routes''
          | Inr _ \<Rightarrow>
              bindE (forE (\<lambda>route. tryE (emitEvent ExpireEvent (RouteObj route)) (\<lambda>_. returnE ())) httpRoutes)
                (\<lambda>_. returnE ''successfully-finished-pruning-http-routes'')))"

definition prune_http :: "'s gormClient \<Rightarrow> ('s SqlDB, string) action" where
  "prune_http c =
     tryE (FindExpiredRoutes c routes_tbl) (\<lambda>result. case result of
        Inl err \<Rightarrow> returnE ''failed-to-prune-http-routes''
      | Inr httpRoutes \<Rightarrow> prune_http_delete c httpRoutes)"

lemma emit_expired:
  "forE (\<lambda>r. tryE (emitEvent ty (RouteObj r)) (\<lambda>_. returnE ())) rs d =
     (Ok (), d\<lparr>httpEventHub := fold (\<lambda>r. Emit \<lparr>evType = ty, evValue = Marshal (Route_json r)\<rparr>) rs (httpEventHub d)\<rparr>)"
  "forE (\<lambda>t. tryE (emitEvent ty (TcpObj t)) (\<lambda>_. returnE ())) ts d =
     (Ok (), d\<lparr>tcpEventHub := fold (\<lambda>t. Emit \<lparr>evType = ty, evValue = Marshal (TcpRouteMapping_json t)\<rparr>) ts (tcpEventHub d)\<rparr>)"
  by (induction rs arbitrary: d) (simp_all add: bindE_def tryE_def emitEvent_apply,
    induction ts arbitrary: d, simp_all add: bindE_def tryE_def emitEvent_apply)

lemma sat_expired:
  "sat route_col [CLt ''expires_at'' (VTime t)] = (\<lambda>r. rExpiresAt r < t)"
  "sat tcp_col [CLt ''expires_at'' (VTime t)] = (\<lambda>m. tExpiresAt m < t)"
  by (simp_all add: fun_eq_iff route_col_def tcp_col_def)

lemma filter_not_members:
  assumes "table_wf key guid rows" and "set rs = {r \<in> set rows. P r}"
  shows "filter (\<lambda>x. guid x \<notin> set (replicate n [] @ map guid rs)) rows = filter (\<lambda>x. \<not> P x) rows"
proof (rule filter_cong [OF refl])
  fix x assume "x \<in> set rows"
  moreover from this have "guid x \<noteq> []"
    using assms(1) by (auto simp: table_wf_def image_iff)
  ultimately show "guid x \<notin> set (replicate n [] @ map guid rs) \<longleftrightarrow> \<not> P x"
    using assms(2) table_wf_unique [OF assms(1)] by auto
qed

context sql_store
begin

lemma FindExpiredRoutes_routes:
  assumes "FindExpiredRoutes cl routes_tbl d = (y, d1)"
    and "limit = clock (env d) (ticks (env d)) - second"
  shows "rrows (store d1) = rrows (store d) \<and> httpEventHub d1 = httpEventHub d \<and> route_rest d1 = route_rest d \<and>
    uuids (env d1) = uuids (env d) \<and> \<not> is_panic y \<and>
    (\<forall>rs. y = Ok rs \<longrightarrow> mset rs = mset (filter (\<lambda>r. rExpiresAt r < limit) (rrows (store d))))"
proof -
  let ?where = "[CLt ''expires_at'' (VTime limit)]"
  obtain z s1 where f: "t_find (routes_tbl db) ?where (store d) = (z, s1)"
    by (cases "t_find (routes_tbl db) ?where (store d)")
  then have "y = z" and d1: "d1 = d\<lparr>env := (env d)\<lparr>ticks := Suc (ticks (env d))\<rparr>, store := s1\<rparr>"
    using assms by (simp_all add: FindExpiredRoutes_def client_defs bindE_def zoom_def time_Now_def)
  moreover have "mset rs = mset (filter (\<lambda>r. rExpiresAt r < limit) (rrows (store d)))" if "z = Ok rs" for rs
    using R.find_Ok(1) [OF f [unfolded that]] by (simp only: sat_expired)
  ultimately show ?thesis
    using R.find_result [OF f] by (cases z) simp_all
qed

lemma renewed_guid: "route_guid (rstored (renewed_route old route now)) = route_guid old"
  by (simp only: http.stored_row http.renewed_row)

text \<open>The deletion goes by identifier alone, whatever the rows found have become since the query.\<close>

lemma prune_http_delete_result:
  assumes "prune_http_delete cl rs d = (x, d')"
  shows "route_rest d' = route_rest d \<and>
    (x = Ok ''failed-to-prune-http-routes'' \<and>
       rrows (store d') = rrows (store d) \<and> httpEventHub d' = httpEventHub d \<or>
     x = Ok ''successfully-finished-pruning-http-routes'' \<and>
       rrows (store d') = filter (\<lambda>r. route_guid r \<notin> set (replicate (length rs) [] @ map route_guid rs)) (rrows (store d)) \<and>
       httpEventHub d' = fold (\<lambda>r. Emit \<lparr>evType = ExpireEvent, evValue = Marshal (Route_json r)\<rparr>) rs (httpEventHub d))"
proof -
  let ?guids = "replicate (length rs) [] @ map route_guid rs"
  obtain z s' where del: "t_delete (routes_tbl db) zero_Route [CIn ''guid'' (map VStr ?guids)] (store d) = (z, s')"
    by (cases "t_delete (routes_tbl db) zero_Route [CIn ''guid'' (map VStr ?guids)] (store d)")
  note dr = R.delete_result [OF del]
  show ?thesis
  proof (cases z)
    case (Ok n)
    have "rrows s' = filter (\<lambda>r. route_guid r \<notin> set ?guids) (rrows (store d))"
      using R.delete_by_keys [OF del [unfolded Ok]] by (simp add: zero_Route_def zero_Model_def)
    with Ok dr show ?thesis using assms [symmetric] del
      by (simp add: prune_http_delete_def client_defs tryE_def bindE_def zoom_def emit_expired)
  qed (use assms [symmetric] del dr in
      \<open>simp_all add: prune_http_delete_def client_defs tryE_def bindE_def zoom_def\<close>)
qed

lemma prune_http_result:
  assumes wf: "table_wf route_key route_guid (rrows (store d))"
    and run: "prune_http cl d = (x, d')"
    and limit: "limit = clock (env d) (ticks (env d)) - second"
  shows "route_rest d' = route_rest d \<and>
    (x = Ok ''failed-to-prune-http-routes'' \<and>
       rrows (store d') = rrows (store d) \<and> httpEventHub d' = httpEventHub d \<or>
     x = Ok ''successfully-finished-pruning-http-routes'' \<and>
       rrows (store d') = filter (\<lambda>r. \<not> rExpiresAt r < limit) (rrows (store d)) \<and>
       (\<exists>rs. mset rs = mset (filter (\<lambda>r. rExpiresAt r < limit) (rrows (store d))) \<and>
         httpEventHub d' = fold (\<lambda>r. Emit \<lparr>evType = ExpireEvent, evValue = Marshal (Route_json r)\<rparr>) rs (httpEventHub d)))"
proof -
  obtain y d1 where f: "FindExpiredRoutes cl routes_tbl d = (y, d1)"
    by (cases "FindExpiredRoutes cl routes_tbl d")
  note fr = FindExpiredRoutes_routes [OF f limit]
  show ?thesis
  proof (cases y)
    case (Ok rs)
    with fr have rs: "mset rs = mset (filter (\<lambda>r. rExpiresAt r < limit) (rrows (store d)))" by simp
    from mset_eq_setD [OF this] have "set rs = {r \<in> set (rrows (store d)). rExpiresAt r < limit}" by simp
    note gone = filter_not_members [OF wf this, of "length rs"]
    have "prune_http_delete cl rs d1 = (x, d')"
      using run f Ok by (simp add: prune_http_def tryE_def)
    from prune_http_delete_result [OF this] show ?thesis
      using fr rs gone by auto
  qed (use run [symmetric] f fr in \<open>simp_all add: prune_http_def tryE_def\<close>)
qed

lemma prune_tcp_result:
  assumes wf: "table_wf tcp_key tcp_guid (trows (store d))"
    and run: "prune_tcp cl d = (x, d')"
    and limit: "limit = clock (env d) (ticks (env d)) - second"
  shows "tcp_rest d' = tcp_rest d \<and>
    (x = Ok ''failed-to-prune-tcp-routes'' \<and>
       trows (store d') = trows (store d) \<and> tcpEventHub d' = tcpEventHub d \<or>
     x = Ok ''successfully-finished-pruning-tcp-routes'' \<and>
       trows (store d') = filter (\<lambda>r. \<not> tExpiresAt r < limit) (trows (store d)) \<and>
       (\<exists>rs. mset rs = mset (filter (\<lambda>r. tExpiresAt r < limit) (trows (store d))) \<and>
         tcpEventHub d' = fold (\<lambda>r. Emit \<lparr>evType = ExpireEvent, evValue = Marshal (TcpRouteMapping_json r)\<rparr>) rs (tcpEventHub d)))"
proof -
  obtain y s1 where f: "t_find (tcp_routes_tbl db) [CLt ''expires_at'' (VTime limit)] (store d) = (y, s1)"
    by (cases "t_find (tcp_routes_tbl db) [CLt ''expires_at'' (VTime limit)] (store d)")
  let ?d = "d\<lparr>env := (env d)\<lparr>ticks := Suc (ticks (env d))\<rparr>, store := s1\<rparr>"
  have find: "FindExpiredRoutes cl tcp_routes_tbl d = (y, ?d)"
    using f by (simp add: FindExpiredRoutes_def client_defs bindE_def zoom_def time_Now_def limit)
  note fr = T.find_result [OF f]
  show ?thesis
  proof (cases y)
    case (Ok rs)
    let ?guids = "replicate (length rs) [] @ map tcp_guid rs"
    obtain z s2 where del: "t_delete (tcp_routes_tbl db) zero_TcpRouteMapping [CIn ''guid'' (map VStr ?guids)] s1 = (z, s2)"
      by (cases "t_delete (tcp_routes_tbl db) zero_TcpRouteMapping [CIn ''guid'' (map VStr ?guids)] s1")
    note dr = T.delete_result [OF del]
    show ?thesis
    proof (cases z)
      case (Ok n)
      have "trows s2 = filter (\<lambda>x. tcp_guid x \<notin> set ?guids) (trows s1)"
        using T.delete_by_keys [OF del [unfolded Ok]] by (simp add: zero_TcpRouteMapping_def zero_Model_def)
      also have "\<dots> = filter (\<lambda>r. \<not> tExpiresAt r < limit) (trows (store d))"
        using filter_not_members [OF wf T.find_Ok(2) [OF f [unfolded \<open>y = Ok rs\<close>]], of "length rs"] fr
        by (simp add: sat_expired)
      finally have rows: "trows s2 = \<dots>" .
      have "x = Ok ''successfully-finished-pruning-tcp-routes''" and
        d': "d' = ?d\<lparr>store := s2, tcpEventHub := fold (\<lambda>r. Emit \<lparr>evType = ExpireEvent, evValue = Marshal (TcpRouteMapping_json r)\<rparr>) rs (tcpEventHub d)\<rparr>"
        using run [symmetric] find Ok \<open>y = Ok rs\<close> del
        by (simp_all add: prune_tcp_def prune_tcp_delete_def client_defs tryE_def bindE_def zoom_def
            emit_expired)
      moreover have "mset rs = mset (filter (\<lambda>r. tExpiresAt r < limit) (trows (store d)))"
        using T.find_Ok(1) [OF f [unfolded \<open>y = Ok rs\<close>]] by (simp only: sat_expired)
      moreover have "tcp_rest d' = tcp_rest d"
        using dr fr d' by simp
      ultimately show ?thesis
        using rows by (intro conjI disjI2 exI [of _ rs]) simp_all
    qed (use run [symmetric] find Ok del dr fr in
        \<open>simp_all add: prune_tcp_def prune_tcp_delete_def client_defs tryE_def bindE_def zoom_def\<close>)
  qed (use run [symmetric] find fr in \<open>simp_all add: prune_tcp_def tryE_def\<close>)
qed

end

section \<open>The pruning loop\<close>

text \<open>A goroutine is about to query, or has queried and is about to delete what it found.\<close>

datatype 'r prune_job = Querying | Deleting "'r list"

record 's cleaner =
  cdb :: "'s SqlDB"
  tcpInFlight :: uint32
  httpInFlight :: uint32
  tcpJobs :: "TcpRouteMapping prune_job list"
  httpJobs :: "Route prune_job list"

text \<open>
  A tick of \<open>pruningTicker\<close>: \<open>CompareAndSwapInt32\<close> on each flag, and a new goroutine if it succeeds.
\<close>

definition cleanup_tick :: "'s cleaner \<Rightarrow> 's cleaner" where
  "cleanup_tick s =
     (let s1 = (if tcpInFlight s = 0
                then s\<lparr>tcpInFlight := 1, tcpJobs := tcpJobs s @ [Querying]\<rparr> else s)
      in if httpInFlight s1 = 0
         then s1\<lparr>httpInFlight := 1, httpJobs := httpJobs s1 @ [Querying]\<rparr> else s1)"

definition drop_job :: "nat \<Rightarrow> 'j list \<Rightarrow> 'j list" where
  "drop_job i js = take i js @ drop (Suc i) js"

definition tcp_job_step :: "'s gormClient \<Rightarrow> nat \<Rightarrow> 's cleaner \<Rightarrow> 's cleaner" where
  "tcp_job_step c i s =
     (case tcpJobs s ! i of
        Querying \<Rightarrow>
          (case FindExpiredRoutes c tcp_routes_tbl (cdb s) of
             (Ok tcpRoutes, d) \<Rightarrow> s\<lparr>cdb := d, tcpJobs := (tcpJobs s)[i := Deleting tcpRoutes]\<rparr>
           | (_, d) \<Rightarrow> s\<lparr>cdb := d, tcpJobs := drop_job i (tcpJobs s), tcpInFlight := 0\<rparr>)
      | Deleting tcpRoutes \<Rightarrow>
          s\<lparr>cdb := snd (prune_tcp_delete c tcpRoutes (cdb s)),
            tcpJobs := drop_job i (tcpJobs s), tcpInFlight := 0\<rparr>)"

definition http_job_step :: "'s gormClient \<Rightarrow> nat \<Rightarrow> 's cleaner \<Rightarrow> 's cleaner" where
  "http_job_step c i s =
     (case httpJobs s ! i of
        Querying \<Rightarrow>
          (case FindExpiredRoutes c routes_tbl (cdb s) of
             (Ok httpRoutes, d) \<Rightarrow> s\<lparr>cdb := d, httpJobs := (httpJobs s)[i := Deleting httpRoutes]\<rparr>
           | (_, d) \<Rightarrow> s\<lparr>cdb := d, httpJobs := drop_job i (httpJobs s), httpInFlight := 0\<rparr>)
      | Deleting httpRoutes \<Rightarrow>
          s\<lparr>cdb := snd (prune_http_delete c httpRoutes (cdb s)),
            httpJobs := drop_job i (httpJobs s), httpInFlight := 0\<rparr>)"

text \<open>
  The reachable states of \<open>CleanupRoutes\<close>. Between its steps the rest of the program does whatever
  it does to the database; a signal ends the loop, after which only the running goroutines step.
\<close>

inductive CleanupRoutes :: "'s gormClient \<Rightarrow> bool \<Rightarrow> 's cleaner \<Rightarrow> bool" for c where
  cleanup_start:
    "CleanupRoutes c True
       \<lparr>cdb = d, tcpInFlight = 0, httpInFlight = 0, tcpJobs = [], httpJobs = []\<rparr>"
| cleanup_ticks: "CleanupRoutes c True s \<Longrightarrow> CleanupRoutes c True (cleanup_tick s)"
| cleanup_signal: "CleanupRoutes c True s \<Longrightarrow> CleanupRoutes c False s"
| cleanup_tcp:
    "CleanupRoutes c b s \<Longrightarrow> i < length (tcpJobs s) \<Longrightarrow> CleanupRoutes c b (tcp_job_step c i s)"
| cleanup_http:
    "CleanupRoutes c b s \<Longrightarrow> i < length (httpJobs s) \<Longrightarrow> CleanupRoutes c b (http_job_step c i s)"
| cleanup_request: "CleanupRoutes c b s \<Longrightarrow> CleanupRoutes c b (s\<lparr>cdb := d\<rparr>)"

definition one_in_flight :: "uint32 \<Rightarrow> 'j list \<Rightarrow> bool" where
  "one_in_flight flag js \<longleftrightarrow> length js = (if flag = 0 then 0 else 1)"

lemma one_in_flight_update [simp]: "one_in_flight f (js[i := j]) = one_in_flight f js"
  by (simp add: one_in_flight_def)

lemma one_in_flight_done:
  "one_in_flight f js \<Longrightarrow> i < length js \<Longrightarrow> one_in_flight 0 (drop_job i js)"
  by (auto simp: one_in_flight_def drop_job_def split: if_splits)

lemma tcp_job_step_flight:
  assumes "one_in_flight (tcpInFlight s) (tcpJobs s)" and "i < length (tcpJobs s)"
  shows "one_in_flight (tcpInFlight (tcp_job_step c i s)) (tcpJobs (tcp_job_step c i s))"
  using assms one_in_flight_done [OF assms]
  by (auto simp: tcp_job_step_def split: prune_job.splits prod.splits go.splits)

lemma http_job_step_flight:
  assumes "one_in_flight (httpInFlight s) (httpJobs s)" and "i < length (httpJobs s)"
  shows "one_in_flight (httpInFlight (http_job_step c i s)) (httpJobs (http_job_step c i s))"
  using assms one_in_flight_done [OF assms]
  by (auto simp: http_job_step_def split: prune_job.splits prod.splits go.splits)

lemma job_step_other [simp]:
  "httpInFlight (tcp_job_step c i s) = httpInFlight s" "httpJobs (tcp_job_step c i s) = httpJobs s"
  "tcpInFlight (http_job_step c i s) = tcpInFlight s" "tcpJobs (http_job_step c i s) = tcpJobs s"
  by (simp_all add: tcp_job_step_def http_job_step_def split: prune_job.splits prod.splits go.splits)

lemma CleanupRoutes_in_flight:
  "CleanupRoutes c b s \<Longrightarrow>
   one_in_flight (tcpInFlight s) (tcpJobs s) \<and> one_in_flight (httpInFlight s) (httpJobs s)"
proof (induction rule: CleanupRoutes.induct)
  case (cleanup_ticks s)
  then show ?case
    by (auto simp: cleanup_tick_def one_in_flight_def Let_def)
next
  case (cleanup_tcp b s i)
  then show ?case by (simp add: tcp_job_step_flight)
next
  case (cleanup_http b s i)
  then show ?case by (simp add: http_job_step_flight)
qed (simp_all add: one_in_flight_def)

section \<open>What pruning does\<close>

text \<open>
  (C6) One pass of the pruning of HTTP routes removes exactly the routes that expired more than a
  second before it started, and announces each of them once with an \<open>Expire\<close> event; if the query
  or the deletion fails, it changes nothing. It never panics, and the other tables, the TCP hub and
  the backup lock are untouched.
\<close>

theorem prune_http_removes_expired:
  assumes "sql_store db rrows trows grows rstored tstored gstored"
    and "table_wf route_key route_guid (rrows (store d))"
    and "prune_http (NewGormClient db) d = (x, d')"
    and "expired = (\<lambda>r. rExpiresAt r < clock (env d) (ticks (env d)) - second)"
  shows "trows (store d') = trows (store d) \<and> grows (store d') = grows (store d) \<and>
    tcpEventHub d' = tcpEventHub d \<and> locker d' = locker d \<and>
    (x = Ok ''failed-to-prune-http-routes'' \<and>
       rrows (store d') = rrows (store d) \<and> httpEventHub d' = httpEventHub d \<or>
     x = Ok ''successfully-finished-pruning-http-routes'' \<and>
       rrows (store d') = filter (\<lambda>r. \<not> expired r) (rrows (store d)) \<and>
       (\<exists>rs. mset rs = mset (filter expired (rrows (store d))) \<and>
          httpEventHub d' =
            fold (\<lambda>r. Emit \<lparr>evType = ExpireEvent, evValue = Marshal (Route_json r)\<rparr>) rs (httpEventHub d)))"
  using sql_store.prune_http_result [OF assms(1-3) refl] unfolding assms(4) by simp

lemma ex_prunes:
  "fst (prune_http (NewGormClient mem_db) ex_full) = Ok ''successfully-finished-pruning-http-routes''"
  "fst (prune_tcp (NewGormClient mem_db) ex_full) = Ok ''successfully-finished-pruning-tcp-routes''"
  by (simp_all add: prune_http_def prune_http_delete_def prune_tcp_def prune_tcp_delete_def
      FindExpiredRoutes_def ex_defs mem_eval sat_def route_col_def tcp_col_def pk_cond_def second_def
     )

lemma ex_expiry:
  "rExpiresAt ex_row = 1699999000000000000" "tExpiresAt ex_tcp_row = 1700000060000000000"
  "clock (env ex_full) (ticks (env ex_full)) = 1700000000500000000"
  by (simp_all add: ex_defs)

theorem prune_http_removes_expired_witness:
  "fst (prune_http (NewGormClient mem_db) ex_full) = Ok ''successfully-finished-pruning-http-routes'' \<and>
   mroutes (store (snd (prune_http (NewGormClient mem_db) ex_full))) = [] \<and>
   mtcp (store (snd (prune_http (NewGormClient mem_db) ex_full))) = [ex_tcp_row]"
proof -
  have "table_wf route_key route_guid (mroutes (store ex_full))"
    by (simp add: ex_tables small_tables)
  from prune_http_removes_expired [OF mem.sql_store_axioms this prod.collapse [symmetric] refl]
  show ?thesis
    by (simp add: ex_prunes ex_tables ex_expiry second_def)
qed

text \<open>
  One pass of the pruning of TCP route mappings does the same on their table and hub.
\<close>

theorem prune_tcp_removes_expired:
  assumes "sql_store db rrows trows grows rstored tstored gstored"
    and "table_wf tcp_key tcp_guid (trows (store d))"
    and "prune_tcp (NewGormClient db) d = (x, d')"
    and "expired = (\<lambda>t. tExpiresAt t < clock (env d) (ticks (env d)) - second)"
  shows "rrows (store d') = rrows (store d) \<and> grows (store d') = grows (store d) \<and>
    httpEventHub d' = httpEventHub d \<and> locker d' = locker d \<and>
    (x = Ok ''failed-to-prune-tcp-routes'' \<and>
       trows (store d') = trows (store d) \<and> tcpEventHub d' = tcpEventHub d \<or>
     x = Ok ''successfully-finished-pruning-tcp-routes'' \<and>
       trows (store d') = filter (\<lambda>t. \<not> expired t) (trows (store d)) \<and>
       (\<exists>ts. mset ts = mset (filter expired (trows (store d))) \<and>
          tcpEventHub d' =
            fold (\<lambda>t. Emit \<lparr>evType = ExpireEvent, evValue = Marshal (TcpRouteMapping_json t)\<rparr>) ts
              (tcpEventHub d)))"
  using sql_store.prune_tcp_result [OF assms(1-3) refl] unfolding assms(4) by simp

theorem prune_tcp_removes_expired_witness:
  "fst (prune_tcp (NewGormClient mem_db) ex_full) = Ok ''successfully-finished-pruning-tcp-routes'' \<and>
   mtcp (store (snd (prune_tcp (NewGormClient mem_db) ex_full))) = [ex_tcp_row]"
proof -
  have "table_wf tcp_key tcp_guid (mtcp (store ex_full))"
    by (simp add: ex_tables small_tables)
  from prune_tcp_removes_expired [OF mem.sql_store_axioms this prod.collapse [symmetric] refl]
  show ?thesis
    by (simp add: ex_prunes ex_tables ex_expiry second_def)
qed

text \<open>
  (C13) At any time at most one goroutine prunes each table, and the flag of \<open>CleanupRoutes\<close> is set
  exactly while one does, however ticks, requests, the goroutines and a signal interleave.
\<close>

theorem CleanupRoutes_one_in_flight:
  assumes "CleanupRoutes c running s"
  shows "length (tcpJobs s) = (if tcpInFlight s = 0 then 0 else 1) \<and>
    length (httpJobs s) = (if httpInFlight s = 0 then 0 else 1)"
  using CleanupRoutes_in_flight [OF assms] by (simp add: one_in_flight_def)

theorem CleanupRoutes_one_in_flight_witness:
  "\<exists>s. CleanupRoutes (NewGormClient mem_db) True s \<and> length (tcpJobs s) = 1 \<and> tcpInFlight s \<noteq> 0"
proof -
  let ?s = "cleanup_tick (cleanup_tick \<lparr>cdb = ex_full, tcpInFlight = 0, httpInFlight = 0, tcpJobs = [], httpJobs = []\<rparr>)"
  have "CleanupRoutes (NewGormClient mem_db) True ?s"
    by (intro cleanup_ticks cleanup_start)
  moreover from this have "length (tcpJobs ?s) = (if tcpInFlight ?s = 0 then 0 else 1)"
    by (rule CleanupRoutes_one_in_flight [THEN conjunct1])
  moreover have "tcpInFlight ?s \<noteq> 0"
    by (simp add: cleanup_tick_def)
  ultimately show ?thesis by auto
qed

text \<open>
  (C39) The query and the deletion of a pass are two statements, and the deletion goes by identifier
  alone. So if a route that the query found expired is saved again before the deletion, which renews
  its row and its expiry, then the deletion, unless it fails, removes the renewed row all the same
  and announces that the old one expired.
\<close>

theorem prune_deletes_renewed_route:
  assumes "sql_store db rrows trows grows rstored tstored gstored"
    and "table_wf route_key route_guid (rrows (store d))" and "good_uuids (env d)"
    and "FindExpiredRoutes (NewGormClient db) routes_tbl d = (Ok rs, d1)"
    and "old \<in> set rs" and "route_key old = route_key route"
    and "SaveRoute (NewGormClient db) route d1 = (Ok (), d2)"
    and "prune_http_delete (NewGormClient db) rs d2 = (x, d3)"
  shows "table_of route_key (rrows (store d2)) (route_key route) =
      Some (rstored (renewed_route old route (clock (env d1) (ticks (env d1))))) \<and>
    (x = Ok ''failed-to-prune-http-routes'' \<and> rrows (store d3) = rrows (store d2) \<or>
     x = Ok ''successfully-finished-pruning-http-routes'' \<and>
       table_of route_key (rrows (store d3)) (route_key route) = None \<and>
       httpEventHub d3 =
         fold (\<lambda>r. Emit \<lparr>evType = ExpireEvent, evValue = Marshal (Route_json r)\<rparr>) rs (httpEventHub d2))"
proof -
  let ?new = "rstored (renewed_route old route (clock (env d1) (ticks (env d1))))"
  note f = sql_store.FindExpiredRoutes_routes [OF assms(1,4) refl]
  have d1: "table_wf route_key route_guid (rrows (store d1))" "good_uuids (env d1)"
    using f assms(2,3) by (simp_all add: good_uuids_def)
  from f have "mset rs = mset (filter (\<lambda>r. rExpiresAt r < clock (env d) (ticks (env d)) - second) (rrows (store d)))"
    by simp
  from mset_eq_setD [OF this] have "table_of route_key (rrows (store d1)) (route_key route) = Some old"
    using assms(2,5,6) f table_of_iff [of route_key "rrows (store d)"] by (auto simp: table_wf_def)
  with sql_store.http_save_result [OF assms(1) d1 assms(7) [unfolded SaveRoute_def]]
  have d2: "table_of route_key (rrows (store d2)) (route_key route) = Some ?new"
    "table_wf route_key route_guid (rrows (store d2))" by auto
  have "route_guid ?new = route_guid old"
    by (rule sql_store.renewed_guid [OF assms(1)])
  moreover have "r = ?new" if "r \<in> set (rrows (store d2))" "route_key r = route_key route" for r
    using d2 that table_of_member [of route_key "rrows (store d2)" r] by (simp add: table_wf_def)
  ultimately have "table_of route_key (filter (\<lambda>r. route_guid r \<notin> set (replicate (length rs) [] @ map route_guid rs))
      (rrows (store d2))) (route_key route) = None"
    using assms(5) by (auto simp: table_of_None)
  with d2(1) sql_store.prune_http_delete_result [OF assms(1,8)] show ?thesis by auto
qed

text \<open>The route of the example expired long ago; it is renewed for a minute, and pruned at once.\<close>

lemma ex_race:
  "FindExpiredRoutes (NewGormClient mem_db) routes_tbl ex_full = (Ok [ex_row], snd (FindExpiredRoutes (NewGormClient mem_db) routes_tbl ex_full))"
  "SaveRoute (NewGormClient mem_db) ex_route (snd (FindExpiredRoutes (NewGormClient mem_db) routes_tbl ex_full)) =
     (Ok (), snd (SaveRoute (NewGormClient mem_db) ex_route (snd (FindExpiredRoutes (NewGormClient mem_db) routes_tbl ex_full))))"
  "fst (prune_http_delete (NewGormClient mem_db) [ex_row]
     (snd (SaveRoute (NewGormClient mem_db) ex_route (snd (FindExpiredRoutes (NewGormClient mem_db) routes_tbl ex_full))))) =
     Ok ''successfully-finished-pruning-http-routes''"
  "map rExpiresAt (mroutes (store (snd (SaveRoute (NewGormClient mem_db) ex_route
     (snd (FindExpiredRoutes (NewGormClient mem_db) routes_tbl ex_full)))))) = [1700000061000000000]"
  by (simp_all add: prune_http_delete_def FindExpiredRoutes_def sql_run_defs ex_defs mem_eval sat_def
      route_col_def pk_cond_def second_def seconds_def int64_def to_second_def Increment_def)

theorem prune_deletes_renewed_route_witness:
  "let d2 = snd (SaveRoute (NewGormClient mem_db) ex_route (snd (FindExpiredRoutes (NewGormClient mem_db) routes_tbl ex_full)));
       d3 = snd (prune_http_delete (NewGormClient mem_db) [ex_row] d2)
   in map rExpiresAt (mroutes (store d2)) = [1700000061000000000] \<and>
      table_of route_key (mroutes (store d3)) (route_key ex_route) = None"
proof -
  have wf: "table_wf route_key route_guid (mroutes (store ex_full))"
    by (simp add: ex_tables small_tables)
  show ?thesis
    using prune_deletes_renewed_route [OF mem.sql_store_axioms wf ex_uuids(2) ex_race(1) list.set_intros(1) ex_tables(7)
        ex_race(2) prod.collapse [symmetric]] ex_race(3,4)
    by (auto simp: Let_def)
qed

end
