(* ===== verification/Replication.thy ===== *)
theory Replication
  imports Subscription Metrics Pruning
begin

text \<open>
  What a subscriber can rebuild. Every change of a table is announced by events from which the new
  table can be computed, and a watcher that is not dropped gets all of them; this theory joins the
  contract of the tables, the event hub and the watches.
\<close>

section \<open>Announced changes\<close>

text \<open>A change is the type of an event and the row it carries.\<close>

definition announced :: "('r \<Rightarrow> json) \<Rightarrow> EventType \<times> 'r \<Rightarrow> Event" where
  "announced to_json c = \<lparr>evType = fst c, evValue = Marshal (to_json (snd c))\<rparr>"

definition apply_change :: "('r \<Rightarrow> 'k) \<Rightarrow> ('r \<Rightarrow> 'r) \<Rightarrow> EventType \<times> 'r \<Rightarrow> ('k \<rightharpoonup> 'r) \<Rightarrow> 'k \<rightharpoonup> 'r" where
  "apply_change key stored c t =
     (if EventType_String (fst c) = ''Upsert'' then t(key (snd c) \<mapsto> stored (snd c)) else t(key (snd c) := None))"

definition follows ::
    "('r \<Rightarrow> 'k) \<Rightarrow> ('r \<Rightarrow> 'r) \<Rightarrow> ('r \<Rightarrow> json) \<Rightarrow> Event hub \<Rightarrow> ('k \<rightharpoonup> 'r) \<Rightarrow> Event hub \<Rightarrow> ('k \<rightharpoonup> 'r) \<Rightarrow> bool" where
  "follows key stored to_json h t h' t' \<longleftrightarrow>
     (\<exists>cs. list_all (\<lambda>c. fst c \<noteq> InvalidEvent) cs \<and>
       h' = fold Emit (map (announced to_json) cs) h \<and> t' = fold (apply_change key stored) cs t)"

lemma followsI:
  "list_all (\<lambda>c. fst c \<noteq> InvalidEvent) cs \<Longrightarrow> h' = fold Emit (map (announced to_json) cs) h \<Longrightarrow>
   t' = fold (apply_change key stored) cs t \<Longrightarrow> follows key stored to_json h t h' t'"
  by (auto simp: follows_def)

lemma follows_refl: "follows key stored to_json h t h t"
  by (rule followsI [of "[]"]) simp_all

lemma follows_trans:
  assumes "follows key stored to_json h t h1 t1" and "follows key stored to_json h1 t1 h2 t2"
  shows "follows key stored to_json h t h2 t2"
proof -
  obtain cs where cs: "list_all (\<lambda>c. fst c \<noteq> InvalidEvent) cs" "h1 = fold Emit (map (announced to_json) cs) h"
      "t1 = fold (apply_change key stored) cs t"
    using assms(1) by (auto simp: follows_def)
  obtain ds where ds: "list_all (\<lambda>c. fst c \<noteq> InvalidEvent) ds" "h2 = fold Emit (map (announced to_json) ds) h1"
      "t2 = fold (apply_change key stored) ds t1"
    using assms(2) by (auto simp: follows_def)
  show ?thesis
    by (rule followsI [of "cs @ ds"]) (use cs ds in simp_all)
qed

lemma event_names:
  "EventType_String CreateEvent = ''Upsert''" "EventType_String UpdateEvent = ''Upsert''"
  "EventType_String DeleteEvent = ''Delete''" "EventType_String ExpireEvent = ''Delete''"
  by (simp_all add: EventType_String_def)

context route_repository
begin

lemma save_follows:
  assumes "wf d" and "good_uuids (outer d)" and "save r d = (x, d')"
  shows "follows key stored announce (hub d) (tbl d) (hub d') (tbl d')"
proof (cases x)
  case (Ok u)
  then obtain new where new:
      "case tbl d (key r) of Some old \<Rightarrow> new = renewed old r (read_clock d)
       | None \<Rightarrow> \<exists>g tag. new = fresh r (read_clock d) g tag"
      "tbl d' = (tbl d)(key r \<mapsto> stored new)"
      "hub d' = Emit \<lparr>evType = if tbl d (key r) = None then CreateEvent else UpdateEvent,
                     evValue = Marshal (announce new)\<rparr> (hub d)"
    using save_result [OF assms] by auto
  have "key new = key r"
    using new(1) table_of_Some [of key "rows d" "key r"]
    by (cases "tbl d (key r)") (auto simp: renewed_row fresh_row)
  with new show ?thesis
    by (intro followsI [of "[(if tbl d (key r) = None then CreateEvent else UpdateEvent, new)]"])
      (simp_all add: announced_def apply_change_def event_names)
qed (use save_result [OF assms] in \<open>simp_all add: follows_refl\<close>)

lemma delete_follows:
  assumes "wf d" and "delete r d = (x, d')"
  shows "follows key stored announce (hub d) (tbl d) (hub d') (tbl d')"
proof (cases x)
  case (Ok u)
  then obtain old where old: "tbl d (key r) = Some old" "tbl d' = (tbl d)(key r := None)"
      "hub d' = Emit \<lparr>evType = DeleteEvent, evValue = Marshal (announce old)\<rparr> (hub d)"
    using delete_result [OF assms] by auto
  then show ?thesis
    using table_of_Some [OF old(1)]
    by (intro followsI [of "[(DeleteEvent, old)]"]) (simp_all add: announced_def apply_change_def event_names)
qed (use delete_result [OF assms] in \<open>simp_all add: follows_refl\<close>)

end

text \<open>Pruning announces the rows it removes.\<close>

lemma fold_expired:
  "fold (apply_change key stored) (map (Pair ExpireEvent) rs) t k = (if k \<in> key ` set rs then None else t k)"
  by (induction rs arbitrary: t) (auto simp: apply_change_def event_names)

lemma pruned_follows:
  assumes "table_wf key guid rows" and "set rs = {r \<in> set rows. P r}"
    and "rows' = filter (\<lambda>r. \<not> P r) rows"
    and "h' = fold (\<lambda>r. Emit \<lparr>evType = ExpireEvent, evValue = Marshal (to_json r)\<rparr>) rs h"
  shows "follows key stored to_json h (table_of key rows) h' (table_of key rows')"
proof (rule followsI)
  show "list_all (\<lambda>c. fst c \<noteq> InvalidEvent) (map (Pair ExpireEvent) rs)"
    by (simp add: list_all_iff)
  show "h' = fold Emit (map (announced to_json) (map (Pair ExpireEvent) rs)) h"
    unfolding assms(4) by (induction rs arbitrary: h) (simp_all add: announced_def)
  have d: "distinct (map key rows)" and d': "distinct (map key (filter (\<lambda>r. \<not> P r) rows))"
    using assms(1) by (auto simp: table_wf_def distinct_map_filter)
  have "table_of key rows' k = Some r \<longleftrightarrow>
      fold (apply_change key stored) (map (Pair ExpireEvent) rs) (table_of key rows) k = Some r" for k r
    using d assms(2) unfolding assms(3) table_of_iff [OF d'] fold_expired
    by (auto simp: table_of_iff [OF d] distinct_map dest: inj_onD)
  then have "table_of key rows' k = fold (apply_change key stored) (map (Pair ExpireEvent) rs) (table_of key rows) k" for k
    by (metis option.exhaust)
  then show "table_of key rows' = fold (apply_change key stored) (map (Pair ExpireEvent) rs) (table_of key rows)"
    by (rule ext)
qed

section \<open>Sequences of operations\<close>

text \<open>Requests that save or delete a route, and passes of the pruner, one after the other.\<close>

datatype change_op = RouteOp route_op | PruneOp

definition run_change :: "'s gormClient \<Rightarrow> change_op \<Rightarrow> 's SqlDB \<Rightarrow> 's SqlDB" where
  "run_change c op d = (case op of RouteOp r \<Rightarrow> run_op c r d | PruneOp \<Rightarrow> snd (prune_http c d))"

lemma run_change_uuids: "uuids (env (run_change c op d)) = uuids (env d)"
proof -
  have "keeps (\<lambda>e. uuids (env e) = uuids (env d)) (prune_http c)"
    unfolding prune_http_def FindExpiredRoutes_def prune_http_delete_def Let_def
    by (intro keeps_intros zooms_uuids world_uuids | auto split: sum.splits intro!: keeps_intros zooms_uuids)+
  then show ?thesis
    by (auto simp: run_change_def run_op_uuids split: change_op.splits dest!: keeps_snd [where d = d])
qed

context sql_store
begin

lemma run_change_follows:
  assumes "table_wf route_key route_guid (rrows (store d))" and "good_uuids (env d)"
    and "d' = run_change cl op d"
  shows "table_wf route_key route_guid (rrows (store d')) \<and> good_uuids (env d') \<and>
    follows route_key rstored Route_json (httpEventHub d) (table_of route_key (rrows (store d)))
      (httpEventHub d') (table_of route_key (rrows (store d')))"
proof -
  have uu: "good_uuids (env d')"
    using assms(2) run_change_uuids [of cl op d] by (simp add: assms(3) good_uuids_def)
  show ?thesis
  proof (cases op)
    case (RouteOp r)
    then have d': "d' = run_op cl r d"
      by (simp add: assms(3) run_change_def)
    have "follows route_key rstored Route_json (httpEventHub d) (table_of route_key (rrows (store d)))
        (httpEventHub d') (table_of route_key (rrows (store d')))"
      using http.save_follows [OF assms(1,2) prod.collapse [symmetric]]
        http.delete_follows [OF assms(1) prod.collapse [symmetric]]
      by (cases r) (simp_all add: d' run_op_def SaveRoute_def DeleteRoute_def)
    with uu show ?thesis
      using run_op_counts [OF assms(1,2) d'] by simp
  next
    case PruneOp
    then have run: "prune_http cl d = (fst (prune_http cl d), d')"
      by (simp add: assms(3) run_change_def)
    let ?P = "\<lambda>r. rExpiresAt r < clock (env d) (ticks (env d)) - second"
    from prune_http_result [OF assms(1) run refl]
    consider "rrows (store d') = rrows (store d)" "httpEventHub d' = httpEventHub d"
      | rs where "rrows (store d') = filter (\<lambda>r. \<not> ?P r) (rrows (store d))"
        "mset rs = mset (filter ?P (rrows (store d)))"
        "httpEventHub d' = fold (\<lambda>r. Emit \<lparr>evType = ExpireEvent, evValue = Marshal (Route_json r)\<rparr>) rs (httpEventHub d)"
      by blast
    then show ?thesis
    proof cases
      case 1
      with assms(1) uu show ?thesis by (simp add: follows_refl)
    next
      case (2 rs)
      have "set rs = {r \<in> set (rrows (store d)). ?P r}"
        using mset_eq_setD [OF 2(2)] by simp
      from pruned_follows [OF assms(1) this 2(1,3), of rstored]
      show ?thesis
        using uu table_wf_filter [OF assms(1), of "\<lambda>r. \<not> ?P r"] unfolding 2(1) by blast
    qed
  qed
qed

lemma run_changes_follow:
  assumes "table_wf route_key route_guid (rrows (store d))" and "good_uuids (env d)"
    and "d' = fold (run_change cl) ops d"
  shows "follows route_key rstored Route_json (httpEventHub d) (table_of route_key (rrows (store d)))
      (httpEventHub d') (table_of route_key (rrows (store d')))"
  using assms
proof (induction ops arbitrary: d)
  case (Cons op ops)
  show ?case
    using run_change_follows [OF Cons.prems(1,2) refl, of op] Cons.IH [of "run_change cl op d"] Cons.prems(3)
    by (auto elim: follows_trans)
qed (simp add: follows_refl)

end

section \<open>What a watcher gets\<close>

lemma Emits_pending:
  assumes "hub_inv h" and "i < nextSource h" and "\<not> sclosed (sources (fold Emit es h) i)"
  shows "hub_inv (fold Emit es h) \<and> nextSource (fold Emit es h) = nextSource h \<and>
    hub_pending (fold Emit es h) i = hub_pending h i @ es \<and> \<not> sclosed (sources h i)"
  using assms
proof (induction es arbitrary: h)
  case (Cons e es)
  note IH = Cons.IH [of "Emit e h"]
  have "hub_inv (Emit e h)" by (rule hub_inv_Emit [OF Cons.prems(1)])
  with IH Cons.prems have "hub_inv (fold Emit es (Emit e h)) \<and> nextSource (fold Emit es (Emit e h)) = nextSource h \<and>
      hub_pending (fold Emit es (Emit e h)) i = hub_pending (Emit e h) i @ es \<and> \<not> sclosed (sources (Emit e h) i)"
    by (simp add: Emit_eq)
  with Emit_pending [OF Cons.prems(1,2), of e] show ?case by simp
qed simp

lemma Subscribe_new:
  assumes "\<not> hclosed h"
  shows "nextSource h < nextSource (snd (Subscribe h))" "hub_pending (snd (Subscribe h)) (nextSource h) = []"
proof -
  have "Subscribe h = (Ok (nextSource h), h\<lparr>sources := (sources h)(nextSource h := newSource (bufferSize h)),
      nextSource := Suc (nextSource h), subscribers := subscribers h @ [nextSource h]\<rparr>)"
    using assms by (simp only: Subscribe_def Let_def if_False)
  then show "nextSource h < nextSource (snd (Subscribe h))" "hub_pending (snd (Subscribe h)) (nextSource h) = []"
    by (cases h, simp add: hub_pending_def newSource_def)+
qed

text \<open>A new watch starts with nothing pending.\<close>

lemma WatchChanges_http_run:
  "hclosed (httpEventHub d) \<Longrightarrow> fst (WatchChanges ''http-watch'' d) = Ok (WatchError (HubError ErrSubscribedToClosedHub))"
  "\<not> hclosed (httpEventHub d) \<Longrightarrow> WatchChanges ''http-watch'' d =
     (Ok (Watching HttpHub (nextSource (httpEventHub d))), d\<lparr>httpEventHub := snd (Subscribe (httpEventHub d))\<rparr>)"
proof -
  have http: "WatchChanges ''http-watch'' d = watch_hub_type HttpHub d"
    by (simp add: WatchChanges_def)
  note run = watch_hub_type_def tryE_def zoom_def hub_of_def set_hub_def Subscribe_def watch_hub.case Let_def
    if_False if_True prod.case go.case sum.case fst_conv snd_conv returnE_apply
  show "hclosed (httpEventHub d) \<Longrightarrow>
      fst (WatchChanges ''http-watch'' d) = Ok (WatchError (HubError ErrSubscribedToClosedHub))"
    unfolding http by (simp only: run)
  show "\<not> hclosed (httpEventHub d) \<Longrightarrow> WatchChanges ''http-watch'' d =
      (Ok (Watching HttpHub (nextSource (httpEventHub d))), d\<lparr>httpEventHub := snd (Subscribe (httpEventHub d))\<rparr>)"
    unfolding http by (simp only: run)
qed

lemma WatchChanges_http:
  assumes "WatchChanges ''http-watch'' d = (Ok (Watching HttpHub i), d1)" and "hub_inv (httpEventHub d)"
  shows "store d1 = store d" "env d1 = env d" "hub_inv (httpEventHub d1)" "i < nextSource (httpEventHub d1)"
    "hub_pending (httpEventHub d1) i = []"
proof -
  have open_hub: "\<not> hclosed (httpEventHub d)"
    using WatchChanges_http_run(1) [of d] assms(1) by auto
  then have i: "i = nextSource (httpEventHub d)" and d1: "d1 = d\<lparr>httpEventHub := snd (Subscribe (httpEventHub d))\<rparr>"
    using WatchChanges_http_run(2) [OF open_hub] assms(1) by simp_all
  show "store d1 = store d" "env d1 = env d"
    by (simp_all add: d1)
  have hub: "httpEventHub d1 = snd (Subscribe (httpEventHub d))"
    by (simp add: d1)
  show "i < nextSource (httpEventHub d1)" "hub_pending (httpEventHub d1) i = []"
    unfolding hub i using Subscribe_new [OF open_hub] by blast+
  show "hub_inv (httpEventHub d1)"
    unfolding hub by (rule hub_inv_Subscribe [OF assms(2) prod.collapse [symmetric]])
qed

text \<open>What is pending when the server cancels the watches is dispatched, then the channels are closed.\<close>

lemma cancelled_dispatch:
  assumes "hub_inv (httpEventHub d)" and "i < nextSource (httpEventHub d)"
    and "dispatchWatchEvents HttpHub i (snd (CancelWatches d)) = (es, r, d')"
  shows "es = hub_pending (httpEventHub d) i \<and> r = Some Closed"
proof -
  have hub: "hub_of HttpHub d = httpEventHub d" by (simp add: hub_of_def)
  show ?thesis
    using dispatch_all [OF refl, where h = HttpHub and d = "snd (CancelWatches d)" and sub = i] assms(3)
      Hub_Close_closes [OF assms(1,2)] by (simp add: CancelWatches_hub_of hub)
qed

lemma closed_stream_bytes:
  assumes "list_all (\<lambda>e. evType e \<noteq> InvalidEvent) es"
  shows "event_loop n (map (\<lambda>e. FromResult e None) es @ [ResultClosed]) =
    (stream_bytes (streamed_from n es), Some InvalidEventEnd)"
  using assms by (induction es arbitrary: n) (simp_all add: streamed_def stream_bytes_def Let_def)

end
