(* ===== verification/Tracing.thy ===== *)
theory Tracing
  imports Handlers Api_Client
begin

text \<open>
  What is logged about requests: \<open>trace/trace.go\<close>, which the client prints its requests and responses with,
  and the logging wrapper of the handlers in \<open>handlers/middleware.go\<close>. Both hide the credentials.
\<close>

section \<open>Hiding private data\<close>

definition PRIVATE_DATA_PLACEHOLDER :: string where
  "PRIVATE_DATA_PLACEHOLDER = ''[PRIVATE DATA HIDDEN]''"

text \<open>
  \<open>ReplaceAllString\<close> for a pattern that matches no empty string, given by the length of its match at the
  start of a text. The leftmost match is replaced, and the search goes on behind it.
\<close>

function replace_all :: "(string \<Rightarrow> nat option) \<Rightarrow> string \<Rightarrow> string \<Rightarrow> string" where
  "replace_all pattern repl [] = []"
| "replace_all pattern repl (c # cs) =
     (case pattern (c # cs) of
        Some (Suc n) \<Rightarrow> repl @ replace_all pattern repl (drop n cs)
      | _ \<Rightarrow> c # replace_all pattern repl cs)"
  by pat_completeness auto
termination
  by (relation "measure (\<lambda>(_, _, s). length s)") auto

abbreviation newline :: char where "newline \<equiv> CHR 0x0A"
abbreviation quotation :: char where "quotation \<equiv> CHR 0x22"

definition is_space :: "char \<Rightarrow> bool" where
  "is_space c \<longleftrightarrow> c \<in> {CHR 0x09, CHR 0x0A, CHR 0x0C, CHR 0x0D, CHR 0x20}"

text \<open>The length of a prefix, then of characters other than \<open>c\<close> up to \<open>c\<close>.\<close>

definition up_to :: "char \<Rightarrow> string \<Rightarrow> nat option" where
  "up_to c s = (if c \<in> set s then Some (Suc (length (takeWhile (\<lambda>x. x \<noteq> c) s))) else None)"

definition match_password :: "string \<Rightarrow> nat option" where
  "match_password s =
     (if HasPrefix s ''password=''
      then map_option (\<lambda>n. 9 + n) (up_to CHR ''&'' (drop 9 s)) else None)"

definition match_property :: "string \<Rightarrow> string \<Rightarrow> nat option" where
  "match_property propertyName s =
     (let head = quotation # propertyName @ [quotation, CHR '':''];
          spaces = takeWhile is_space (drop (length head) s);
          rest = drop (length head + length spaces) s
      in if HasPrefix s head \<and> rest \<noteq> [] \<and> hd rest = quotation
         then map_option (\<lambda>n. length head + length spaces + 1 + n) (up_to quotation (tl rest)) else None)"

definition sanitizeJson :: "string \<Rightarrow> string \<Rightarrow> string" where
  "sanitizeJson propertyName =
     replace_all (match_property propertyName)
       (quotation # propertyName @ [quotation, CHR '':'', quotation] @ PRIVATE_DATA_PLACEHOLDER @ [quotation])"

text \<open>The pattern \<open>(?m)^Authorization: .*\<close> matches a line with this prefix to its end.\<close>

definition hide_line :: "string \<Rightarrow> string" where
  "hide_line line =
     (if HasPrefix line ''Authorization: '' then ''Authorization: '' @ PRIVATE_DATA_PLACEHOLDER else line)"

definition hide_authorization :: "string \<Rightarrow> string" where
  "hide_authorization input = Join (map hide_line (Split input newline)) [newline]"

definition Sanitize :: "string \<Rightarrow> string" where
  "Sanitize input =
     (let sanitized = hide_authorization input;
          sanitized = replace_all match_password (''password='' @ PRIVATE_DATA_PLACEHOLDER @ ''&'') sanitized;
          sanitized = sanitizeJson ''access_token'' sanitized;
          sanitized = sanitizeJson ''refresh_token'' sanitized;
          sanitized = sanitizeJson ''token'' sanitized;
          sanitized = sanitizeJson ''password'' sanitized
      in sanitizeJson ''oldPassword'' sanitized)"

section \<open>The logger\<close>

datatype Printer = stdoutLogger | nullLogger

definition NewLogger :: "string \<Rightarrow> Printer" where
  "NewLogger env_setting = (if env_setting = ''true'' then stdoutLogger else nullLogger)"

text \<open>Printing appends to the standard output, with a line break at the end.\<close>

definition Printf :: "Printer \<Rightarrow> string \<Rightarrow> string \<Rightarrow> string" where
  "Printf logger msg out =
     (case logger of
        nullLogger \<Rightarrow> out
      | stdoutLogger \<Rightarrow> out @ msg @ (if msg = [] \<or> last msg \<noteq> newline then [newline] else []))"

text \<open>The text of a dump, or the error of making it; \<open>now\<close> is the time as it is printed.\<close>

definition dump :: "string \<Rightarrow> string \<Rightarrow> Printer \<Rightarrow> string \<Rightarrow> go_error + string \<Rightarrow> string \<Rightarrow> string" where
  "dump what label logger now dumped out =
     (case dumped of
        Inl err \<Rightarrow> Printf logger (''Error dumping '' @ what @ [newline] @ error_text err @ [newline]) out
      | Inr body \<Rightarrow>
          Printf logger ([newline] @ label @ '' ['' @ now @ '']'' @ [newline] @ Sanitize body @ [newline]) out)"

definition DumpRequest :: "Printer \<Rightarrow> string \<Rightarrow> go_error + string \<Rightarrow> string \<Rightarrow> string" where
  "DumpRequest = dump ''request'' ''REQUEST:''"

definition DumpResponse :: "Printer \<Rightarrow> string \<Rightarrow> go_error + string \<Rightarrow> string \<Rightarrow> string" where
  "DumpResponse = dump ''response'' ''RESPONSE:''"

definition DumpJSON :: "string \<Rightarrow> Printer \<Rightarrow> string \<Rightarrow> go_error + string \<Rightarrow> string \<Rightarrow> string" where
  "DumpJSON label = dump ''json object'' (label @ '':'')"

text \<open>
  \<open>httputil.DumpRequest\<close> on a request of the client: the request line, the host, the headers in the order
  of their names with line breaks in values replaced and spaces around them removed, and the body.
\<close>

definition header_value :: "string \<Rightarrow> string" where
  "header_value v =
     (let trim = dropWhile is_space;
          v = map (\<lambda>c. if c = newline \<or> c = CHR 0x0D then CHR 0x20 else c) v
      in rev (trim (rev (trim v))))"

definition dump_request :: "string \<Rightarrow> string \<Rightarrow> (string \<times> string) list \<Rightarrow> api_request \<Rightarrow> string" where
  "dump_request host uri further req =
     aqMethod req @ '' '' @ uri @ '' HTTP/1.1'' @ [CHR 0x0D, newline] @
     ''Host: '' @ host @ [CHR 0x0D, newline] @
     ''Authorization: '' @ header_value (aqAuthorization req) @ [CHR 0x0D, newline] @
     concat (map (\<lambda>(k, v). k @ '': '' @ header_value v @ [CHR 0x0D, newline]) further) @
     [CHR 0x0D, newline] @ aqBody req"

section \<open>The wrapper of the handlers\<close>

type_synonym header = "string \<rightharpoonup> string list"

datatype log_entry = Serving string string header | Done "(string \<times> string) list"

definition filter_header :: "header \<Rightarrow> header" where
  "filter_header header' = header'(''Authorization'' := None)"

text \<open>The log grows by an entry before and an entry after the request; a panic of the handler leaves out the second.\<close>

definition LogWrap ::
    "(header \<Rightarrow> ('s, response) action) \<Rightarrow> string \<Rightarrow> string \<Rightarrow> header \<Rightarrow>
     (log_entry list \<times> 's, response) action" where
  "LogWrap handler meth url header' =
     bindE (modifyE (apfst (\<lambda>log. log @ [Serving meth url (filter_header header')]))) (\<lambda>_.
     bindE (zoom snd apsnd (handler header')) (\<lambda>resp.
     bindE (modifyE (apfst (\<lambda>log. log @ [Done (rsHeaders resp)]))) (\<lambda>_. returnE resp)))"

section \<open>What is hidden\<close>

lemma Split_break: "Split (a @ c # b) c = Split a c @ Split b c"
proof (induction a)
  case (Cons x a)
  then show ?case by (cases "Split a c") (auto split: list.splits)
qed simp

lemma Join_append: "ps \<noteq> [] \<Longrightarrow> qs \<noteq> [] \<Longrightarrow> Join (ps @ qs) sep = Join ps sep @ sep @ Join qs sep"
  by (induction ps sep rule: Join.induct) (auto simp: neq_Nil_conv)

lemma hide_authorization_break:
  "hide_authorization (a @ newline # b) = hide_authorization a @ newline # hide_authorization b"
  by (simp add: hide_authorization_def Split_break Join_append)

lemma hide_authorization_line:
  assumes "newline \<notin> set v"
  shows "hide_authorization (''Authorization: '' @ v) = ''Authorization: '' @ PRIVATE_DATA_PLACEHOLDER"
proof -
  have "newline \<notin> set (''Authorization: '' @ v)"
    using assms by simp
  from Split_no_sep [OF this] show ?thesis
    by (simp add: hide_authorization_def hide_line_def)
qed

lemma header_value_line: "newline \<notin> set (header_value v)"
proof -
  let ?v = "map (\<lambda>c. if c = newline \<or> c = CHR 0x0D then CHR 0x20 else c) v"
  have "set (header_value v) \<subseteq> set ?v"
    unfolding header_value_def Let_def by (auto dest!: set_dropWhileD)
  moreover have "newline \<notin> set ?v" by auto
  ultimately show ?thesis by blast
qed

lemma Sanitize_authorization:
  assumes "newline \<notin> set v" and "newline \<notin> set v'"
  shows "Sanitize (a @ newline # ''Authorization: '' @ v @ newline # b) =
    Sanitize (a @ newline # ''Authorization: '' @ v' @ newline # b)"
proof -
  have "hide_authorization (a @ newline # (''Authorization: '' @ u) @ newline # b) =
      hide_authorization a @ newline # (''Authorization: '' @ PRIVATE_DATA_PLACEHOLDER) @ newline # hide_authorization b"
    if "newline \<notin> set u" for u
    by (simp only: hide_authorization_break hide_authorization_line [OF that])
  from this [OF assms(1)] this [OF assms(2)] show ?thesis
    by (simp add: Sanitize_def)
qed

text \<open>
  (C30) Credentials do not reach the logs. What the client prints about a request is the same for any two
  values of its \<open>Authorization\<close> header, whatever else the request contains; and the server's log entry of a
  request is the same for any two values of that header and has no value for it.
\<close>

theorem logs_hide_credentials:
  "DumpRequest logger now (Inr (dump_request host uri further (req\<lparr>aqAuthorization := a\<rparr>))) out =
     DumpRequest logger now (Inr (dump_request host uri further (req\<lparr>aqAuthorization := b\<rparr>))) out \<and>
   fst (snd (LogWrap handler meth url (header'(''Authorization'' := x)) (log, s))) ! length log =
     Serving meth url (header'(''Authorization'' := None))"
proof
  have shape: "dump_request host uri further (req\<lparr>aqAuthorization := v\<rparr>) =
      (aqMethod req @ '' '' @ uri @ '' HTTP/1.1'' @ [CHR 0x0D, newline] @ ''Host: '' @ host @ [CHR 0x0D]) @
      newline # ''Authorization: '' @ (header_value v @ [CHR 0x0D]) @ newline #
      concat (map (\<lambda>(k, v). k @ '': '' @ header_value v @ [CHR 0x0D, newline]) further) @
        [CHR 0x0D, newline] @ aqBody req" for v
    by (simp add: dump_request_def)
  have "newline \<notin> set (header_value v @ [CHR 0x0D])" for v
    using header_value_line [of v] by simp
  then have "Sanitize (dump_request host uri further (req\<lparr>aqAuthorization := a\<rparr>)) =
      Sanitize (dump_request host uri further (req\<lparr>aqAuthorization := b\<rparr>))"
    unfolding shape by (intro Sanitize_authorization)
  then show "DumpRequest logger now (Inr (dump_request host uri further (req\<lparr>aqAuthorization := a\<rparr>))) out =
      DumpRequest logger now (Inr (dump_request host uri further (req\<lparr>aqAuthorization := b\<rparr>))) out"
    by (simp add: DumpRequest_def dump_def)
  obtain r s' where "handler (header'(''Authorization'' := x)) s = (r, s')" by fastforce
  then show "fst (snd (LogWrap handler meth url (header'(''Authorization'' := x)) (log, s))) ! length log =
      Serving meth url (header'(''Authorization'' := None))"
    by (cases r) (simp_all add: LogWrap_def bindE_def zoom_def filter_header_def nth_append)
qed

text \<open>
  A JSON value is hidden up to the first quotation mark in it, even an escaped one: what follows an
  escaped quotation mark stays visible.
\<close>

lemma up_to_append: "c \<notin> set v \<Longrightarrow> up_to c (v @ c # rest) = Some (Suc (length v))"
  by (induction v) (auto simp: up_to_def)

lemma sanitizeJson_value:
  assumes "quotation \<notin> set v" and "head = quotation # p @ [quotation, CHR '':'']"
  shows "sanitizeJson p (head @ quotation # v @ quotation # rest) =
    head @ quotation # PRIVATE_DATA_PLACEHOLDER @ quotation # sanitizeJson p rest"
proof -
  let ?s = "head @ quotation # v @ quotation # rest"
  have "takeWhile is_space (quotation # v @ quotation # rest) = []"
    by (simp add: is_space_def)
  then have "match_property p ?s = Some (Suc (length p + 3 + Suc (length v)))"
    using up_to_append [OF assms(1), of rest] HasPrefix_append [of head "quotation # v @ quotation # rest"]
    unfolding match_property_def Let_def assms(2) [symmetric]
    by (simp add: assms(2))
  then show ?thesis
    unfolding sanitizeJson_def by (simp add: assms(2) numeral_eq_Suc)
qed

end
