(* ===== verification/Spec2Isabelle.thy ===== *)
theory Spec2Isabelle
  imports Server Replication Tracing
begin

text \<open>
  The Cloud Foundry routing API: a server that keeps HTTP routes, TCP route mappings and router groups in a
  SQL database, offers them to routers over HTTP with server-sent events for changes, and drops the routes
  that are not renewed in time; and the Go client for it. This library models the program and proves what
  its parts promise. The sources are under \<open>src/\<close>; definitions carry the names of the Go functions.

  \<^bold>\<open>How the program is modelled.\<close> An operation is a function from a state to a result and a new state
  (\<open>('d, 'a) action\<close> in \<open>Prelude\<close>). The result is a value, an error, or a panic: \<open>Ok\<close>, \<open>Fail\<close>, \<open>Panic\<close>.
  Every early return, nil dereference, failed type assertion and ticker panic of the source is a branch.
  Fixed-width integers are words (\<open>uint16\<close>, \<open>uint32\<close>) or integers with the wrap-around written out
  (\<open>int64\<close>); byte strings are character lists. Goroutines and processes that interleave are inductive step
  relations. Loops that may run forever are \<open>partial_function\<close>s; whether they end is stated.

  \<^bold>\<open>Parameters.\<close> Code outside the sources is an argument: gorm and the SQL server (\<open>gorm_db\<close>, with the laws of
  the locales \<open>sql_table\<close> and \<open>sql_store\<close>, and \<open>schema_db\<close> with \<open>migration_store\<close>), JSON and YAML decoding,
  URL parsing, the network, the cryptography of tokens and certificates, the UAA server, the clock and the
  random source (\<open>world\<close>). The laws of the SQL tables leave out what gorm does to \<open>CreatedAt\<close> and \<open>UpdatedAt\<close>,
  which nothing shows, and compare texts exactly. Each locale is interpreted on an engine that executes the statements, with a list
  of faults that makes any statement fail (\<open>Sql_Engine\<close>, and \<open>mem_schema_db\<close> in \<open>Migrations\<close>), so the
  theorems also speak about failing databases.

  \<^bold>\<open>Theories and sources.\<close>
  \<^item> \<open>Prelude\<close>, \<open>Go_Strings\<close>, \<open>Go_Time\<close>, \<open>Json\<close>: results and combinators; \<open>strconv\<close>, \<open>strings\<close>, \<open>fmt\<close>; \<open>time\<close>
    with \<open>float64\<close> rounding written out; \<open>encoding/json\<close> as the program writes it.
  \<^item> \<open>Models\<close>, \<open>Router_Groups\<close>: \<open>models/\<close>. Modification tags (a later tag succeeds an earlier one until the
    index wraps), parsing, printing, overlap and validation of reservable ports.
  \<^item> \<open>Event_Hub\<close>: \<open>vendor/code.cloudfoundry.org/eventhub\<close>. Each source gets the events emitted while it is
    subscribed, in order, until it is closed or dropped as a slow consumer.
  \<^item> \<open>Sql_Client\<close>, \<open>Sql_Engine\<close>, \<open>Sql_Db\<close>, \<open>Tables\<close>, \<open>Route_Store\<close>, \<open>Router_Group_Store\<close>, \<open>Watching\<close>,
    \<open>Pruning\<close>: \<open>db/\<close>. The record \<open>SqlDB\<close> is the struct \<open>SqlDB\<close> with its store, its two hubs, its lock flags and
    the outside world. Saving and deleting refine updates of finite maps (\<open>table_of\<close>), with exactly one
    event per change; the locale \<open>route_repository\<close> is the contract that HTTP and TCP routes share. The
    backup lock freezes router groups; pruning removes exactly the expired rows it found, one pass at a
    time; cancelling the watches drains and closes every stream.
  \<^item> \<open>Migrations\<close>: \<open>migration/\<close>. However a run ends, the schema has what the recorded version promises, so a
    run that failed can be repeated.
  \<^item> \<open>Validator\<close>, \<open>Handlers\<close>, \<open>Event_Stream\<close>, \<open>Sse\<close>, \<open>Requests\<close>, \<open>Routing\<close>: \<open>handlers/\<close>, \<open>admin/\<close>, the router of
    \<open>cmd/routing-api/main.go\<close> and the libraries \<open>pat\<close>, \<open>rata\<close> and \<open>go-sse\<close>. What requests do to the tables on
    every branch, that every route reaches its handler with the path its client builds, that a request
    without a valid token changes nothing, and that an event stream is read back as it was sent.
  \<^item> \<open>Uaa\<close>, \<open>Token_Fetcher\<close>: \<open>uaaclient/\<close> with the checks of \<open>golang-jwt\<close>, whose dates are \<open>float64\<close> numbers. Which
    tokens are accepted at the one reading of the clock, and how many keys and tokens are requested.
  \<^item> \<open>Api_Client\<close>, \<open>Subscription\<close>: \<open>client.go\<close>, \<open>event_source.go\<close>, \<open>routes.go\<close>, and the event source of \<open>go-sse\<close>. The
    requests, with the errors of making one from the client's URL, and the search for a free port; when subscribing returns, and that a subscriber whose connection
    breaks reads on over a new one with the current token. The record \<open>network\<close> holds the answers to the
    requests, the token at each of them, and when another goroutine closes the source.
  \<^item> \<open>Tracing\<close>: \<open>trace/\<close>, \<open>handlers/middleware.go\<close>. The logs do not depend on the credentials of a request.
  \<^item> \<open>Metrics\<close>: \<open>metrics/\<close>. The gauge of routes follows the table.
  \<^item> \<open>Config\<close>, \<open>Connection\<close>: \<open>config/\<close>, \<open>cmd/config-validator\<close>, the connection strings and constructors of \<open>db/\<close>,
    \<open>uaaclient/\<close> and \<open>client.go\<close>. Which configurations are accepted, and which database servers are trusted.
  \<^item> \<open>Ordered_Group\<close>, \<open>Server\<close>: \<open>vendor/github.com/tedsuo/ifrit/grouper\<close>, \<open>cmd/routing-api/main.go\<close>, \<open>helpers/\<close>. When the
    server starts, in which order its processes start and stop, seeding, and the server's own route.
  \<^item> \<open>Replication\<close> and this theory join the tables, the hub, the watches, the stream and the subscriber: the
    events a router reads are enough to rebuild the routing table.

  \<^bold>\<open>Bounds.\<close> The port search, connecting and reading of the client are \<open>partial_function\<close>s: \<open>None\<close> means that they
  do not return. The search does not return once it comes to a group with a range up to port 65535; connecting does not while
  the server cannot be reached and there is no limit, or while it answers with a gateway error. No other
  definition needs fuel: dispatching to a watcher ends because the pending events are finite, and the decoder
  of tokens makes two rounds, as the source does.

  \<^bold>\<open>Interleaving.\<close> The theorems about tables and streams take the operations of the database one after the other.
  The pruning loop is the exception: its query and its deletion interleave with requests (\<open>Pruning\<close>), and
  the processes of the server interleave in \<open>Ordered_Group\<close>.

  \<^bold>\<open>Not modelled.\<close> Listening and TLS of \<open>net/http\<close>; the lock runner of locket and the grpc client; the
  instrumentation of dropsonde; the token mutex of the client; redirects of the UAA client; operations of the
  database client that the program does not call (\<open>db/client.go\<close>), and those that only pass a schema statement to gorm, which are fields
  of \<open>schema_db\<close>; the copies of the models in \<open>migration/v0\<close> to \<open>v7\<close>, which only gorm reads, except for the
  overlap test of \<open>v6\<close>; generated fakes and test support, which are not part of the program.
\<close>

section \<open>Following the routing table\<close>

text \<open>
  (C9) A subscriber can follow the routing table. Let a watch of the HTTP routes begin, let any sequence of
  requests that save or delete routes and of passes of the pruner run (failing ones included) without
  the hub dropping the watcher, and let the server then shut down. The client that reads the stream, if
  its URL allows a request to be created at all, receives exactly the changes that were made, in order, then the end of the stream; and applying them to
  the table as it was when the watch began (an upsert sets the entry of the route, a delete removes it)
  gives the table of the server.
\<close>

theorem subscriber_follows_routes:
  assumes "sql_store db rrows trows grows rstored tstored gstored"
    and "table_wf route_key route_guid (rrows (store d))" and "good_uuids (env d)" and "hub_inv (httpEventHub d)"
    and "WatchChanges ''http-watch'' d = (Ok (Watching HttpHub i), d1)"
    and "d2 = fold (run_change (NewGormClient db)) ops d1"
    and "\<not> sclosed (sources (httpEventHub d2) i)"
    and "dispatchWatchEvents HttpHub i (snd (CancelWatches d2)) = (es, r, d3)"
    and "CreateRequest c ''EventStream'' Map.empty = Inr target"
    and "\<And>n. \<not> closes w n" and "answers w (length (sent w)) = Inr res" and "srStatusCode res = 200"
    and "srBody res = fst (event_loop 0 (map (\<lambda>e. FromResult e None) es @ [ResultClosed]))" and "srEnd res = None"
  shows "r = Some Closed \<and>
    (\<exists>cs s s'. doSubscribe c ''EventStream'' retries w = Some (Ok (), s) \<and>
      next_events (RequestCreator c ''EventStream'') (Suc (length cs)) s =
        Some (map Ok (streamed_from 0 (map (announced Route_json) cs)) @ [Fail EOF], s') \<and>
      table_of route_key (rrows (store d2)) =
        fold (apply_change route_key rstored) cs (table_of route_key (rrows (store d))))"
proof -
  note w = WatchChanges_http [OF assms(5,4)]
  obtain cs where cs: "list_all (\<lambda>c. fst c \<noteq> InvalidEvent) cs"
      "httpEventHub d2 = fold Emit (map (announced Route_json) cs) (httpEventHub d1)"
      "table_of route_key (rrows (store d2)) = fold (apply_change route_key rstored) cs (table_of route_key (rrows (store d)))"
    using sql_store.run_changes_follow [OF assms(1), of d1 d2 ops] assms(2,3,6) w(1,2) by (auto simp: follows_def)
  have pend: "hub_inv (httpEventHub d2)" "i < nextSource (httpEventHub d2)"
      "hub_pending (httpEventHub d2) i = map (announced Route_json) cs"
    using Emits_pending [OF w(3,4) assms(7) [unfolded cs(2)]] w(4,5) unfolding cs(2) [symmetric] by simp_all
  have es: "es = map (announced Route_json) cs" and "r = Some Closed"
    using cancelled_dispatch [OF pend(1,2) assms(8)] pend(3) by simp_all
  have plain: "list_all plain_event (streamed_from 0 es)"
    using cs(1) by (intro handler_bytes(2)) (auto simp: es list_all_iff announced_def)
  have "carries res (streamed_from 0 es) True"
    using assms(12-14) cs(1) closed_stream_bytes [of es 0]
    by (simp add: carries_def es list_all_iff announced_def)
  then obtain s where s: "doSubscribe c ''EventStream'' retries w = Some (Ok (), s)" "online s (streamed_from 0 es) []"
    using doSubscribe_connects [OF assms(9), of w "streamed_from 0 es" "[]" retries] assms(10,11) by auto
  then obtain s' where "next_events (RequestCreator c ''EventStream'') (Suc (length cs)) s =
      Some (map Ok (streamed_from 0 es) @ [Fail EOF], s')"
    using next_events_online [OF assms(9) s(2)] plain by (auto simp: es)
  with s(1) cs(3) \<open>r = Some Closed\<close> es show ?thesis by blast
qed

definition ex_followed :: "mem SqlDB" where
  "ex_followed = run_change (NewGormClient mem_db) (RouteOp (SaveOp ex_route)) ex_watched"

definition ex_stream :: network where
  "ex_stream = ex_network (\<lambda>_. Inr
     \<lparr>srStatusCode = 200, srStatus = ''200 OK'',
      srBody = fst (event_loop 0 (map (\<lambda>e. FromResult e None)
        (fst (dispatchWatchEvents HttpHub 0 (snd (CancelWatches ex_followed)))) @ [ResultClosed])),
      srEnd = None, srClose = None\<rparr>)"

theorem subscriber_follows_routes_witness:
  "\<exists>cs s s'. doSubscribe (ex_client []) ''EventStream'' 0 ex_stream = Some (Ok (), s) \<and>
    next_events (RequestCreator (ex_client []) ''EventStream'') (Suc (length cs)) s =
      Some (map Ok (streamed_from 0 (map (announced Route_json) cs)) @ [Fail EOF], s') \<and>
    table_of route_key (mroutes (store ex_followed)) =
      fold (apply_change route_key (\<lambda>r. r\<lparr>rExpiresAt := to_second (rExpiresAt r)\<rparr>)) cs Map.empty \<and> cs \<noteq> []"
proof -
  have ex: "httpEventHub ex_db = NewNonBlocking 1024" "\<not> hclosed (NewNonBlocking 1024 :: Event hub)"
    by (simp_all add: ex_db_def NewSqlDB_value_def NewNonBlocking_def)
  have watch: "WatchChanges ''http-watch'' ex_db = (Ok (Watching HttpHub 0), ex_watched)"
    using WatchChanges_http_run(2) [of ex_db] by (simp add: ex ex_watched_eq) (simp add: NewNonBlocking_def)
  have d2: "ex_followed = run_op (NewGormClient mem_db) (SaveOp ex_route) ex_watched"
    by (simp add: ex_followed_def run_change_def)
  obtain es r d3 where dis: "dispatchWatchEvents HttpHub 0 (snd (CancelWatches ex_followed)) = (es, r, d3)"
    by (metis prod_cases3)
  have ne: "table_of route_key (mroutes (store ex_followed)) \<noteq> Map.empty"
    using ex_watched_saved(2) by (metis d2 dom_table_of dom_empty image_is_empty length_0_conv set_empty zero_neq_one)
  have "r = Some Closed \<and> (\<exists>cs s s'. doSubscribe (ex_client []) ''EventStream'' 0 ex_stream = Some (Ok (), s) \<and>
      next_events (RequestCreator (ex_client []) ''EventStream'') (Suc (length cs)) s =
        Some (map Ok (streamed_from 0 (map (announced Route_json) cs)) @ [Fail EOF], s') \<and>
      table_of route_key (mroutes (store ex_followed)) =
        fold (apply_change route_key (\<lambda>r. r\<lparr>rExpiresAt := to_second (rExpiresAt r)\<rparr>)) cs
          (table_of route_key (mroutes (store ex_db))))"
    by (rule subscriber_follows_routes [OF mem.sql_store_axioms _ ex_uuids(1) _ watch _ _ dis ex_creates,
          where ops = "[RouteOp (SaveOp ex_route)]" and w = ex_stream])
      (simp_all add: ex_tables small_tables ex d2 [symmetric] ex_stream_def ex_network_def dis run_change_def
        ex_watched_saved(1) [folded d2], simp_all)
  then obtain cs s s' where f: "doSubscribe (ex_client []) ''EventStream'' 0 ex_stream = Some (Ok (), s)"
      "next_events (RequestCreator (ex_client []) ''EventStream'') (Suc (length cs)) s =
        Some (map Ok (streamed_from 0 (map (announced Route_json) cs)) @ [Fail EOF], s')"
      "table_of route_key (mroutes (store ex_followed)) =
        fold (apply_change route_key (\<lambda>r. r\<lparr>rExpiresAt := to_second (rExpiresAt r)\<rparr>)) cs Map.empty"
    unfolding ex_tables small_tables by blast
  moreover have "cs \<noteq> []"
    using ne f(3) by auto
  ultimately show ?thesis by blast
qed

end
